(* ===== verification/Mosnix_Prelude.thy ===== *)
theory Mosnix_Prelude
  imports Main "HOL-Library.Word" "HOL-Library.Multiset" "HOL-Library.Monad_Syntax"
begin

unbundle bit_operations_syntax

text \<open>
  What every theory of the library shares: the widths of the C types of the
  6502 target (\<^verbatim>\<open>include/sys/types.h\<close>), the kernel's compile-time parameters
  (\<^verbatim>\<open>include/mosnix/config.h\<close>), error numbers (\<^verbatim>\<open>include/bits/errno.h\<close>), open flags
  and mode bits (\<^verbatim>\<open>include/bits/fcntl.h\<close>, \<^verbatim>\<open>include/bits/stat.h\<close>), the reading of a C string
  as the list of its bytes, arrays whose out-of-range accesses are visible, the
  signed wrap-around of the reference counters, and the generic lemmas the components use.

  Conventions. A function whose C code can touch memory out of range, follow a
  NULL pointer or call through a NULL operation table returns an \<open>option\<close>: \<^const>\<open>None\<close> is
  that undefined behaviour, and that it does not happen is a theorem, not an assumption.
  Kernel functions return \<open>int\<close> codes as the C code does: negative for an error.
\<close>

section \<open>Collections of facts\<close>

named_theorems cstr_simps \<open>reading C strings and byte arrays\<close>
named_theorems mode_simps \<open>mode bits and flags\<close>
named_theorems kget_simps \<open>reading a kernel object after a write\<close>

section \<open>Types of the target\<close>

type_synonym u8 = "8 word"
type_synonym u16 = "16 word"
type_synonym u32 = "32 word"
type_synonym mode_t = "16 word"
type_synonym dev_t = "16 word"
type_synonym flags_t = "16 word"

section \<open>Kernel configuration\<close>

abbreviation (input) CONFIG_PROC_MAX :: nat where "CONFIG_PROC_MAX \<equiv> 6"
abbreviation (input) CONFIG_FD_MAX :: nat where "CONFIG_FD_MAX \<equiv> 32"
abbreviation (input) CONFIG_PROC_FD_MAX :: nat where "CONFIG_PROC_FD_MAX \<equiv> 8"
abbreviation (input) CONFIG_ARG_MAX :: nat where "CONFIG_ARG_MAX \<equiv> 128"
abbreviation (input) CONFIG_ARGC_MAX :: nat where "CONFIG_ARGC_MAX \<equiv> 64"
abbreviation (input) CONFIG_RETURN_STACK_SIZE :: nat where "CONFIG_RETURN_STACK_SIZE \<equiv> 64"
abbreviation (input) CONFIG_NUM_BUFFERS :: nat where "CONFIG_NUM_BUFFERS \<equiv> 100"
abbreviation (input) CONFIG_PATH_MAX :: nat where "CONFIG_PATH_MAX \<equiv> 64"

section \<open>Error numbers\<close>

abbreviation (input) EPERM :: int where "EPERM \<equiv> 1"
abbreviation (input) ENOENT :: int where "ENOENT \<equiv> 2"
abbreviation (input) EINTR :: int where "EINTR \<equiv> 4"
abbreviation (input) EIO :: int where "EIO \<equiv> 5"
abbreviation (input) ENXIO :: int where "ENXIO \<equiv> 6"
abbreviation (input) E2BIG :: int where "E2BIG \<equiv> 7"
abbreviation (input) EBADF :: int where "EBADF \<equiv> 9"
abbreviation (input) ENOMEM :: int where "ENOMEM \<equiv> 12"
abbreviation (input) EACCES :: int where "EACCES \<equiv> 13"
abbreviation (input) EFAULT :: int where "EFAULT \<equiv> 14"
abbreviation (input) ENOTBLK :: int where "ENOTBLK \<equiv> 15"
abbreviation (input) EBUSY :: int where "EBUSY \<equiv> 16"
abbreviation (input) EEXIST :: int where "EEXIST \<equiv> 17"
abbreviation (input) ENODEV :: int where "ENODEV \<equiv> 19"
abbreviation (input) ENOTDIR :: int where "ENOTDIR \<equiv> 20"
abbreviation (input) EISDIR :: int where "EISDIR \<equiv> 21"
abbreviation (input) EINVAL :: int where "EINVAL \<equiv> 22"
abbreviation (input) ENFILE :: int where "ENFILE \<equiv> 23"
abbreviation (input) EMFILE :: int where "EMFILE \<equiv> 24"
abbreviation (input) ENOSPC :: int where "ENOSPC \<equiv> 28"
abbreviation (input) ESPIPE :: int where "ESPIPE \<equiv> 29"
abbreviation (input) EROFS :: int where "EROFS \<equiv> 30"
abbreviation (input) ENAMETOOLONG :: int where "ENAMETOOLONG \<equiv> 36"
abbreviation (input) ENOSYS :: int where "ENOSYS \<equiv> 38"

section \<open>Open flags, access modes, mode bits\<close>

abbreviation (input) O_RDONLY :: flags_t where "O_RDONLY \<equiv> 0x0000"
abbreviation (input) O_WRONLY :: flags_t where "O_WRONLY \<equiv> 0x0001"
abbreviation (input) O_RDWR :: flags_t where "O_RDWR \<equiv> 0x0002"
abbreviation (input) O_EXEC :: flags_t where "O_EXEC \<equiv> 3"
abbreviation (input) O_ACCMODE :: flags_t where "O_ACCMODE \<equiv> 0x0003"
abbreviation (input) O_CREAT :: flags_t where "O_CREAT \<equiv> 0x0040"
abbreviation (input) O_EXCL :: flags_t where "O_EXCL \<equiv> 0x0080"
abbreviation (input) O_NONBLOCK :: flags_t where "O_NONBLOCK \<equiv> 0x0800"

abbreviation (input) F_OK :: mode_t where "F_OK \<equiv> 0"
abbreviation (input) X_OK :: mode_t where "X_OK \<equiv> 1"
abbreviation (input) W_OK :: mode_t where "W_OK \<equiv> 2"
abbreviation (input) R_OK :: mode_t where "R_OK \<equiv> 3"

abbreviation (input) S_IFMT :: mode_t where "S_IFMT \<equiv> 0xF000"
abbreviation (input) S_IFCHR :: mode_t where "S_IFCHR \<equiv> 0x2000"
abbreviation (input) S_IFDIR :: mode_t where "S_IFDIR \<equiv> 0x4000"
abbreviation (input) S_IFBLK :: mode_t where "S_IFBLK \<equiv> 0x6000"
abbreviation (input) S_IFREG :: mode_t where "S_IFREG \<equiv> 0x8000"
abbreviation (input) S_IFLNK :: mode_t where "S_IFLNK \<equiv> 0xA000"
abbreviation (input) S_ISUID :: mode_t where "S_ISUID \<equiv> 0x0800"
abbreviation (input) S_ISGID :: mode_t where "S_ISGID \<equiv> 0x0400"
abbreviation (input) S_ISVTX :: mode_t where "S_ISVTX \<equiv> 0x0200"

definition S_ISCHR :: "mode_t \<Rightarrow> bool" where
  "S_ISCHR m \<longleftrightarrow> m AND S_IFMT = S_IFCHR"

definition S_ISDIR :: "mode_t \<Rightarrow> bool" where
  "S_ISDIR m \<longleftrightarrow> m AND S_IFMT = S_IFDIR"

definition S_ISBLK :: "mode_t \<Rightarrow> bool" where
  "S_ISBLK m \<longleftrightarrow> m AND S_IFMT = S_IFBLK"

definition S_ISREG :: "mode_t \<Rightarrow> bool" where
  "S_ISREG m \<longleftrightarrow> m AND S_IFMT = S_IFREG"

definition S_ISLNK :: "mode_t \<Rightarrow> bool" where
  "S_ISLNK m \<longleftrightarrow> m AND S_IFMT = S_IFLNK"

lemmas mode_type_defs [mode_simps] = S_ISCHR_def S_ISDIR_def S_ISBLK_def S_ISREG_def S_ISLNK_def

section \<open>C strings and arrays\<close>

text \<open>
  A \<^verbatim>\<open>const char *\<close> is the list of the bytes it points to; what lies
  past the list reads as the terminating NUL, and \<^verbatim>\<open>s++\<close> drops the first byte.
\<close>

abbreviation (input) NUL :: char where "NUL \<equiv> CHR 0x00"
abbreviation (input) SLASH :: char where "SLASH \<equiv> CHR ''/''"
abbreviation (input) DOT :: char where "DOT \<equiv> CHR ''.''"

fun cchar :: "char list \<Rightarrow> char" where
  "cchar [] = NUL"
| "cchar (c # _) = c"

definition cstr :: "char list \<Rightarrow> char list" where
  "cstr s = takeWhile (\<lambda>c. c \<noteq> NUL) s"

text \<open>
  Arrays are lists of fixed length. Reading or writing out of range is undefined
  behaviour, so the accessors return \<^const>\<open>None\<close> there.
\<close>

definition arr_get :: "'a list \<Rightarrow> nat \<Rightarrow> 'a option" where
  "arr_get a i = (if i < length a then Some (a ! i) else None)"

definition arr_set :: "'a list \<Rightarrow> nat \<Rightarrow> 'a \<Rightarrow> 'a list option" where
  "arr_set a i x = (if i < length a then Some (a[i := x]) else None)"

definition arr_blit :: "'a list \<Rightarrow> nat \<Rightarrow> 'a list \<Rightarrow> 'a list option" where
  "arr_blit a i xs =
     (if i + length xs \<le> length a
      then Some (take i a @ xs @ drop (i + length xs) a) else None)"

lemma cchar_conv_nth: "cchar s = (if s = [] then NUL else s ! 0)"
  by (cases s) auto

lemma cstr_no_NUL [simp]: "NUL \<notin> set (cstr s)"
  by (auto simp: cstr_def dest: set_takeWhileD)

lemma cstr_rec [cstr_simps]:
  "cstr [] = []"
  "cstr (c # s) = (if c = NUL then [] else c # cstr s)"
  by (auto simp: cstr_def)

lemma cstr_ident: "NUL \<notin> set s \<Longrightarrow> cstr s = s"
  by (induction s) (auto simp: cstr_rec)

lemma cstr_append_NUL: "NUL \<notin> set s \<Longrightarrow> cstr (s @ NUL # t) = s"
  by (induction s) (auto simp: cstr_simps)

lemma arr_get_Some [cstr_simps]: "i < length a \<Longrightarrow> arr_get a i = Some (a ! i)"
  by (simp add: arr_get_def)

lemma arr_set_Some [cstr_simps]: "i < length a \<Longrightarrow> arr_set a i x = Some (a[i := x])"
  by (simp add: arr_set_def)

lemma arr_blit_Some [cstr_simps]:
  "i + length xs \<le> length a \<Longrightarrow>
   arr_blit a i xs = Some (take i a @ xs @ drop (i + length xs) a)"
  by (simp add: arr_blit_def)

lemma arr_set_length: "arr_set a i x = Some b \<Longrightarrow> length b = length a"
  by (auto simp: arr_set_def split: if_splits)

lemma arr_blit_length: "arr_blit a i xs = Some b \<Longrightarrow> length b = length a"
  by (auto simp: arr_blit_def split: if_splits)

lemma nth_after_copy:
  "length t < i \<Longrightarrow> i < length d \<Longrightarrow> (t @ c # drop (Suc (length t)) d) ! i = d ! i"
  by (auto simp: nth_append nth_Cons')

section \<open>Signed counters\<close>

text \<open>
  The reference counters are signed: \<^verbatim>\<open>file_ref_count_t\<close> is a \<^verbatim>\<open>signed char\<close> and an inode's
  counter a \<^verbatim>\<open>short\<close>. Their increments and decrements wrap around.
\<close>

definition schar :: "int \<Rightarrow> int" where
  "schar x = (x + 128) mod 256 - 128"

definition sshort :: "int \<Rightarrow> int" where
  "sshort x = (x + 32768) mod 65536 - 32768"

lemma schar_ident: "- 128 \<le> x \<Longrightarrow> x < 128 \<Longrightarrow> schar x = x"
  by (simp add: schar_def)

lemma sshort_ident: "- 32768 \<le> x \<Longrightarrow> x < 32768 \<Longrightarrow> sshort x = x"
  by (simp add: sshort_def)

section \<open>Words\<close>

lemma u16_bound: "unat (x :: u16) < 65536"
  using unsigned_less [of x, where 'a = nat] by simp

lemma u8_bound: "unat (x :: u8) < 256"
  using unsigned_less [of x, where 'a = nat] by simp

lemma u8_all:
  assumes "list_all P (map of_nat [0 ..< 256])"
  shows "P (x :: u8)"
proof -
  have "x = of_nat (unat x)" "unat x \<in> set [0 ..< 256]" using u8_bound [of x] by simp_all
  with assms show ?thesis by (metis (no_types, lifting) list_all_iff set_map image_eqI)
qed

lemma unat_and_mask: "unat ((x :: 'a::len word) AND mask n) = unat x mod 2 ^ n"
proof -
  have "unat (x AND mask n) = take_bit n (unat x)"
    by (simp only: take_bit_eq_mask [symmetric] unsigned_take_bit_eq)
  then show ?thesis by (simp add: take_bit_eq_mod)
qed

lemma and_not_mask_minus:
  fixes x :: "'a::len word"
  shows "x AND NOT (mask n) = x - take_bit n x"
proof -
  have "x AND NOT (mask n) = push_bit n (drop_bit n x)"
    by (rule bit_word_eqI) (auto simp: bit_simps)
  then show ?thesis using bits_ident [of n x] by (metis add_diff_cancel_right')
qed

lemma unat_and_not_3:
  fixes x :: "'a::len word"
  shows "unat (x AND NOT 3) = unat x - unat x mod 4"
proof -
  have "(3 :: 'a word) = mask 2" by (simp add: mask_eq_exp_minus_1)
  then have and3: "x AND NOT 3 = x - take_bit 2 x" by (simp only: and_not_mask_minus)
  have "unat (take_bit 2 x) = take_bit 2 (unat x)"
    by (metis unsigned_take_bit_eq)
  then have tb: "unat (take_bit 2 x) = unat x mod 4" by (simp add: take_bit_eq_mod)
  then have "take_bit 2 x \<le> x" by (simp add: word_le_nat_alt)
  then show ?thesis using and3 tb by (simp add: unat_sub)
qed

section \<open>Lists and options\<close>

lemma bind_Some_iff: "Option.bind m f = Some y \<longleftrightarrow> (\<exists>x. m = Some x \<and> f x = Some y)"
  by (cases m) auto

end
