(* ===== verification/Kutil.thy ===== *)
theory Kutil
  imports Mosnix_Prelude
begin

text \<open>
  The string helpers of \<^verbatim>\<open>os/util.c\<close>. Every loop of the C code is a function on
  the pointer (the list of remaining bytes), the running counter and the remaining
  limit; its lemmas relate it to the C string \<^const>\<open>cstr\<close>.
\<close>

section \<open>Operations\<close>

fun strlen_constrained_loop :: "char list \<Rightarrow> nat \<Rightarrow> nat \<Rightarrow> nat" where
  "strlen_constrained_loop s len 0 = len"
| "strlen_constrained_loop s len (Suc lim) =
     (if cchar s = NUL then len else strlen_constrained_loop (tl s) (Suc len) lim)"

definition strlen_constrained :: "char list option \<Rightarrow> nat \<Rightarrow> nat" where
  "strlen_constrained s lim =
     (case s of None \<Rightarrow> 0 | Some s \<Rightarrow> strlen_constrained_loop s 0 lim)"

text \<open>
  \<open>strcpy_constrained_loop dest posn src lim\<close> is the copying loop with \<^verbatim>\<open>dest\<close> advanced
  to index \<open>posn\<close>; it returns the array and the index where the NUL goes.
\<close>

fun strcpy_constrained_loop ::
  "char list \<Rightarrow> nat \<Rightarrow> char list \<Rightarrow> nat \<Rightarrow> (char list \<times> nat) option" where
  "strcpy_constrained_loop dest posn src lim =
     (if lim > 1 \<and> cchar src \<noteq> NUL then
        do { dest' \<leftarrow> arr_set dest posn (cchar src);
             strcpy_constrained_loop dest' (Suc posn) (tl src) (lim - 1) }
      else Some (dest, posn))"

declare strcpy_constrained_loop.simps [simp del]

definition strcpy_constrained ::
  "char list \<Rightarrow> char list option \<Rightarrow> nat \<Rightarrow> char list option" where
  "strcpy_constrained dest src lim =
     do { (dest', posn) \<leftarrow>
            (case src of None \<Rightarrow> Some (dest, 0)
             | Some src \<Rightarrow> strcpy_constrained_loop dest 0 src lim);
          arr_set dest' posn NUL }"

fun str_is_too_long :: "char list \<Rightarrow> nat \<Rightarrow> bool" where
  "str_is_too_long s 0 = True"
| "str_is_too_long s (Suc lim) = (if cchar s = NUL then False else str_is_too_long (tl s) lim)"

fun strlen_path_component_loop :: "char list \<Rightarrow> nat \<Rightarrow> nat \<Rightarrow> nat" where
  "strlen_path_component_loop s len 0 = len"
| "strlen_path_component_loop s len (Suc lim) =
     (if cchar s = SLASH \<or> cchar s = NUL then len
      else strlen_path_component_loop (tl s) (Suc len) lim)"

definition strlen_path_component :: "char list \<Rightarrow> nat \<Rightarrow> nat" where
  "strlen_path_component s lim = strlen_path_component_loop s 0 lim"

definition oflag_to_access_mode :: "flags_t \<Rightarrow> mode_t" where
  "oflag_to_access_mode oflag =
     (let acc = oflag AND O_ACCMODE in
      if acc = O_RDONLY then R_OK
      else if acc = O_WRONLY then W_OK
      else if acc = O_RDWR then R_OK OR W_OK
      else X_OK)"

section \<open>Lengths\<close>

lemma strlen_constrained_loop_eq:
  "strlen_constrained_loop s len lim = len + min (length (cstr s)) lim"
proof (induction s len lim rule: strlen_constrained_loop.induct)
  case (2 s len lim)
  then show ?case by (cases s) (auto simp: cstr_simps)
qed simp

lemma strlen_constrained_eq:
  "strlen_constrained s lim = (case s of None \<Rightarrow> 0 | Some s \<Rightarrow> min (length (cstr s)) lim)"
  by (simp add: strlen_constrained_def strlen_constrained_loop_eq split: option.split)

lemma str_is_too_long_eq: "str_is_too_long s lim \<longleftrightarrow> lim \<le> length (cstr s)"
proof (induction s lim rule: str_is_too_long.induct)
  case (2 s lim)
  then show ?case by (cases s) (auto simp: cstr_simps)
qed simp

lemma strlen_path_component_loop_eq:
  "strlen_path_component_loop s len lim =
   len + min (length (takeWhile (\<lambda>c. c \<noteq> SLASH) (cstr s))) lim"
proof (induction s len lim rule: strlen_path_component_loop.induct)
  case (2 s len lim)
  then show ?case by (cases s) (auto simp: cstr_simps)
qed simp

lemma strlen_path_component_eq:
  "strlen_path_component s lim = min (length (takeWhile (\<lambda>c. c \<noteq> SLASH) (cstr s))) lim"
  by (simp add: strlen_path_component_def strlen_path_component_loop_eq)

section \<open>Copying\<close>

lemma strcpy_constrained_loop_eq:
  assumes "posn + lim \<le> length dest" and "1 \<le> lim"
  shows "strcpy_constrained_loop dest posn src lim =
    (let t = take (lim - 1) (cstr src)
     in Some (take posn dest @ t @ drop (posn + length t) dest, posn + length t))"
  using assms
proof (induction dest posn src lim rule: strcpy_constrained_loop.induct)
  case (1 dest posn src lim)
  show ?case
  proof (cases "lim > 1 \<and> cchar src \<noteq> NUL")
    case True
    then obtain c src' where src: "src = c # src'" "c \<noteq> NUL"
      by (cases src) auto
    from True "1.prems" have posn: "posn < length dest" by simp
    from True have "1 < lim" by simp
    then have "lim = Suc (Suc (lim - 2))" by arith
    then obtain m where m: "lim = Suc (Suc m)" by blast
    have upd: "take (Suc posn) (dest[posn := c]) = take posn dest @ [c]"
      using posn by (simp add: take_Suc_conv_app_nth)
    have IH: "strcpy_constrained_loop (dest[posn := c]) (Suc posn) src' (Suc m) =
      (let t = take m (cstr src')
       in Some (take (Suc posn) (dest[posn := c]) @ t @ drop (Suc posn + length t) (dest[posn := c]),
                Suc posn + length t))"
      using "1.IH"[of "dest[posn := c]"] True src posn "1.prems" m by (simp add: arr_set_Some)
    show ?thesis
      using True src m posn IH upd
      by (simp add: strcpy_constrained_loop.simps [of dest] arr_set_Some cstr_simps Let_def)
  next
    case False
    then have "lim = 1 \<or> cstr src = []"
      using "1.prems" by (cases src) (auto simp: cstr_simps)
    with False show ?thesis
      by (auto simp: strcpy_constrained_loop.simps [of dest])
  qed
qed

lemma strcpy_constrained_eq:
  assumes "lim \<le> length dest" and "1 \<le> lim"
  shows "strcpy_constrained dest src lim =
    (let t = (case src of None \<Rightarrow> [] | Some src \<Rightarrow> take (lim - 1) (cstr src))
     in Some (t @ NUL # drop (Suc (length t)) dest))"
proof (cases src)
  case None
  with assms show ?thesis
    by (cases dest) (auto simp: strcpy_constrained_def arr_set_def)
next
  case (Some s)
  let ?t = "take (lim - 1) (cstr s)"
  have len: "length ?t < length dest" using assms by auto
  have "(?t @ drop (length ?t) dest)[length ?t := NUL] = ?t @ NUL # drop (Suc (length ?t)) dest"
    using len by (simp add: list_update_append Cons_nth_drop_Suc [symmetric])
  with len Some assms show ?thesis
    by (simp add: strcpy_constrained_def strcpy_constrained_loop_eq arr_set_def Let_def)
qed

text \<open>C39. For any destination array of at least \<open>lim\<close> bytes and any source string, NULL included,
  \<open>strcpy_constrained\<close> stays inside the array, keeps its length, leaves a NUL-terminated
  string of at most \<open>lim - 1\<close> characters there, namely the longest such prefix of the source, and
  changes no byte past the terminator.\<close>

theorem strcpy_constrained_correct:
  assumes "lim \<le> length dest" and "1 \<le> lim"
  shows "\<exists>dest'. strcpy_constrained dest src lim = Some dest' \<and>
           length dest' = length dest \<and>
           cstr dest' = take (lim - 1) (case src of None \<Rightarrow> [] | Some s \<Rightarrow> cstr s) \<and>
           length (cstr dest') < lim \<and>
           (\<forall>i. length (cstr dest') < i \<longrightarrow> i < length dest \<longrightarrow> dest' ! i = dest ! i)"
proof -
  define t where "t = take (lim - 1) (case src of None \<Rightarrow> [] | Some s \<Rightarrow> cstr s)"
  have alt: "(case src of None \<Rightarrow> [] | Some src \<Rightarrow> take (lim - 1) (cstr src)) = t"
    by (simp add: t_def split: option.split)
  have len: "length t < lim" using assms by (simp add: t_def)
  have "NUL \<notin> set t" by (auto simp: t_def dest: in_set_takeD split: option.splits)
  then have cs: "cstr (t @ NUL # drop (Suc (length t)) dest) = t" by (rule cstr_append_NUL)
  have "strcpy_constrained dest src lim = Some (t @ NUL # drop (Suc (length t)) dest)"
    using strcpy_constrained_eq [OF assms, of src] unfolding alt by (simp add: Let_def)
  then show ?thesis
    unfolding t_def [symmetric] using cs len assms nth_after_copy [of t _ dest]
    by (intro exI conjI) (assumption, auto)
qed

theorem strcpy_constrained_correct_witness:
  "\<exists>dest'. strcpy_constrained ''xxxx'' (Some ''abcde'') 4 = Some dest' \<and> length dest' = 4 \<and>
     cstr dest' = ''abc''"
  using strcpy_constrained_correct [of 4 "''xxxx''" "Some ''abcde''"]
  by (auto simp: cstr_rec)

section \<open>Access modes\<close>

lemma oflag_to_access_mode_cases:
  "oflag_to_access_mode oflag \<in> {R_OK, W_OK, X_OK}"
  by (simp add: oflag_to_access_mode_def Let_def)

end
