(* ===== verification/Kqueue.thy ===== *)
theory Kqueue
  imports Mosnix_Prelude
begin

text \<open>
  The tail queues of \<^verbatim>\<open>include/sys/queue.h\<close>, at the level of the pointers the macros
  assign. A \<^verbatim>\<open>T **\<close> pointer is a place: the \<^verbatim>\<open>tqh_first\<close> field of a head, the
  \<^verbatim>\<open>tqe_next\<close> field of an element, or NULL, through which no store is possible. The second
  half gives the contract of a family of queues as a locale and shows that the macros meet it.
\<close>

section \<open>The macros\<close>

datatype ('h, 'e) tq_loc = Nowhere | First 'h | Next 'e

record ('h, 'e) tq_heap =
  tqh_first :: "'h \<Rightarrow> 'e option"
  tqh_last :: "'h \<Rightarrow> ('h, 'e) tq_loc"
  tqe_next :: "'e \<Rightarrow> 'e option"
  tqe_prev :: "'e \<Rightarrow> ('h, 'e) tq_loc"

text \<open>Loads and stores through a \<^verbatim>\<open>T **\<close> pointer.\<close>

fun tq_load :: "('h, 'e) tq_heap \<Rightarrow> ('h, 'e) tq_loc \<Rightarrow> 'e option" where
  "tq_load q Nowhere = None"
| "tq_load q (First h) = tqh_first q h"
| "tq_load q (Next e) = tqe_next q e"

fun tq_store ::
  "('h, 'e) tq_loc \<Rightarrow> 'e option \<Rightarrow> ('h, 'e) tq_heap \<Rightarrow> ('h, 'e) tq_heap option" where
  "tq_store Nowhere v q = None"
| "tq_store (First h) v q = Some (q\<lparr>tqh_first := (tqh_first q)(h := v)\<rparr>)"
| "tq_store (Next e) v q = Some (q\<lparr>tqe_next := (tqe_next q)(e := v)\<rparr>)"

definition TAILQ_INIT :: "'h \<Rightarrow> ('h, 'e) tq_heap \<Rightarrow> ('h, 'e) tq_heap" where
  "TAILQ_INIT h q =
     (let q1 = q\<lparr>tqh_first := (tqh_first q)(h := None)\<rparr> in
      q1\<lparr>tqh_last := (tqh_last q1)(h := First h)\<rparr>)"

definition TAILQ_FIRST :: "'h \<Rightarrow> ('h, 'e) tq_heap \<Rightarrow> 'e option" where
  "TAILQ_FIRST h q = tqh_first q h"

definition TAILQ_INSERT_TAIL :: "'h \<Rightarrow> 'e \<Rightarrow> ('h, 'e) tq_heap \<Rightarrow> ('h, 'e) tq_heap option" where
  "TAILQ_INSERT_TAIL h e q =
     (let q1 = q\<lparr>tqe_next := (tqe_next q)(e := None)\<rparr>;
          q2 = q1\<lparr>tqe_prev := (tqe_prev q1)(e := tqh_last q1 h)\<rparr> in
      do { q3 \<leftarrow> tq_store (tqh_last q2 h) (Some e) q2;
           Some (q3\<lparr>tqh_last := (tqh_last q3)(h := Next e)\<rparr>) })"

definition TAILQ_REMOVE :: "'h \<Rightarrow> 'e \<Rightarrow> ('h, 'e) tq_heap \<Rightarrow> ('h, 'e) tq_heap option" where
  "TAILQ_REMOVE h e q =
     (let q1 = (case tqe_next q e of
                  Some n \<Rightarrow> q\<lparr>tqe_prev := (tqe_prev q)(n := tqe_prev q e)\<rparr>
                | None \<Rightarrow> q\<lparr>tqh_last := (tqh_last q)(h := tqe_prev q e)\<rparr>) in
      tq_store (tqe_prev q1 e) (tqe_next q1 e) q1)"

section \<open>The list a queue represents\<close>

text \<open>The chain of elements from a place up to the place that \<^verbatim>\<open>tqh_last\<close> holds.\<close>

fun tq_seg :: "('h, 'e) tq_heap \<Rightarrow> ('h, 'e) tq_loc \<Rightarrow> 'e list \<Rightarrow> ('h, 'e) tq_loc \<Rightarrow> bool" where
  "tq_seg q l [] l' \<longleftrightarrow> l = l'"
| "tq_seg q l (x # xs) l' \<longleftrightarrow>
     tq_load q l = Some x \<and> tqe_prev q x = l \<and> tq_seg q (Next x) xs l'"

definition tq_list :: "('h, 'e) tq_heap \<Rightarrow> 'h \<Rightarrow> 'e list \<Rightarrow> bool" where
  "tq_list q h xs \<longleftrightarrow>
     distinct xs \<and> tq_seg q (First h) xs (tqh_last q h) \<and> tq_load q (tqh_last q h) = None"

text \<open>The places whose contents a chain depends on.\<close>

fun tq_places :: "('h, 'e) tq_loc \<Rightarrow> 'e list \<Rightarrow> ('h, 'e) tq_loc set" where
  "tq_places l [] = {}"
| "tq_places l (x # xs) = insert l (tq_places (Next x) xs)"

lemma tq_places_subset: "tq_places l xs \<subseteq> insert l (Next ` set xs)"
  by (induction xs arbitrary: l) fastforce+

lemma tq_seg_last: "tq_seg q l xs l' \<Longrightarrow> l' = (if xs = [] then l else Next (last xs))"
  by (induction xs arbitrary: l) auto

lemma tq_places_last_gen:
  "distinct xs \<Longrightarrow> xs \<noteq> [] \<Longrightarrow> l \<noteq> Next (last xs) \<Longrightarrow> Next (last xs) \<notin> tq_places l xs"
proof (induction xs arbitrary: l)
  case (Cons a xs)
  then have "xs \<noteq> [] \<Longrightarrow> Next a \<noteq> Next (last xs)" using last_in_set [of xs] by auto
  with Cons show ?case by (cases "xs = []") auto
qed simp

lemmas tq_places_last = tq_places_last_gen [OF _ _ tq_loc.distinct(5)]

lemma tq_seg_append:
  "tq_seg q l (xs @ ys) l' \<longleftrightarrow> (\<exists>m. tq_seg q l xs m \<and> tq_seg q m ys l')"
  by (induction xs arbitrary: l) auto

lemma tq_seg_cong:
  assumes "\<forall>p \<in> tq_places l xs. tq_load q' p = tq_load q p"
    and "\<forall>x \<in> set xs. tqe_prev q' x = tqe_prev q x"
  shows "tq_seg q' l xs l' = tq_seg q l xs l'"
  using assms by (induction xs arbitrary: l) auto

lemma tq_list_place:
  assumes "tq_list q h xs"
  shows "tqh_last q h = (if xs = [] then First h else Next (last xs))"
  using assms by (auto simp: tq_list_def dest: tq_seg_last)

lemma tq_list_cong:
  assumes "tq_list q h xs" and "tqh_last q' h = tqh_last q h"
    and "tqh_first q' h = tqh_first q h"
    and "\<And>x. x \<in> set xs \<Longrightarrow> tqe_next q' x = tqe_next q x \<and> tqe_prev q' x = tqe_prev q x"
  shows "tq_list q' h xs"
proof -
  have load: "\<forall>p \<in> insert (First h) (Next ` set xs). tq_load q' p = tq_load q p"
    using assms by auto
  then have "\<forall>p \<in> tq_places (First h) xs. tq_load q' p = tq_load q p"
    using tq_places_subset [of "First h" xs] by blast
  then have "tq_seg q' (First h) xs l' = tq_seg q (First h) xs l'" for l'
    using assms(4) by (intro tq_seg_cong) auto
  moreover have "tq_load q' (tqh_last q h) = tq_load q (tqh_last q h)"
    using load tq_list_place [OF assms(1)] by auto
  ultimately show ?thesis
    using assms(1,2) by (simp add: tq_list_def)
qed

lemma tq_list_first: "tq_list q h xs \<Longrightarrow> TAILQ_FIRST h q = (case xs of [] \<Rightarrow> None | x # _ \<Rightarrow> Some x)"
  by (auto simp: tq_list_def TAILQ_FIRST_def split: list.splits)
     (metis tq_load.simps(2) tq_seg.simps(1))

lemma tq_list_init: "tq_list (TAILQ_INIT h q) h []"
  by (simp add: tq_list_def TAILQ_INIT_def)

lemma tq_list_init_frame: "h' \<noteq> h \<Longrightarrow> tq_list q h' xs \<Longrightarrow> tq_list (TAILQ_INIT h q) h' xs"
  by (erule tq_list_cong) (auto simp: TAILQ_INIT_def)
lemma last_disjoint: "xs \<noteq> [] \<Longrightarrow> set xs \<inter> set ys = {} \<Longrightarrow> last xs \<notin> set ys"
  using last_in_set by fastforce

lemma tq_list_insert_tail:
  assumes "tq_list q h xs" and "x \<notin> set xs"
  shows "\<exists>q'. TAILQ_INSERT_TAIL h x q = Some q' \<and> tq_list q' h (xs @ [x]) \<and>
           (\<forall>h' ys. h' \<noteq> h \<longrightarrow> tq_list q h' ys \<longrightarrow> x \<notin> set ys \<longrightarrow> set xs \<inter> set ys = {} \<longrightarrow>
              tq_list q' h' ys)"
proof -
  define l where "l = tqh_last q h"
  have l: "l = (if xs = [] then First h else Next (last xs))"
    using tq_list_place [OF assms(1)] by (simp add: l_def)
  obtain q' where q': "TAILQ_INSERT_TAIL h x q = Some q'"
    using l by (cases "xs = []") (auto simp: TAILQ_INSERT_TAIL_def l_def)
  have load: "tq_load q' p = (if p = l then Some x else if p = Next x then None else tq_load q p)"
    if "p \<noteq> Nowhere" for p
    using q' l that assms(2)
    by (cases p; cases "xs = []") (auto simp: TAILQ_INSERT_TAIL_def l_def Let_def)
  have prev: "tqe_prev q' = (tqe_prev q)(x := l)" and last: "tqh_last q' = (tqh_last q)(h := Next x)"
    using q' l by (cases "xs = []"; auto simp: TAILQ_INSERT_TAIL_def l_def Let_def)+
  have lx: "l \<noteq> Next x" using l assms(2) by auto
  have "tq_seg q' (First h) xs l"
  proof -
    have "l \<notin> tq_places (First h) xs"
      using assms(1) l tq_places_last [of xs h] by (cases "xs = []") (auto simp: tq_list_def)
    moreover have "p \<noteq> Nowhere \<and> p \<noteq> Next x" if "p \<in> tq_places (First h) xs" for p
      using that tq_places_subset [of "First h" xs] assms(2) by auto
    ultimately have "\<forall>p \<in> tq_places (First h) xs. tq_load q' p = tq_load q p"
      using load by auto
    then show ?thesis
      using assms prev tq_seg_cong [of "First h" xs q' q] by (auto simp: tq_list_def l_def)
  qed
  then have 1: "tq_list q' h (xs @ [x])"
    using assms lx prev last l load [of l] load [of "Next x"]
    by (auto simp: tq_list_def tq_seg_append)
  have 2: "tq_list q' h' ys"
    if "h' \<noteq> h" "tq_list q h' ys" "x \<notin> set ys" "set xs \<inter> set ys = {}" for h' ys
  proof (rule tq_list_cong [OF that(2)])
    show "tqh_first q' h' = tqh_first q h'"
      using load [of "First h'"] that l by (auto split: if_splits)
    show "tqe_next q' y = tqe_next q y \<and> tqe_prev q' y = tqe_prev q y" if y: "y \<in> set ys" for y
    proof -
      have "Next y \<noteq> l" "y \<noteq> x" using y l last_disjoint [OF _ \<open>set xs \<inter> set ys = {}\<close>]
          \<open>x \<notin> set ys\<close> by (auto split: if_splits)
      then show ?thesis using load [of "Next y"] prev by simp
    qed
  qed (use last that in auto)
  from q' 1 2 show ?thesis by blast
qed

lemma tq_seg_places: "tq_seg q l (xs @ x # ys) l' \<Longrightarrow>
    tqe_prev q x = (if xs = [] then l else Next (last xs)) \<and>
    tqe_next q x = (case ys of [] \<Rightarrow> tq_load q l' | y # _ \<Rightarrow> Some y)"
proof (induction xs arbitrary: l)
  case Nil
  then show ?case by (cases ys) auto
next
  case (Cons z xs)
  then show ?case using Cons.IH [of "Next z"] by (cases xs) auto
qed

lemma tq_places_not:
  assumes "Next z \<noteq> l" and "z \<notin> set (butlast xs)"
  shows "Next z \<notin> tq_places l xs"
  using assms by (induction xs arbitrary: l) (auto split: if_splits)

lemma First_not_place: "l \<noteq> First h \<Longrightarrow> First h \<notin> tq_places l xs"
  by (induction xs arbitrary: l) auto

lemma Nowhere_not_place: "l \<noteq> Nowhere \<Longrightarrow> Nowhere \<notin> tq_places l xs"
  by (induction xs arbitrary: l) auto

text \<open>Taking one element out of a chain leaves the chain of the others.\<close>

lemma remove_chain:
  assumes dist: "distinct (xs @ x # ys)"
    and seg: "tq_seg q (First h) xs l" "tq_seg q (Next x) ys (tqh_last q h)"
    and load: "\<And>p. p \<noteq> Nowhere \<Longrightarrow> tq_load q' p = (if p = l then n else tq_load q p)"
    and prev: "tqe_prev q' = (case ys of [] \<Rightarrow> tqe_prev q | y # _ \<Rightarrow> (tqe_prev q)(y := l))"
    and last: "tqh_last q' = (case ys of [] \<Rightarrow> (tqh_last q)(h := l) | y # _ \<Rightarrow> tqh_last q)"
    and none: "tq_load q (tqh_last q h) = None"
    and n: "n = (case ys of [] \<Rightarrow> None | y # _ \<Rightarrow> Some y)"
  shows "tq_list q' h (xs @ ys)"
proof -
  have l: "l = (if xs = [] then First h else Next (last xs))" using tq_seg_last [OF seg(1)] .
  have lp: "l \<notin> tq_places (First h) xs"
    using l dist tq_places_last [of xs h] by (cases "xs = []") auto
  have xs: "tq_seg q' (First h) xs l"
  proof -
    have "\<forall>p \<in> tq_places (First h) xs. tq_load q' p = tq_load q p"
      using lp Nowhere_not_place [of "First h" xs] by (intro ballI, subst load) auto
    moreover have "\<forall>z \<in> set xs. tqe_prev q' z = tqe_prev q z"
      using prev dist by (auto split: list.splits)
    ultimately show ?thesis using seg(1) tq_seg_cong by blast
  qed
  show ?thesis
  proof (cases ys)
    case Nil
    then show ?thesis using xs dist last load [of l] n l by (auto simp: tq_list_def)
  next
    case (Cons y zs)
    have lz: "l \<notin> tq_places (Next y) zs"
      using l dist Cons tq_places_not [of "List.last xs" "Next y" zs] First_not_place [of "Next y" h zs]
        last_disjoint [of xs "y # zs"] by (cases "xs = []") (auto dest: in_set_butlastD)
    have "\<forall>p \<in> tq_places (Next y) zs. tq_load q' p = tq_load q p"
      using lz Nowhere_not_place [of "Next y" zs] by (intro ballI, subst load) auto
    moreover have "\<forall>z \<in> set zs. tqe_prev q' z = tqe_prev q z"
      using prev dist Cons by auto
    ultimately have "tq_seg q' (Next y) zs (tqh_last q h)"
      using seg(2) Cons tq_seg_cong by fastforce
    moreover have "tqh_last q h = Next (List.last ys)" using tq_seg_last [OF seg(2)] Cons by simp
    then have "tqh_last q h \<noteq> l" "tqh_last q h \<noteq> Nowhere"
      using l dist Cons last_disjoint [of ys xs] last_in_set [of xs]
      by (auto simp: Int_commute split: if_splits)
    ultimately show ?thesis
      using xs dist last prev load [of l] load [of "tqh_last q h"] n none Cons l
      by (auto simp: tq_list_def tq_seg_append)
  qed
qed

lemma tq_list_remove:
  assumes "tq_list q h (xs @ x # ys)"
  shows "\<exists>q'. TAILQ_REMOVE h x q = Some q' \<and> tq_list q' h (xs @ ys) \<and>
           (\<forall>h' zs. h' \<noteq> h \<longrightarrow> tq_list q h' zs \<longrightarrow> set (xs @ x # ys) \<inter> set zs = {} \<longrightarrow>
              tq_list q' h' zs)"
proof -
  define l where "l = (if xs = [] then First h else Next (last xs))"
  have dist: "distinct (xs @ x # ys)" and seg: "tq_seg q (First h) (xs @ x # ys) (tqh_last q h)"
    and last: "tq_load q (tqh_last q h) = None"
    using assms by (auto simp: tq_list_def)
  have prev: "tqe_prev q x = l" and nxt: "tqe_next q x = (case ys of [] \<Rightarrow> None | y # _ \<Rightarrow> Some y)"
    using tq_seg_places [OF seg] last by (auto simp: l_def split: list.splits)
  have split: "tq_seg q (First h) xs l" "tq_seg q (Next x) ys (tqh_last q h)"
    using seg prev by (auto simp: tq_seg_append dest: tq_seg_last simp: l_def)
  obtain q' where q': "TAILQ_REMOVE h x q = Some q'"
    using prev dist by (cases ys; cases "xs = []") (auto simp: TAILQ_REMOVE_def l_def nxt Let_def)
  have first: "tqh_first q' h' = tqh_first q h'" if "h' \<noteq> h" for h'
    using q' prev dist that by (cases ys; cases "xs = []") (auto simp: TAILQ_REMOVE_def l_def nxt Let_def)
  have load: "tq_load q' p = (if p = l then tqe_next q x else tq_load q p)" if "p \<noteq> Nowhere" for p
    using q' prev dist that
    by (cases ys; cases "xs = []"; cases p) (auto simp: TAILQ_REMOVE_def l_def nxt Let_def)
  have prev': "tqe_prev q' = (case ys of [] \<Rightarrow> tqe_prev q | y # _ \<Rightarrow> (tqe_prev q)(y := l))"
    and last': "tqh_last q' = (case ys of [] \<Rightarrow> (tqh_last q)(h := l) | y # _ \<Rightarrow> tqh_last q)"
    using q' prev dist
    by (cases ys; cases "xs = []"; auto simp: TAILQ_REMOVE_def l_def nxt Let_def)+
  have 1: "tq_list q' h (xs @ ys)"
    using remove_chain [OF dist split load prev' last' last] nxt l_def by simp
  have 2: "tq_list q' h' zs"
    if "h' \<noteq> h" "tq_list q h' zs" "set (xs @ x # ys) \<inter> set zs = {}" for h' zs
  proof (rule tq_list_cong [OF that(2)])
    show "tqe_next q' z = tqe_next q z \<and> tqe_prev q' z = tqe_prev q z" if "z \<in> set zs" for z
    proof -
      have "Next z \<noteq> l" "z \<notin> set ys" using that last_disjoint [of xs zs]
          \<open>set (xs @ x # ys) \<inter> set zs = {}\<close> by (auto simp: l_def split: if_splits)
      then show ?thesis using load [of "Next z"] prev' by (auto split: list.splits)
    qed
  qed (use first last' that in \<open>auto split: list.splits\<close>)
  from q' 1 2 show ?thesis by blast
qed

section \<open>The contract of a family of queues\<close>

text \<open>
  Several heads share one pool of elements, and an element is on one queue at a time. The
  contract is stated for the lists that the heads in a set \<open>H\<close> represent.
\<close>

definition fam :: "('q \<Rightarrow> 'h \<Rightarrow> 'e list \<Rightarrow> bool) \<Rightarrow> 'q \<Rightarrow> 'h set \<Rightarrow> ('h \<Rightarrow> 'e list) \<Rightarrow> bool" where
  "fam repr q H f \<longleftrightarrow>
     (\<forall>h \<in> H. repr q h (f h)) \<and>
     (\<forall>h \<in> H. \<forall>h' \<in> H. h \<noteq> h' \<longrightarrow> set (f h) \<inter> set (f h') = {})"

locale queue_family =
  fixes q_init :: "'h \<Rightarrow> 'q \<Rightarrow> 'q"
    and q_insert :: "'h \<Rightarrow> 'e \<Rightarrow> 'q \<Rightarrow> 'q option"
    and q_remove :: "'h \<Rightarrow> 'e \<Rightarrow> 'q \<Rightarrow> 'q option"
    and q_first :: "'h \<Rightarrow> 'q \<Rightarrow> 'e option"
    and repr :: "'q \<Rightarrow> 'h \<Rightarrow> 'e list \<Rightarrow> bool"
  assumes repr_distinct: "repr q h xs \<Longrightarrow> distinct xs"
    and repr_first: "repr q h xs \<Longrightarrow> q_first h q = (case xs of [] \<Rightarrow> None | x # _ \<Rightarrow> Some x)"
    and repr_init: "repr (q_init h q) h []"
    and repr_init_frame: "h' \<noteq> h \<Longrightarrow> repr q h' xs \<Longrightarrow> repr (q_init h q) h' xs"
    and repr_insert: "repr q h xs \<Longrightarrow> x \<notin> set xs \<Longrightarrow>
      \<exists>q'. q_insert h x q = Some q' \<and> repr q' h (xs @ [x]) \<and>
        (\<forall>h' ys. h' \<noteq> h \<longrightarrow> repr q h' ys \<longrightarrow> x \<notin> set ys \<longrightarrow> set xs \<inter> set ys = {} \<longrightarrow> repr q' h' ys)"
    and repr_remove: "repr q h (xs @ x # ys) \<Longrightarrow>
      \<exists>q'. q_remove h x q = Some q' \<and> repr q' h (xs @ ys) \<and>
        (\<forall>h' zs. h' \<noteq> h \<longrightarrow> repr q h' zs \<longrightarrow> set (xs @ x # ys) \<inter> set zs = {} \<longrightarrow> repr q' h' zs)"
begin

lemma fam_first:
  "fam repr q H f \<Longrightarrow> h \<in> H \<Longrightarrow> q_first h q = (case f h of [] \<Rightarrow> None | x # _ \<Rightarrow> Some x)"
  using repr_first by (auto simp: fam_def)

lemma fam_distinct: "fam repr q H f \<Longrightarrow> h \<in> H \<Longrightarrow> distinct (f h)"
  using repr_distinct by (auto simp: fam_def)

lemma fam_init: "fam repr q H f \<Longrightarrow> fam repr (q_init h q) (insert h H) (f(h := []))"
  using repr_init repr_init_frame by (auto simp: fam_def)

lemma fam_insert:
  assumes "fam repr q H f" and "h \<in> H" and "\<forall>h' \<in> H. x \<notin> set (f h')"
  shows "\<exists>q'. q_insert h x q = Some q' \<and> fam repr q' H (f(h := f h @ [x]))"
proof -
  have rep: "repr q h (f h)" "x \<notin> set (f h)" using assms by (auto simp: fam_def)
  obtain q' where q': "q_insert h x q = Some q'" "repr q' h (f h @ [x])"
    and frame: "\<And>h' ys. h' \<noteq> h \<Longrightarrow> repr q h' ys \<Longrightarrow> x \<notin> set ys \<Longrightarrow> set (f h) \<inter> set ys = {} \<Longrightarrow>
      repr q' h' ys"
    using repr_insert [OF rep] by blast
  have "repr q' h' (f h')" if "h' \<in> H" "h' \<noteq> h" for h'
    using that assms by (intro frame) (auto simp: fam_def)
  then show ?thesis using q' assms by (auto simp: fam_def)
qed

lemma fam_remove:
  assumes "fam repr q H f" and "h \<in> H" and "x \<in> set (f h)"
  shows "\<exists>q'. q_remove h x q = Some q' \<and> fam repr q' H (f(h := remove1 x (f h)))"
proof -
  obtain xs ys where xy: "f h = xs @ x # ys" "x \<notin> set xs" using split_list_first [OF assms(3)] by blast
  have rep: "repr q h (xs @ x # ys)" using assms xy by (auto simp: fam_def)
  obtain q' where q': "q_remove h x q = Some q'" "repr q' h (xs @ ys)"
    and frame: "\<And>h' zs. h' \<noteq> h \<Longrightarrow> repr q h' zs \<Longrightarrow> set (xs @ x # ys) \<inter> set zs = {} \<Longrightarrow> repr q' h' zs"
    using repr_remove [OF rep] by blast
  have disj: "set (xs @ x # ys) \<inter> set (f h') = {}" if "h' \<in> H" "h' \<noteq> h" for h'
    using assms(1,2) that unfolding fam_def xy(1) [symmetric] by blast
  have "repr q' h' (f h')" if "h' \<in> H" "h' \<noteq> h" for h'
    using that assms(1) disj [OF that] by (intro frame) (auto simp: fam_def)
  moreover have "remove1 x (f h) = xs @ ys" using xy by (simp add: remove1_append)
  ultimately show ?thesis
    using q' assms(1) disj by (auto simp: fam_def Int_commute Int_Un_distrib)
qed

end

interpretation tq: queue_family TAILQ_INIT TAILQ_INSERT_TAIL TAILQ_REMOVE TAILQ_FIRST tq_list
proof unfold_locales
  show "tq_list q h xs \<Longrightarrow> distinct xs" for q :: "('a, 'b) tq_heap" and h xs
    by (simp add: tq_list_def)
qed (rule tq_list_first tq_list_init tq_list_init_frame tq_list_insert_tail tq_list_remove;
     assumption)+

section \<open>Sequences of queue operations\<close>

datatype ('h, 'e) tq_op = Op_init 'h | Op_insert 'h 'e | Op_remove 'h 'e

fun tq_exec :: "('h, 'e) tq_op \<Rightarrow> ('h, 'e) tq_heap \<Rightarrow> ('h, 'e) tq_heap option" where
  "tq_exec (Op_init h) q = Some (TAILQ_INIT h q)"
| "tq_exec (Op_insert h e) q = TAILQ_INSERT_TAIL h e q"
| "tq_exec (Op_remove h e) q = TAILQ_REMOVE h e q"

fun tq_run :: "('h, 'e) tq_op list \<Rightarrow> ('h, 'e) tq_heap \<Rightarrow> ('h, 'e) tq_heap option" where
  "tq_run [] q = Some q"
| "tq_run (c # cs) q = do { q' \<leftarrow> tq_exec c q; tq_run cs q' }"

text \<open>The abstract machine: the initialised heads with their lists; None when a client breaks
  the rules of the header (an uninitialised head, an element inserted twice or removed from a
  queue that does not hold it).\<close>

fun tq_spec :: "('h, 'e) tq_op \<Rightarrow> 'h list \<times> ('h \<Rightarrow> 'e list) \<Rightarrow> ('h list \<times> ('h \<Rightarrow> 'e list)) option" where
  "tq_spec (Op_init h) (H, f) = Some (h # H, f(h := []))"
| "tq_spec (Op_insert h e) (H, f) =
     (if h \<in> set H \<and> list_all (\<lambda>h'. e \<notin> set (f h')) H
      then Some (H, f(h := f h @ [e])) else None)"
| "tq_spec (Op_remove h e) (H, f) =
     (if h \<in> set H \<and> e \<in> set (f h) then Some (H, f(h := remove1 e (f h))) else None)"

fun tq_spec_run ::
  "('h, 'e) tq_op list \<Rightarrow> 'h list \<times> ('h \<Rightarrow> 'e list) \<Rightarrow> ('h list \<times> ('h \<Rightarrow> 'e list)) option" where
  "tq_spec_run [] a = Some a"
| "tq_spec_run (c # cs) a = do { a' \<leftarrow> tq_spec c a; tq_spec_run cs a' }"

lemma tq_step_refines:
  assumes "fam tq_list q (set H) f" and "tq_spec c (H, f) = Some (H', f')"
  shows "\<exists>q'. tq_exec c q = Some q' \<and> fam tq_list q' (set H') f'"
  using assms tq.fam_init [of q "set H" f] tq.fam_insert [of q "set H" f] tq.fam_remove [of q "set H" f]
  by (cases c) (auto simp: list_all_iff split: if_splits)

lemma tq_run_simulates:
  assumes "fam tq_list q (set H) f" and "tq_spec_run cs (H, f) = Some (H', f')"
  shows "\<exists>q'. tq_run cs q = Some q' \<and> fam tq_list q' (set H') f'"
  using assms
proof (induction cs arbitrary: q H f)
  case (Cons c cs)
  then obtain H1 f1 where "tq_spec c (H, f) = Some (H1, f1)" "tq_spec_run cs (H1, f1) = Some (H', f')"
    by (auto simp: bind_Some_iff)
  with Cons tq_step_refines [of q H f c H1 f1] show ?case by auto
qed simp

text \<open>
  C22. The tail queue macros, run on any heap contents, implement a family of FIFO queues: every
  sequence of initialisations, insertions and removals that a correct client may issue runs
  without a store through a NULL pointer, and afterwards each initialised head links exactly
  the abstract list, in order and in both directions, with \<^verbatim>\<open>TAILQ_FIRST\<close> its first element.
\<close>

theorem tq_run_refines:
  assumes "tq_spec_run cs ([], f) = Some (H', f')"
  shows "\<exists>q'. tq_run cs q = Some q' \<and>
           (\<forall>h \<in> set H'. tq_list q' h (f' h) \<and>
              TAILQ_FIRST h q' = (case f' h of [] \<Rightarrow> None | x # _ \<Rightarrow> Some x)) \<and>
           (\<forall>h \<in> set H'. \<forall>h' \<in> set H'. h \<noteq> h' \<longrightarrow> set (f' h) \<inter> set (f' h') = {})"
proof -
  have "fam tq_list q (set []) f" by (simp add: fam_def)
  from tq_run_simulates [OF this assms] obtain q' where
    "tq_run cs q = Some q'" "fam tq_list q' (set H') f'" by blast
  then show ?thesis using tq.fam_first [of q' "set H'" f'] unfolding fam_def by blast
qed

theorem tq_run_refines_witness:
  "\<exists>q'. tq_run [Op_init True, Op_init False, Op_insert True 1, Op_insert True 2,
       Op_remove True (1 :: nat), Op_insert False 1]
       \<lparr>tqh_first = \<lambda>_. None, tqh_last = \<lambda>_. Nowhere, tqe_next = \<lambda>_. None, tqe_prev = \<lambda>_. Nowhere\<rparr> = Some q' \<and>
     TAILQ_FIRST True q' = Some 2 \<and> TAILQ_FIRST False q' = Some 1"
proof -
  let ?q = "\<lparr>tqh_first = \<lambda>_. None, tqh_last = \<lambda>_. Nowhere, tqe_next = \<lambda>_. None,
    tqe_prev = \<lambda>_. Nowhere\<rparr> :: (bool, nat) tq_heap"
  have "tq_spec_run [Op_init True, Op_init False, Op_insert True 1, Op_insert True 2,
      Op_remove True (1 :: nat), Op_insert False 1] ([], \<lambda>_. []) =
    Some ([False, True], (\<lambda>_. [])(True := [], False := [], True := [1], True := [1, 2],
      True := [2], False := [1]))"
    by simp
  from tq_run_refines [OF this, of ?q] show ?thesis by auto
qed

end
