(* ===== verification/Kheap.thy ===== *)
theory Kheap
  imports Kutil Kqueue
begin

unbundle bit_operations_syntax

text \<open>
  The user space allocator, the second half of \<^verbatim>\<open>os/kmalloc.c\<close>: a first-fit allocator over
  an address-ordered singly linked list of free blocks, and the packing of argument vectors.
  Addresses and sizes are 16-bit words, so the arithmetic wraps as it does on the target. The
  block headers are a map from addresses to their two fields, the bytes a map from addresses. The
  headers are thus kept apart from the bytes and from each other: that a write to a block changes a
  header that overlaps it, once a remainder has been misplaced, is not represented.
\<close>

section \<open>State\<close>

record user_heap =
  ub_next :: "u16 \<Rightarrow> u16"
  ub_size :: "u16 \<Rightarrow> u16"
  free_blocks :: u16
  user_ram :: "u16 \<Rightarrow> char"

text \<open>\<^verbatim>\<open>sizeof(struct kmalloc_user_block)\<close>: a pointer and a \<^verbatim>\<open>size_t\<close>.\<close>

abbreviation (input) sizeof_kmalloc_user_block :: u16 where
  "sizeof_kmalloc_user_block \<equiv> 4"

abbreviation (input) KMALLOC_MIN_BLOCK_SIZE :: u16 where "KMALLOC_MIN_BLOCK_SIZE \<equiv> 32"

section \<open>List macros on block headers\<close>

definition SLIST_INSERT_AFTER :: "u16 \<Rightarrow> u16 \<Rightarrow> user_heap \<Rightarrow> user_heap" where
  "SLIST_INSERT_AFTER listelm elm h =
     (let h1 = h\<lparr>ub_next := (ub_next h)(elm := ub_next h listelm)\<rparr> in
      h1\<lparr>ub_next := (ub_next h1)(listelm := elm)\<rparr>)"

definition SLIST_INSERT_HEAD :: "u16 \<Rightarrow> user_heap \<Rightarrow> user_heap" where
  "SLIST_INSERT_HEAD elm h =
     (let h1 = h\<lparr>ub_next := (ub_next h)(elm := free_blocks h)\<rparr> in h1\<lparr>free_blocks := elm\<rparr>)"

definition SLIST_REMOVE_HEAD :: "user_heap \<Rightarrow> user_heap" where
  "SLIST_REMOVE_HEAD h = h\<lparr>free_blocks := ub_next h (free_blocks h)\<rparr>"

definition SLIST_REMOVE_AFTER :: "u16 \<Rightarrow> u16 \<Rightarrow> user_heap \<Rightarrow> user_heap" where
  "SLIST_REMOVE_AFTER prevelm elm h =
     (if prevelm \<noteq> 0 then h\<lparr>ub_next := (ub_next h)(prevelm := ub_next h elm)\<rparr>
      else SLIST_REMOVE_HEAD h)"

section \<open>Operations\<close>

text \<open>The user space part of \<^verbatim>\<open>kmalloc_init\<close>.\<close>

definition kmalloc_init_user :: "u16 \<Rightarrow> u16 \<Rightarrow> user_heap \<Rightarrow> user_heap" where
  "kmalloc_init_user user_space_ram_start user_space_ram_end h =
     (let block = user_space_ram_start;
          h1 = h\<lparr>ub_size := (ub_size h)(block :=
                 user_space_ram_end - user_space_ram_start - sizeof_kmalloc_user_block)\<rparr>;
          h2 = h1\<lparr>free_blocks := 0\<rparr> in
      SLIST_INSERT_HEAD block h2)"

text \<open>
  The body of the search loop once a block is found. The cast in the source applies to
  \<^verbatim>\<open>(char *)(block + 1)\<close> before \<open>sz\<close> is added, so the pointer advances by \<open>sz\<close> headers
  of four bytes; the subtraction of the split test is unsigned.
\<close>

definition user_take :: "u16 \<Rightarrow> u16 \<Rightarrow> u16 \<Rightarrow> user_heap \<Rightarrow> u16 \<times> user_heap" where
  "user_take sz prev block h =
     (let h1 =
        (if sz - ub_size h block \<ge> KMALLOC_MIN_BLOCK_SIZE then
           (let block2 = (block + sizeof_kmalloc_user_block) + sz * sizeof_kmalloc_user_block;
                h2 = h\<lparr>ub_size := (ub_size h)(block2 :=
                       ub_size h block - sz - sizeof_kmalloc_user_block)\<rparr>;
                h3 = SLIST_INSERT_AFTER block block2 h2 in
            h3\<lparr>ub_size := (ub_size h3)(block := sz)\<rparr>)
         else h) in
      (block + sizeof_kmalloc_user_block, SLIST_REMOVE_AFTER prev block h1))"

partial_function (option) user_alloc_loop ::
  "u16 \<Rightarrow> u16 \<Rightarrow> u16 \<Rightarrow> user_heap \<Rightarrow> (u16 \<times> user_heap) option" where [code]:
  "user_alloc_loop sz prev block h =
     (if block = 0 then Some (0, h)
      else if ub_size h block \<ge> sz then Some (user_take sz prev block h)
      else user_alloc_loop sz block (ub_next h block) h)"

definition kmalloc_user_alloc :: "u16 \<Rightarrow> user_heap \<Rightarrow> (u16 \<times> user_heap) option" where
  "kmalloc_user_alloc sz h =
     (let sz = (sz + 3) AND NOT 3 in user_alloc_loop sz 0 (free_blocks h) h)"

text \<open>The search loop of \<^verbatim>\<open>kmalloc_user_free\<close>: the previous block at the break, and the heap.\<close>

partial_function (option) user_free_loop ::
  "u16 \<Rightarrow> u16 \<Rightarrow> u16 \<Rightarrow> user_heap \<Rightarrow> (u16 \<times> user_heap) option" where [code]:
  "user_free_loop block prev current h =
     (if current = 0 then Some (prev, h)
      else if current > block then
        (let temp = (block + sizeof_kmalloc_user_block) + ub_size h block in
         if temp = current then
           (let h1 = SLIST_REMOVE_AFTER prev current h;
                h2 = h1\<lparr>ub_size := (ub_size h1)(block := ub_size h1 block + sizeof_kmalloc_user_block)\<rparr>;
                h3 = h2\<lparr>ub_size := (ub_size h2)(block := ub_size h2 block + ub_size h2 current)\<rparr> in
            Some (prev, h3))
         else Some (prev, h))
      else user_free_loop block current (ub_next h current) h)"

definition user_insert :: "u16 \<Rightarrow> u16 \<Rightarrow> user_heap \<Rightarrow> user_heap" where
  "user_insert block prev h =
     (if prev \<noteq> 0 then
        (let temp = (prev + sizeof_kmalloc_user_block) + ub_size h prev in
         if temp = block then
           (let h1 = h\<lparr>ub_size := (ub_size h)(prev := ub_size h prev + sizeof_kmalloc_user_block)\<rparr> in
            h1\<lparr>ub_size := (ub_size h1)(prev := ub_size h1 prev + ub_size h1 block)\<rparr>)
         else SLIST_INSERT_AFTER prev block h)
      else SLIST_INSERT_HEAD block h)"

definition kmalloc_user_free :: "u16 \<Rightarrow> user_heap \<Rightarrow> user_heap option" where
  "kmalloc_user_free ptr h =
     (if ptr = 0 then Some h
      else let block = ptr - sizeof_kmalloc_user_block in
        do { (prev, h1) \<leftarrow> user_free_loop block 0 (free_blocks h) h;
             Some (user_insert block prev h1) })"

text \<open>
  \<^verbatim>\<open>kmalloc_copy_argv\<close>. The argument vector is the list of what \<^verbatim>\<open>argv[0], argv[1], ...\<close> point
  to, None for NULL; reading an entry past the list is undefined.
\<close>

fun store_bytes :: "u16 \<Rightarrow> char list \<Rightarrow> user_heap \<Rightarrow> user_heap" where
  "store_bytes p [] h = h"
| "store_bytes p (c # cs) h = store_bytes (p + 1) cs (h\<lparr>user_ram := (user_ram h)(p := c)\<rparr>)"

fun argv_size :: "char list option list \<Rightarrow> nat \<Rightarrow> u16 \<Rightarrow> u16 option" where
  "argv_size argv 0 sz = Some sz"
| "argv_size argv (Suc n) sz =
     (case argv of [] \<Rightarrow> None
      | arg # rest \<Rightarrow>
          let sz1 = (case arg of None \<Rightarrow> sz
                       | Some s \<Rightarrow> sz + of_nat (strlen_constrained (Some s) CONFIG_ARG_MAX)) in
          argv_size rest n (sz1 + 1))"

fun argv_pack :: "char list option list \<Rightarrow> nat \<Rightarrow> u16 \<Rightarrow> user_heap \<Rightarrow> user_heap option" where
  "argv_pack argv 0 buf h = Some h"
| "argv_pack argv (Suc n) buf h =
     (case argv of [] \<Rightarrow> None
      | Some arg # rest \<Rightarrow>
          let sz = strlen_constrained (Some arg) CONFIG_ARG_MAX;
              h1 = store_bytes buf (take sz arg) h;
              buf1 = buf + of_nat sz;
              h2 = store_bytes buf1 [NUL] h1 in
          argv_pack rest n (buf1 + 1) h2
      | None # rest \<Rightarrow> argv_pack rest n (buf + 1) (store_bytes buf [NUL] h))"

definition kmalloc_copy_argv ::
  "int \<Rightarrow> char list option list \<Rightarrow> user_heap \<Rightarrow> (u16 \<times> user_heap) option" where
  "kmalloc_copy_argv argc argv h =
     (let argc = (if argc > int CONFIG_ARGC_MAX then int CONFIG_ARGC_MAX else argc) in
      do { sz \<leftarrow> argv_size argv (nat argc) (of_int ((argc + 1) * 2));
           (buf, h1) \<leftarrow> kmalloc_user_alloc sz h;
           if buf = 0 then Some (0, h1)
           else do {
             h2 \<leftarrow> argv_pack argv (nat argc) (buf + of_int ((argc + 1) * 2)) h1;
             Some (buf, store_bytes (buf + of_int (argc * 2)) [NUL, NUL] h2) } })"

section \<open>The free list\<close>

fun ub_chain :: "(u16 \<Rightarrow> u16) \<Rightarrow> u16 \<Rightarrow> u16 list \<Rightarrow> bool" where
  "ub_chain nxt p [] \<longleftrightarrow> p = 0"
| "ub_chain nxt p (x # xs) \<longleftrightarrow> p = x \<and> x \<noteq> 0 \<and> ub_chain nxt (nxt x) xs"

abbreviation free_list :: "user_heap \<Rightarrow> u16 list \<Rightarrow> bool" where
  "free_list h xs \<equiv> ub_chain (ub_next h) (free_blocks h) xs"

lemma ub_chain_fun: "ub_chain nxt p xs \<Longrightarrow> ub_chain nxt p ys \<Longrightarrow> xs = ys"
  by (induction xs arbitrary: p ys) (case_tac ys; auto)+

lemma ub_chain_suffix: "ub_chain nxt p (xs @ y # ys) \<Longrightarrow> ub_chain nxt y (y # ys)"
  by (induction xs arbitrary: p) auto

lemma ub_chain_distinct: "ub_chain nxt p xs \<Longrightarrow> distinct xs"
proof (rule ccontr)
  assume c: "ub_chain nxt p xs" and "\<not> distinct xs"
  then obtain as x bs cs where xs: "xs = as @ [x] @ bs @ [x] @ cs"
    using not_distinct_decomp by blast
  have "ub_chain nxt x (x # bs @ x # cs)" using ub_chain_suffix c xs by simp
  moreover have "ub_chain nxt x (x # cs)" using ub_chain_suffix [of nxt p "as @ x # bs" x cs] c xs by simp
  ultimately have "x # bs @ x # cs = x # cs" by (rule ub_chain_fun)
  then have "length (bs @ x # cs) = length cs" by simp
  then show False by simp
qed

lemma ub_chain_nonzero: "ub_chain nxt p xs \<Longrightarrow> 0 \<notin> set xs"
  by (induction xs arbitrary: p) auto

lemma ub_chain_upd: "x \<notin> set xs \<Longrightarrow> ub_chain (nxt(x := v)) p xs = ub_chain nxt p xs"
  by (induction xs arbitrary: p) auto

lemma ub_chain_redirect:
  assumes "ub_chain nxt p (ls @ rs)" and "ls \<noteq> []" and "ub_chain nxt q ns" and "last ls \<notin> set ns"
    and "distinct ls"
  shows "ub_chain (nxt(last ls := q)) p (ls @ ns)"
  using assms
proof (induction ls arbitrary: p)
  case (Cons x ls)
  show ?case
  proof (cases "ls = []")
    case True
    then have "x \<notin> set ns" using Cons.prems by simp
    from ub_chain_upd [OF this] have "ub_chain (nxt(x := q)) q ns" using Cons.prems by blast
    moreover have "last (x # ls) = x" using True by simp
    ultimately show ?thesis
      unfolding \<open>last (x # ls) = x\<close> using True Cons.prems(1) by (simp del: fun_upd_apply add: fun_upd_same)
  next
    case False
    then have "x \<noteq> last ls" using Cons.prems(5) last_in_set by fastforce
    with Cons False show ?thesis by auto
  qed
qed simp

lemma free_list_remove:
  assumes "free_list h (ls @ r # rs)"
  shows "free_list (SLIST_REMOVE_AFTER (if ls = [] then 0 else last ls) r h) (ls @ rs)"
proof (cases "ls = []")
  case True
  then show ?thesis using assms by (auto simp: SLIST_REMOVE_AFTER_def SLIST_REMOVE_HEAD_def)
next
  case False
  have d: "distinct (ls @ r # rs)" "0 \<notin> set ls" using ub_chain_distinct [OF assms]
    ub_chain_nonzero [OF assms] by auto
  have nz: "last ls \<noteq> 0" using d last_in_set [OF False] by metis
  have "last ls \<notin> set rs" using d last_disjoint [OF False, of rs] by auto
  moreover have "ub_chain (ub_next h) (ub_next h r) rs" using ub_chain_suffix [OF assms] by simp
  ultimately show ?thesis
    using ub_chain_redirect [OF assms False] d False nz by (auto simp: SLIST_REMOVE_AFTER_def)
qed

lemma free_list_insert:
  assumes "free_list h (ls @ rs)" and "b \<noteq> 0" and "b \<notin> set (ls @ rs)"
  shows "free_list (if ls = [] then SLIST_INSERT_HEAD b h else SLIST_INSERT_AFTER (last ls) b h) (ls @ b # rs)"
proof (cases "ls = []")
  case True
  then show ?thesis using assms by (auto simp: SLIST_INSERT_HEAD_def ub_chain_upd)
next
  case False
  define nxt where "nxt = (ub_next h)(b := ub_next h (last ls))"
  have d: "distinct (ls @ rs)" using ub_chain_distinct [OF assms(1)] .
  have c: "ub_chain nxt (free_blocks h) (ls @ rs)"
    using assms by (simp add: nxt_def ub_chain_upd)
  obtain ls' x where ls: "ls = ls' @ [x]" using False by (metis rev_exhaust)
  have "ub_chain (ub_next h) x (x # rs)"
    using ub_chain_suffix [of "ub_next h" "free_blocks h" ls' x rs] assms(1) ls by simp
  then have "ub_chain nxt b (b # rs)" using assms ls by (auto simp: nxt_def ub_chain_upd)
  then have "ub_chain (nxt(last ls := b)) (free_blocks h) (ls @ b # rs)"
    using d assms ls by (intro ub_chain_redirect [OF c]) auto
  then show ?thesis using False by (simp add: SLIST_INSERT_AFTER_def nxt_def Let_def)
qed

section \<open>Allocation\<close>

lemma user_alloc_loop_find:
  assumes "ub_chain (ub_next h) block xs"
  shows "user_alloc_loop sz prev block h =
    (case find (\<lambda>b. sz \<le> ub_size h b) xs of None \<Rightarrow> Some (0, h)
     | Some b \<Rightarrow> Some (user_take sz
         (last (prev # takeWhile (\<lambda>b. \<not> sz \<le> ub_size h b) xs)) b h))"
  using assms
proof (induction xs arbitrary: block prev)
  case Nil
  then show ?case by (simp add: user_alloc_loop.simps)
next
  case (Cons a xs)
  then show ?case
    using Cons.IH [of "ub_next h a" a] user_alloc_loop.simps [of sz prev block h]
    by (cases "sz \<le> ub_size h a") (auto split: option.split)
qed

text \<open>The split is taken for every block that is strictly larger, up to the wrap-around.\<close>

lemma split_test:
  assumes "sz \<le> b" and "unat b \<le> unat sz + 65504"
  shows "KMALLOC_MIN_BLOCK_SIZE \<le> sz - b \<longleftrightarrow> sz \<noteq> (b :: u16)"
proof (cases "sz = b")
  case False
  then have "unat sz < unat b"
    using assms(1) by (metis order.not_eq_order_implies_strict word_less_nat_alt)
  then have "unat (sz - b) = unat sz + 65536 - unat b" by (simp add: unat_sub_if')
  then show ?thesis using assms(2) False by (simp add: word_le_nat_alt)
qed simp

lemma user_take_spec:
  assumes fl: "free_list h (ls @ b # rs)" and sz: "sz \<le> ub_size h b" "unat (ub_size h b) \<le> unat sz + 65504"
    and rem: "b + 4 + sz * 4 \<notin> insert 0 (set (ls @ b # rs))"
  shows "\<exists>h'. user_take sz (if ls = [] then 0 else last ls) b h = (b + 4, h') \<and> ub_size h' b = sz \<and>
    (if sz = ub_size h b then free_list h' (ls @ rs) \<and> ub_size h' = ub_size h
     else free_list h' (ls @ (b + 4 + sz * 4) # rs) \<and>
       ub_size h' = (ub_size h)(b + 4 + sz * 4 := ub_size h b - sz - 4, b := sz)) \<and>
    user_ram h' = user_ram h"
proof (cases "sz = ub_size h b")
  case True
  have "user_take sz (if ls = [] then 0 else last ls) b h =
      (b + 4, SLIST_REMOVE_AFTER (if ls = [] then 0 else last ls) b h)"
    using split_test [OF sz] True by (simp add: user_take_def)
  then show ?thesis
    using True free_list_remove [OF fl]
    by (auto simp: SLIST_REMOVE_AFTER_def SLIST_REMOVE_HEAD_def)
next
  case False
  let ?b2 = "b + 4 + sz * 4"
  define h1 where "h1 = h\<lparr>ub_size := (ub_size h)(?b2 := ub_size h b - sz - 4)\<rparr>"
  define h2 where "h2 = (SLIST_INSERT_AFTER b ?b2 h1)\<lparr>ub_size := (ub_size h1)(b := sz)\<rparr>"
  have "free_list h1 ((ls @ [b]) @ rs)" using fl by (simp add: h1_def)
  from free_list_insert [OF this, of ?b2] have "free_list h2 (ls @ b # ?b2 # rs)"
    using rem by (auto simp: h2_def)
  from free_list_remove [OF this]
  have "free_list (SLIST_REMOVE_AFTER (if ls = [] then 0 else last ls) b h2) (ls @ ?b2 # rs)" .
  moreover have "user_take sz (if ls = [] then 0 else last ls) b h =
      (b + 4, SLIST_REMOVE_AFTER (if ls = [] then 0 else last ls) b h2)"
    using split_test [OF sz] False
    by (simp add: user_take_def h1_def h2_def SLIST_INSERT_AFTER_def Let_def)
  ultimately show ?thesis
    using False by (auto simp: SLIST_REMOVE_AFTER_def SLIST_REMOVE_HEAD_def h2_def h1_def SLIST_INSERT_AFTER_def)
qed



definition test_heap :: user_heap where
  "test_heap = kmalloc_init_user 0x1000 0x2000
     \<lparr>ub_next = \<lambda>_. 0, ub_size = \<lambda>_. 0, free_blocks = 0, user_ram = \<lambda>_. NUL\<rparr>"

lemma test_heap_simps:
  "free_blocks test_heap = 0x1000" "ub_next test_heap 0x1000 = 0" "ub_size test_heap 0x1000 = 0xFFC"
  by (simp_all add: test_heap_def kmalloc_init_user_def SLIST_INSERT_HEAD_def)


text \<open>
  C31. Where the remainder of a split goes: after \<^verbatim>\<open>kmalloc_init\<close> on a RAM area from \<open>s\<close> to \<open>e\<close>, the
  first allocation of a rounded size \<open>sz\<close> leaves one free block at \<open>s + 4 + 4 * sz\<close>, not at
  \<open>s + 4 + sz\<close>, with the size the remainder should have. The free block therefore ends
  \<open>3 * sz\<close> bytes past the end of RAM, and a further \<open>3 * sz\<close> bytes after the allocation are lost.
\<close>

theorem kmalloc_user_alloc_remainder_overruns:
  assumes "32 \<le> unat s" and "sz = (n + 3) AND NOT 3" and "sz \<noteq> 0"
    and "unat s + 8 + unat sz * 4 < unat e"
  shows "\<exists>h' b. kmalloc_user_alloc n (kmalloc_init_user s e h) = Some (s + 4, h') \<and>
           free_list h' [b] \<and> unat b = unat s + 4 + 4 * unat sz \<and>
           unat b + 4 + unat (ub_size h' b) = unat e + 3 * unat sz"
proof -
  define h0 where "h0 = kmalloc_init_user s e h"
  have h0: "free_list h0 ([] @ s # [])" "ub_size h0 s = e - s - 4"
    using assms(1) by (auto simp: h0_def kmalloc_init_user_def SLIST_INSERT_HEAD_def)
  have e: "unat e < 65536" by (rule u16_bound)
  have size0: "unat (ub_size h0 s) = unat e - unat s - 4"
    using assms(4) by (simp add: h0(2) unat_sub_if')
  have b: "unat (s + 4 + sz * 4) = unat s + 4 + 4 * unat sz"
    using assms(4) e by (simp add: unat_word_ariths)
  have le: "sz \<le> ub_size h0 s" "unat (ub_size h0 s) \<le> unat sz + 65504"
    using assms(1,4) size0 e by (auto simp: word_le_nat_alt)
  have ne: "sz \<noteq> ub_size h0 s" using size0 assms(4) by auto
  have nb: "s + 4 + sz * 4 \<noteq> s" using b by (metis add_le_same_cancel1 le_add1 add.assoc not_numeral_le_zero)
  moreover have "s + 4 + sz * 4 \<noteq> 0" using b by (metis add_is_0 unsigned_0 zero_neq_numeral)
  ultimately have "s + 4 + sz * 4 \<notin> insert 0 (set ([] @ s # []))" by simp
  from user_take_spec [OF h0(1) le this] ne obtain h' where
    h': "user_take sz 0 s h0 = (s + 4, h')" "free_list h' [s + 4 + sz * 4]"
    "ub_size h' = (ub_size h0)(s + 4 + sz * 4 := ub_size h0 s - sz - 4, s := sz)" by auto
  have "kmalloc_user_alloc n h0 = Some (s + 4, h')"
    using user_alloc_loop_find [OF h0(1), of sz 0] le h'(1) h0(1) assms(2)
    by (simp add: kmalloc_user_alloc_def)
  moreover have "unat (ub_size h' (s + 4 + sz * 4)) = unat e - unat s - 8 - unat sz"
    using nb h'(3) le size0 assms(4) by (simp add: unat_sub_if' word_le_nat_alt) arith
  ultimately show ?thesis
    using h'(2) b assms(4) by (intro exI [of _ h'] exI [of _ "s + 4 + sz * 4"]) (simp add: h0_def)
qed

theorem kmalloc_user_alloc_remainder_overruns_witness:
  "\<exists>h' b. kmalloc_user_alloc 184 test_heap = Some (0x1004, h') \<and> free_list h' [b] \<and>
     unat b + 4 + unat (ub_size h' b) = 0x2000 + 552"
proof -
  have "(184 :: u16) = (184 + 3) AND NOT 3" by simp
  from kmalloc_user_alloc_remainder_overruns [OF _ this, of "0x1000" "0x2000"] show ?thesis
    by (fastforce simp: test_heap_def)
qed

section \<open>Release\<close>

text \<open>The first address after a block, the bytes it spans, and the invariant of the free list:
  blocks in address order with a gap between any two, inside the address space.\<close>

definition blk_end :: "(u16 \<Rightarrow> u16) \<Rightarrow> u16 \<Rightarrow> nat" where
  "blk_end sz b = unat b + 4 + unat (sz b)"

definition span :: "(u16 \<Rightarrow> u16) \<Rightarrow> u16 \<Rightarrow> nat set" where
  "span sz b = {unat b ..< blk_end sz b}"

definition coalesced :: "(u16 \<Rightarrow> u16) \<Rightarrow> u16 list \<Rightarrow> bool" where
  "coalesced sz xs \<longleftrightarrow>
     sorted_wrt (\<lambda>a b. blk_end sz a < unat b) xs \<and> (\<forall>x \<in> set xs. blk_end sz x < 65536)"

lemma coalesced_append:
  "coalesced sz (ls @ rs) \<longleftrightarrow>
     coalesced sz ls \<and> coalesced sz rs \<and> (\<forall>a \<in> set ls. \<forall>b \<in> set rs. blk_end sz a < unat b)"
  by (auto simp: coalesced_def sorted_wrt_append)

lemma coalesced_Cons:
  "coalesced sz (x # rs) \<longleftrightarrow>
     blk_end sz x < 65536 \<and> (\<forall>b \<in> set rs. blk_end sz x < unat b) \<and> coalesced sz rs"
  by (auto simp: coalesced_def)

lemma blk_end_upd: "x \<notin> set xs \<Longrightarrow> y \<in> set xs \<Longrightarrow> blk_end (sz(x := v)) y = blk_end sz y"
  by (auto simp: blk_end_def)

lemma coalesced_upd: "x \<notin> set xs \<Longrightarrow> coalesced (sz(x := v)) xs = coalesced sz xs"
proof (induction xs)
  case (Cons a xs)
  then show ?case by (auto simp: coalesced_Cons blk_end_def)
qed (simp add: coalesced_def)

lemma span_upd: "x \<notin> set xs \<Longrightarrow> \<Union> (span (sz(x := v)) ` set xs) = \<Union> (span sz ` set xs)"
  by (rule SUP_cong) (auto simp: span_def blk_end_def)

text \<open>Two adjacent blocks become one: \<open>b\<close> absorbs \<open>r\<close>, which starts where \<open>b\<close> ends.\<close>

lemma absorb:
  assumes "blk_end sz b = unat r" and "blk_end sz r < 65536"
  shows "blk_end (sz(b := sz b + 4 + sz r)) b = blk_end sz r"
    and "span (sz(b := sz b + 4 + sz r)) b = span sz b \<union> span sz r"
proof -
  have "unat (sz b + 4 + sz r) = unat (sz b) + 4 + unat (sz r)"
    using assms by (auto simp: blk_end_def unat_word_ariths)
  then show e: "blk_end (sz(b := sz b + 4 + sz r)) b = blk_end sz r"
    using assms by (auto simp: blk_end_def)
  show "span (sz(b := sz b + 4 + sz r)) b = span sz b \<union> span sz r"
    unfolding span_def e using assms(1) by (auto simp: blk_end_def)
qed

lemma adjacent_iff:
  "blk_end sz a < 65536 \<Longrightarrow> a + 4 + sz a = b \<longleftrightarrow> blk_end sz a = unat b"
  by (auto simp: blk_end_def unat_word_ariths intro!: word_unat_eq_iff [THEN iffD2])

lemma user_free_loop_chain:
  assumes "ub_chain (ub_next h) cur (ls @ rs)" and "\<forall>x \<in> set ls. x < b" and "\<forall>r \<in> set rs. b < r"
  shows "user_free_loop b prev cur h = Some (last (prev # ls),
    (case rs of [] \<Rightarrow> h
     | r # _ \<Rightarrow> if b + 4 + ub_size h b = r then
         (SLIST_REMOVE_AFTER (last (prev # ls)) r h)\<lparr>ub_size :=
            (ub_size h)(b := ub_size h b + 4 + ub_size h r)\<rparr> else h))"
  using assms
proof (induction ls arbitrary: cur prev)
  case Nil
  show ?case
  proof (cases rs)
    case (Cons r rs')
    then have r: "cur = r" "r \<noteq> 0" "b < r" "r \<noteq> b" using Nil by auto
    show ?thesis
      using r Cons unfolding user_free_loop.simps [of b prev cur h]
      by (simp add: SLIST_REMOVE_AFTER_def SLIST_REMOVE_HEAD_def Let_def)
  qed (use Nil in \<open>simp add: user_free_loop.simps\<close>)
next
  case (Cons x ls)
  then have "user_free_loop b prev cur h = user_free_loop b x (ub_next h x) h"
    by (subst user_free_loop.simps) auto
  moreover have "last (prev # x # ls) = last (x # ls)" by simp
  ultimately show ?case using Cons.IH [of "ub_next h x" x] Cons.prems by (simp only:) auto
qed

text \<open>The right neighbour: after the search the list is in order with \<open>b\<close> missing and not
  touching what follows.\<close>

lemma release_right:
  assumes fl: "free_list h (ls @ rs)" and co: "coalesced (ub_size h) (ls @ rs)"
    and lt: "\<forall>x \<in> set ls. x < b" "\<forall>r \<in> set rs. b < r"
    and b: "blk_end (ub_size h) b < 65536" "\<forall>r \<in> set rs. blk_end (ub_size h) b \<le> unat r"
  shows "\<exists>h1 rs'. user_free_loop b 0 (free_blocks h) h = Some (if ls = [] then 0 else last ls, h1) \<and>
    free_list h1 (ls @ rs') \<and> set rs' \<subseteq> set rs \<and> coalesced (ub_size h1) (ls @ rs') \<and>
    blk_end (ub_size h1) b < 65536 \<and> (\<forall>r \<in> set rs'. blk_end (ub_size h1) b < unat r) \<and>
    (\<forall>x \<in> set ls. ub_size h1 x = ub_size h x) \<and>
    \<Union> (span (ub_size h1) ` set (ls @ rs')) \<union> span (ub_size h1) b =
      \<Union> (span (ub_size h) ` set (ls @ rs)) \<union> span (ub_size h) b"
proof -
  have nb: "b \<notin> set (ls @ rs)" using lt by auto
  have prev: "last (0 # ls) = (if ls = [] then 0 else last ls)" by simp
  consider (nil) "rs = []" | (apart) r rs' where "rs = r # rs'" "b + 4 + ub_size h b \<noteq> r"
    | (touch) r rs' where "rs = r # rs'" "b + 4 + ub_size h b = r" by (cases rs) auto
  then show ?thesis
  proof cases
    case nil
    then show ?thesis
      using user_free_loop_chain [OF fl lt, of 0] fl co b by (auto simp: prev)
  next
    case apart
    have "blk_end (ub_size h) b < unat r"
      using apart b adjacent_iff [of "ub_size h" b r] by (auto simp: le_less)
    moreover have "blk_end (ub_size h) b < unat x" if "x \<in> set rs'" for x
      using that co apart calculation
      by (auto simp: coalesced_append coalesced_Cons blk_end_def dest!: bspec)
    ultimately show ?thesis
      using user_free_loop_chain [OF fl lt, of 0] fl co b apart prev
      by (intro exI [of _ h] exI [of _ rs]) auto
  next
    case touch
    let ?h = "(SLIST_REMOVE_AFTER (if ls = [] then 0 else last ls) r h)\<lparr>ub_size :=
      (ub_size h)(b := ub_size h b + 4 + ub_size h r)\<rparr>"
    have r: "blk_end (ub_size h) b = unat r" "blk_end (ub_size h) r < 65536"
      using touch b(1) co adjacent_iff [of "ub_size h" b r] by (auto simp: coalesced_append coalesced_Cons)
    note ab = absorb [OF r]
    have "free_list ?h (ls @ rs')"
      using free_list_remove [of h ls r rs'] fl touch(1) by simp
    moreover have "coalesced (ub_size h) (ls @ rs')" "\<forall>x \<in> set rs'. blk_end (ub_size h) r < unat x"
      using co touch(1) by (auto simp: coalesced_append coalesced_Cons)
    ultimately show ?thesis
      using user_free_loop_chain [OF fl lt, of 0] nb touch prev ab r
        coalesced_upd [of b "ls @ rs'"] span_upd [of b "ls @ rs'" "ub_size h"]
      by (intro exI [of _ ?h] exI [of _ rs']) (auto simp: coalesced_upd)
  qed
qed

text \<open>The left neighbour: \<open>b\<close> is absorbed by a block that ends where it starts, or linked in.\<close>

lemma release_left:
  assumes fl: "free_list h (ls @ rs)" and co: "coalesced (ub_size h) (ls @ rs)"
    and lt: "\<forall>x \<in> set ls. blk_end (ub_size h) x \<le> unat b" "\<forall>r \<in> set rs. blk_end (ub_size h) b < unat r"
    and b: "blk_end (ub_size h) b < 65536" "b \<noteq> 0" "b \<notin> set (ls @ rs)"
    and h': "h' = user_insert b (if ls = [] then 0 else last ls) h"
  shows "\<exists>ys. free_list h' ys \<and> coalesced (ub_size h') ys \<and>
    \<Union> (span (ub_size h') ` set ys) = \<Union> (span (ub_size h) ` set (ls @ rs)) \<union> span (ub_size h) b"
proof (cases "ls \<noteq> [] \<and> last ls + 4 + ub_size h (last ls) = b")
  case True
  then obtain ls' p where ls: "ls = ls' @ [p]" by (metis rev_exhaust)
  have d: "distinct (ls @ rs)" "p \<noteq> 0" using ub_chain_distinct [OF fl] ub_chain_nonzero [OF fl] ls by auto
  have p: "blk_end (ub_size h) p = unat b"
    using True ls co adjacent_iff [of "ub_size h" p b] by (auto simp: coalesced_append coalesced_Cons)
  note ab = absorb [OF p b(1)]
  have sz: "ub_size h' = (ub_size h)(p := ub_size h p + 4 + ub_size h b)"
    and "free_list h' (ls @ rs)"
    using True d b fl ls by (auto simp: h' user_insert_def Let_def)
  moreover have "coalesced (ub_size h') (ls @ rs)"
    using co lt(2) ab(1) d b unfolding sz ls
    by (auto simp: coalesced_append coalesced_Cons coalesced_upd blk_end_upd)
  moreover have "\<Union> (span (ub_size h') ` set (ls @ rs)) =
      \<Union> (span (ub_size h) ` set (ls @ rs)) \<union> span (ub_size h) b"
    unfolding sz ls using ab(2) span_upd [of p "ls' @ rs"] d ls by auto
  ultimately show ?thesis by blast
next
  case False
  have nz: "ls \<noteq> [] \<Longrightarrow> last ls \<noteq> 0"
    using ub_chain_nonzero [OF fl] last_in_set [of ls] by (metis Un_iff set_append)
  then have h: "h' = (if ls = [] then SLIST_INSERT_HEAD b h else SLIST_INSERT_AFTER (last ls) b h)"
    using False by (auto simp: h' user_insert_def)
  have sz: "ub_size h' = ub_size h"
    unfolding h by (simp add: SLIST_INSERT_HEAD_def SLIST_INSERT_AFTER_def)
  have "blk_end (ub_size h) x < unat b" if "x \<in> set ls" for x
  proof -
    have "ls \<noteq> []" using that by auto
    then obtain ls' p where ls: "ls = ls' @ [p]" by (metis rev_exhaust)
    then have "blk_end (ub_size h) p < unat b"
      using False lt(1) co adjacent_iff [of "ub_size h" p b]
      by (auto simp: coalesced_append coalesced_Cons le_less)
    then show ?thesis
      using that ls co by (auto simp: coalesced_append coalesced_Cons blk_end_def)
  qed
  then have "coalesced (ub_size h) (ls @ b # rs)"
    using co lt(2) b(1) by (auto simp: coalesced_append coalesced_Cons)
  moreover have "free_list h' (ls @ b # rs)"
    unfolding h by (rule free_list_insert [OF fl b(2,3)])
  ultimately show ?thesis unfolding sz by (intro exI [of _ "ls @ b # rs"]) auto
qed

lemma coalesced_partition:
  assumes "coalesced sz xs" and "b \<notin> set xs"
  shows "\<exists>ls rs. xs = ls @ rs \<and> (\<forall>x \<in> set ls. x < b) \<and> (\<forall>r \<in> set rs. b < r)"
  using assms
proof (induction xs)
  case (Cons x xs)
  then obtain ls rs where lr: "xs = ls @ rs" "\<forall>x \<in> set ls. x < b" "\<forall>r \<in> set rs. b < r"
    by (auto simp: coalesced_Cons)
  show ?case
  proof (cases "x < b")
    case True
    with lr show ?thesis by (intro exI [of _ "x # ls"] exI [of _ rs]) auto
  next
    case False
    then have "b < x" using Cons.prems(2) by auto
    moreover have "\<forall>y \<in> set xs. x < y"
      using Cons.prems(1) by (auto simp: coalesced_Cons blk_end_def word_less_nat_alt)
    ultimately show ?thesis
      by (intro exI [of _ "[]"] exI [of _ "x # xs"]) (auto intro: less_trans)
  qed
qed simp

lemma disjoint_spans_order:
  assumes "span sz a \<inter> span sz b = {}" and "a < b"
  shows "blk_end sz a \<le> unat b"
proof (rule ccontr)
  assume "\<not> blk_end sz a \<le> unat b"
  then have "unat b \<in> span sz a \<inter> span sz b"
    using assms(2) by (auto simp: span_def blk_end_def word_less_nat_alt)
  with assms(1) show False by auto
qed

text \<open>
  C18. \<^verbatim>\<open>kmalloc_user_free\<close> keeps the free list address-ordered and fully coalesced: for any
  free list whose blocks are ordered with a gap between any two, releasing a block that overlaps
  none of them terminates and leaves such a list again, and the bytes on the new list are
  exactly the bytes of the old one and of the released block, headers included. In particular
  the block is merged with both neighbours when it touches them, and nothing is lost.
\<close>

theorem kmalloc_user_free_coalesces:
  assumes "free_list h xs" and "coalesced (ub_size h) xs"
    and "ptr \<noteq> 0" and "ptr - 4 \<noteq> 0" and "blk_end (ub_size h) (ptr - 4) < 65536"
    and "span (ub_size h) (ptr - 4) \<inter> \<Union> (span (ub_size h) ` set xs) = {}"
  shows "\<exists>h' ys. kmalloc_user_free ptr h = Some h' \<and> free_list h' ys \<and> coalesced (ub_size h') ys \<and>
           \<Union> (span (ub_size h') ` set ys) =
             \<Union> (span (ub_size h) ` set xs) \<union> span (ub_size h) (ptr - 4)"
proof -
  define b where "b = ptr - 4"
  have disj: "span (ub_size h) b \<inter> span (ub_size h) x = {}" if "x \<in> set xs" for x
    using assms(6) that by (auto simp: b_def)
  have "b \<notin> set xs" using disj [of b] by (auto simp: span_def blk_end_def)
  then obtain ls rs where lr: "xs = ls @ rs" "\<forall>x \<in> set ls. x < b" "\<forall>r \<in> set rs. b < r"
    using coalesced_partition [OF assms(2)] by blast
  have right: "\<forall>r \<in> set rs. blk_end (ub_size h) b \<le> unat r"
    using lr disj disjoint_spans_order by simp
  have left: "\<forall>x \<in> set ls. blk_end (ub_size h) x \<le> unat b"
    using lr disj disjoint_spans_order by (simp add: Int_commute)
  from release_right [OF assms(1,2) [unfolded lr(1)] lr(2,3) assms(5) [folded b_def] right]
  obtain h1 rs' where h1: "user_free_loop b 0 (free_blocks h) h = Some (if ls = [] then 0 else last ls, h1)"
    "free_list h1 (ls @ rs')" "set rs' \<subseteq> set rs" "coalesced (ub_size h1) (ls @ rs')"
    "blk_end (ub_size h1) b < 65536" "\<forall>r \<in> set rs'. blk_end (ub_size h1) b < unat r"
    "\<forall>x \<in> set ls. ub_size h1 x = ub_size h x"
    "\<Union> (span (ub_size h1) ` set (ls @ rs')) \<union> span (ub_size h1) b =
      \<Union> (span (ub_size h) ` set xs) \<union> span (ub_size h) b" using lr(1) by blast
  have "b \<notin> set (ls @ rs')" using \<open>b \<notin> set xs\<close> h1(3) lr(1) by auto
  moreover have "\<forall>x \<in> set ls. blk_end (ub_size h1) x \<le> unat b"
    using left h1(7) by (simp add: blk_end_def)
  ultimately show ?thesis
    using release_left [OF h1(2,4) _ h1(6,5) _ _ refl] h1(1,8) assms(3,4)
    by (auto simp: kmalloc_user_free_def b_def)
qed

theorem kmalloc_user_free_coalesces_witness:
  "\<exists>h' ys. kmalloc_user_free 0x0F04 (test_heap\<lparr>ub_size := (ub_size test_heap)(0xF00 := 252)\<rparr>) = Some h' \<and>
     free_list h' ys \<and> coalesced (ub_size h') ys \<and>
     \<Union> (span (ub_size h') ` set ys) = {0xF00 ..< 0x2000}"
proof -
  let ?h = "test_heap\<lparr>ub_size := (ub_size test_heap)(0xF00 := 252)\<rparr>"
  have "free_list ?h [0x1000]" by (simp add: test_heap_simps)
  moreover have "coalesced (ub_size ?h) [0x1000]"
    by (simp add: coalesced_def blk_end_def test_heap_simps)
  moreover have "(0x0F04 :: u16) - 4 = 0xF00" by simp
  moreover have s: "span (ub_size ?h) 0xF00 = {0xF00 ..< 0x1000}" "span (ub_size ?h) 0x1000 = {0x1000 ..< 0x2000}"
    by (simp_all add: span_def blk_end_def test_heap_simps)
  moreover have "{0x1000 ..< 0x2000} \<union> {0xF00 ..< 0x1000} = {0xF00 ..< (0x2000 :: nat)}" by auto
  ultimately show ?thesis
    using kmalloc_user_free_coalesces [of ?h "[0x1000]" "0x0F04"]
    by (simp add: blk_end_def test_heap_simps)
qed

section \<open>Argument vectors\<close>

definition arg_bytes :: "char list option \<Rightarrow> char list" where
  "arg_bytes arg = (case arg of None \<Rightarrow> [] | Some s \<Rightarrow> take CONFIG_ARG_MAX (cstr s)) @ [NUL]"

lemma take_strlen_constrained: "take (strlen_constrained (Some s) n) s = take n (cstr s)"
proof -
  have "take (length (cstr s)) s = cstr s" unfolding cstr_def by (metis takeWhile_eq_take)
  then show ?thesis
    by (metis min.commute option.case(2) strlen_constrained_eq take_take)
qed

lemma length_arg_bytes: "length (arg_bytes arg) \<le> 129"
  by (auto simp: arg_bytes_def split: option.splits)

lemma store_bytes_append:
  "store_bytes p (xs @ ys) h = store_bytes (p + of_nat (length xs)) ys (store_bytes p xs h)"
  by (induction xs arbitrary: p h) (auto simp: algebra_simps)

lemma store_bytes_fields [simp]:
  "ub_next (store_bytes p xs h) = ub_next h" "ub_size (store_bytes p xs h) = ub_size h"
  "free_blocks (store_bytes p xs h) = free_blocks h"
  by (induction xs arbitrary: p h) auto

lemma store_bytes_ram:
  assumes "length xs \<le> 65536"
  shows "user_ram (store_bytes p xs h) a =
    (if unat (a - p) < length xs then xs ! unat (a - p) else user_ram h a)"
  using assms
proof (induction xs arbitrary: p h)
  case (Cons c cs)
  show ?case
  proof (cases "a = p")
    case True
    then have "unat (a - (p + 1)) = 65535"
      by (simp add: unsigned_minus_1_eq_mask mask_eq_exp_minus_1)
    then show ?thesis using Cons True by simp
  next
    case False
    then have "a - p \<noteq> 0" by simp
    then have "unat (a - (p + 1)) = unat (a - p) - 1" "0 < unat (a - p)"
      using unat_minus_one [of "a - p"] by (simp_all add: diff_diff_eq unat_gt_0)
    then show ?thesis using Cons False by (auto simp: nth_Cons')
  qed
qed simp

lemma copy_offsets:
  assumes "k < 65536" and "m < 65536"
  shows "unat ((p :: u16) + of_nat k - (p + of_nat m)) = (if m \<le> k then k - m else k + 65536 - m)"
proof -
  have "unat (of_nat k :: u16) = k" "unat (of_nat m :: u16) = m"
    using assms by (simp_all add: unat_of_nat)
  then have "unat (of_nat k - of_nat m :: u16) = (if m \<le> k then k - m else k + 65536 - m)"
    by (simp add: unat_sub_if')
  then show ?thesis by simp
qed

lemma argv_size_eq:
  "n \<le> length argv \<Longrightarrow> argv_size argv n sz = Some (sz + of_nat (length (concat (map arg_bytes (take n argv)))))"
proof (induction argv n sz rule: argv_size.induct)
  case (2 argv n sz)
  then show ?case
    by (cases argv) (auto simp: arg_bytes_def strlen_constrained_eq algebra_simps split: option.split)
qed simp

lemma argv_pack_eq:
  "n \<le> length argv \<Longrightarrow>
   argv_pack argv n buf h = Some (store_bytes buf (concat (map arg_bytes (take n argv))) h)"
proof (induction n arbitrary: argv buf h)
  case (Suc n)
  then obtain arg rest where a: "argv = arg # rest" "n \<le> length rest" by (cases argv) auto
  have "argv_pack argv (Suc n) buf h =
      argv_pack rest n (buf + of_nat (length (arg_bytes arg))) (store_bytes buf (arg_bytes arg) h)"
  proof (cases arg)
    case (Some s)
    define t where "t = take 128 (cstr s)"
    have "strlen_constrained (Some s) 128 = length t" "take (length t) s = t"
      using take_strlen_constrained [of s 128] by (simp_all add: strlen_constrained_eq t_def)
    moreover have "arg_bytes arg = t @ [NUL]" by (simp add: arg_bytes_def Some t_def)
    ultimately show ?thesis
      using a(1) Some by (simp add: store_bytes_append Let_def add.assoc add.commute [of 1])
  qed (use a(1) in \<open>simp add: arg_bytes_def\<close>)
  then show ?case using Suc.IH [OF a(2)] a(1) by (simp add: store_bytes_append)
qed simp

text \<open>
  C32. \<^verbatim>\<open>kmalloc_copy_argv\<close> asks the allocator for exactly the bytes it fills, the pointer table and
  the strings, and lays the strings out one after the other behind the table, each cut to
  \<^verbatim>\<open>CONFIG_ARG_MAX\<close> characters and terminated, NULL arguments as empty strings; the table's
  terminator is NULL and no byte outside the block changes. The entries of the table that should
  point at the strings are never written: they keep what the memory held before the call.
\<close>

theorem kmalloc_copy_argv_layout:
  assumes "0 \<le> argc" and "argc \<le> int CONFIG_ARGC_MAX" and "nat argc \<le> length argv"
    and "bytes = concat (map arg_bytes (take (nat argc) argv))"
    and "kmalloc_user_alloc (of_nat (2 * (nat argc + 1) + length bytes)) h = Some (p, h1)" and "p \<noteq> 0"
  shows "\<exists>h'. kmalloc_copy_argv argc argv h = Some (p, h') \<and>
      (\<forall>i < length bytes. user_ram h' (p + of_nat (2 * (nat argc + 1) + i)) = bytes ! i) \<and>
      user_ram h' (p + of_nat (2 * nat argc)) = NUL \<and> user_ram h' (p + of_nat (2 * nat argc + 1)) = NUL \<and>
      (\<forall>i < 2 * nat argc. user_ram h' (p + of_nat i) = user_ram h1 (p + of_nat i)) \<and>
      (\<forall>a. 2 * (nat argc + 1) + length bytes \<le> unat (a - p) \<longrightarrow> user_ram h' a = user_ram h1 a)"
proof -
  define n where "n = nat argc"
  have n: "argc = int n" "n \<le> 64" using assms(1,2) by (auto simp: n_def)
  have "length (concat (map arg_bytes xs)) \<le> 129 * length xs" for xs
    using length_arg_bytes by (induction xs) (auto intro: add_mono)
  then have "length bytes \<le> 129 * length (take n argv)" unfolding assms(4) n_def by blast
  then have small: "length bytes \<le> 8256" using n(2) by (simp add: min_def split: if_splits)
  define h2 where "h2 = store_bytes (p + of_nat (2 * (n + 1))) bytes h1"
  define h3 where "h3 = store_bytes (p + of_nat (2 * n)) [NUL, NUL] h2"
  have off: "of_int ((argc + 1) * 2) = (of_nat (2 * (n + 1)) :: u16)"
    "of_int (argc * 2) = (of_nat (2 * n) :: u16)" by (simp_all add: n(1))
  have "n \<le> length argv" using assms(3) by (simp add: n_def)
  note sz = argv_size_eq [OF this, folded assms(4) [folded n_def], of "of_nat (2 * (n + 1))", folded of_nat_add]
    and pk = argv_pack_eq [OF this, folded assms(4) [folded n_def]]
  have "kmalloc_copy_argv argc argv h = Some (p, h3)"
    using assms(2,5,6) sz pk
    by (simp only: kmalloc_copy_argv_def Let_def off n_def [symmetric] h2_def h3_def
      bind.bind_lunit prod.case if_False not_less [symmetric] refl simp_thms)
  moreover have ram: "user_ram h3 (p + of_nat k) =
      (if 2 * n \<le> k \<and> k < 2 * (n + 1) then NUL
       else if 2 * (n + 1) \<le> k \<and> k < 2 * (n + 1) + length bytes then bytes ! (k - 2 * (n + 1))
       else user_ram h1 (p + of_nat k))" if "k < 65536" for k
    using that small n(2) copy_offsets [OF that, of "2 * n"] copy_offsets [OF that, of "2 * (n + 1)"]
    by (auto simp: h3_def h2_def store_bytes_ram nth_Cons' simp del: store_bytes.simps)
  moreover have "user_ram h3 a = user_ram h1 a" if "2 * (n + 1) + length bytes \<le> unat (a - p)" for a
    using ram [of "unat (a - p)"] u16_bound [of "a - p"] that by simp
  moreover have "\<forall>i < length bytes. user_ram h3 (p + of_nat (2 * (n + 1) + i)) = bytes ! i"
    using small n(2) by (intro allI impI, subst ram) auto
  moreover have "user_ram h3 (p + of_nat (2 * n)) = NUL" "user_ram h3 (p + of_nat (2 * n + 1)) = NUL"
    using n(2) by (subst ram; simp)+
  moreover have "\<forall>i < 2 * n. user_ram h3 (p + of_nat i) = user_ram h1 (p + of_nat i)"
    using small n(2) by (intro allI impI, subst ram) auto
  ultimately show ?thesis unfolding n_def by blast
qed

theorem kmalloc_copy_argv_layout_witness:
  "\<exists>h'. kmalloc_copy_argv 1 [Some ''/bin/sh''] test_heap = Some (0x1004, h') \<and>
     user_ram h' 0x1008 = CHR ''/'' \<and> user_ram h' 0x1006 = NUL"
proof -
  let ?bytes = "concat (map arg_bytes (take (nat 1) [Some ''/bin/sh'']))"
  have bytes: "?bytes = ''/bin/sh'' @ [NUL]" by (simp add: arg_bytes_def cstr_simps)
  obtain h1 where "kmalloc_user_alloc (of_nat (2 * (nat 1 + 1) + length ?bytes)) test_heap = Some (0x1004, h1)"
    unfolding bytes
    by (simp add: kmalloc_user_alloc_def test_heap_simps user_alloc_loop.simps user_take_def Let_def)
  from kmalloc_copy_argv_layout [OF _ _ _ refl this] show ?thesis
    unfolding bytes by (auto dest!: spec [of _ "0 :: nat"])
qed

end
