(* ===== verification/Asm6502.thy ===== *)
theory Asm6502
  imports Mosnix_Prelude
begin

text \<open>
  The arithmetic of the 6502 instructions that the hand-written assembly of the kernel and the
  shell uses: each instruction maps the operands and the carry flag to the result byte and the new
  carry. Every instruction satisfies one linear equation over the naturals, its carry equation,
  and the multi-byte routines follow by linear arithmetic.
\<close>

named_theorems carry_simps \<open>carry equations of the instructions\<close>

definition adc :: "u8 \<Rightarrow> u8 \<Rightarrow> bool \<Rightarrow> u8 \<times> bool" where
  "adc a m c = (a + m + of_bool c, 256 \<le> unat a + unat m + of_bool c)"

definition sbc :: "u8 \<Rightarrow> u8 \<Rightarrow> bool \<Rightarrow> u8 \<times> bool" where
  "sbc a m c = (a - m - of_bool (\<not> c), unat m + of_bool (\<not> c) \<le> unat a)"

definition rol :: "u8 \<Rightarrow> bool \<Rightarrow> u8 \<times> bool" where
  "rol m c = (m + m + of_bool c, 128 \<le> m)"

definition asl :: "u8 \<Rightarrow> u8 \<times> bool" where
  "asl m = rol m False"

lemma unat_of_bool_u8 [simp]: "unat (of_bool c :: u8) = of_bool c"
  by (cases c) auto

lemma u8_inc_zero: "(b :: u8) + 1 = 0 \<longleftrightarrow> unat b = 255"
  using u8_bound [of b] by (auto simp: unat_eq_0 [symmetric] unat_word_ariths(1) mod_if split: if_splits)

lemma u8_inc_unat: "(b :: u8) + 1 \<noteq> 0 \<Longrightarrow> unat (b + 1) = unat b + 1"
  using u8_bound [of b] by (auto simp: u8_inc_zero unat_word_ariths(1))

lemma adc_carry [carry_simps]:
  "adc a m c = (r, c') \<Longrightarrow> unat r + 256 * of_bool c' = unat a + unat m + of_bool c"
  using u8_bound [of a] u8_bound [of m]
  by (cases c) (auto simp: adc_def unat_plus_if' split: if_splits)

lemma sbc_carry [carry_simps]:
  "sbc a m c = (r, c') \<Longrightarrow> unat r + unat m + of_bool (\<not> c) = unat a + 256 * of_bool (\<not> c')"
  using u8_bound [of a] u8_bound [of m]
  by (cases c) (auto simp: sbc_def unat_sub_if' split: if_splits)

lemma rol_eq_adc: "rol m c = adc m m c"
  by (cases c) (auto simp: rol_def adc_def word_le_nat_alt)

lemma rol_carry [carry_simps]:
  "rol m c = (r, c') \<Longrightarrow> unat r + 256 * of_bool c' = 2 * unat m + of_bool c"
  unfolding rol_eq_adc by (drule adc_carry) simp

section \<open>Four-byte values\<close>

definition join4 :: "u8 \<Rightarrow> u8 \<Rightarrow> u8 \<Rightarrow> u8 \<Rightarrow> u32" where
  "join4 b0 b1 b2 b3 = of_nat (unat b0 + 256 * unat b1 + 65536 * unat b2 + 16777216 * unat b3)"

definition byte :: "u32 \<Rightarrow> nat \<Rightarrow> u8" where
  "byte w i = ucast (drop_bit (8 * i) w)"

lemma unat_join4:
  "unat (join4 b0 b1 b2 b3) = unat b0 + 256 * unat b1 + 65536 * unat b2 + 16777216 * unat b3"
  unfolding join4_def unat_of_nat
  by (rule mod_less) (use u8_bound [of b0] u8_bound [of b1] u8_bound [of b2] u8_bound [of b3] in simp)

lemma unat_byte: "unat (byte w i) = unat w div 256 ^ i mod 256"
proof -
  have "unat (byte w i) = take_bit 8 (unat (drop_bit (8 * i) w))"
    by (simp add: byte_def unsigned_ucast_eq)
  also have "unat (drop_bit (8 * i) w) = unat w div 2 ^ (8 * i)"
    unfolding unat_drop_bit_eq by (rule drop_bit_eq_div)
  finally show ?thesis by (simp add: take_bit_eq_mod power_mult)
qed

lemma base_256_digits:
  fixes n :: nat
  assumes "n < 4294967296"
  shows "n mod 256 + 256 * (n div 256 mod 256) + 65536 * (n div 65536 mod 256) +
    16777216 * (n div 16777216 mod 256) = n"
proof -
  define a b c where "a = n div 256" and "b = a div 256" and "c = b div 256"
  have d: "n div 65536 = b" "n div 16777216 = c"
    by (simp_all add: a_def b_def c_def flip: div_mult2_eq)
  have m: "n mod 256 + 256 * a = n" "a mod 256 + 256 * b = a" "b mod 256 + 256 * c = b"
    by (simp_all add: a_def b_def c_def)
  have "c < 256" using assms by (simp add: a_def b_def c_def less_mult_imp_div_less flip: div_mult2_eq)
  then have "c mod 256 = c" by simp
  then show ?thesis unfolding a_def [symmetric] d using m by linarith
qed

lemma join4_bytes: "join4 (byte w 0) (byte w 1) (byte w 2) (byte w 3) = w"
proof -
  have "unat w < 4294967296" using unsigned_less [of w, where 'a = nat] by simp
  note digits = base_256_digits [OF this]
  have pow: "(256 :: nat) ^ 2 = 65536" "(256 :: nat) ^ 3 = 16777216" by simp_all
  have "unat (join4 (byte w 0) (byte w 1) (byte w 2) (byte w 3)) = unat w"
    unfolding unat_join4 unat_byte by (simp only: power_0 power_one_right div_by_1 pow digits)
  then show ?thesis by (simp add: word_unat_eq_iff)
qed

lemma unat_bytes:
  "unat w = unat (byte w 0) + 256 * unat (byte w 1) + 65536 * unat (byte w 2) + 16777216 * unat (byte w 3)"
  unfolding unat_join4 [symmetric] join4_bytes ..

end
