(* ===== verification/Sdcard.thy ===== *)
theory Sdcard
  imports Asm6502
begin

text \<open>
  The SD card driver, \<^verbatim>\<open>os/drivers/sdcard\<close>: the command protocol over SPI, card detection, the
  parsing of the partition and FAT32 headers, the one-block cache, and the two helpers written
  in assembly. The card is whatever it is: the bytes it sends are an arbitrary stream \<open>spi_rx\<close>,
  read at the position \<open>spi_pos\<close>, and so are the values of the system clock.
\<close>

section \<open>State\<close>

record sdcard =
  sdi_detect :: u8
  sdi_sdhc :: u8
  sdi_cluster_size :: u8
  sdi_cluster_shift :: u8
  sdi_part_offset :: u32
  sdi_part_size :: u32
  sdi_fat1 :: u32
  sdi_fat2 :: u32
  sdi_fat_size :: u32
  sdi_root :: u32
  sdi_cluster_offset :: u32
  sdi_cluster_count :: u32
  sdi_cache_block :: u32
  sdi_cache_block2 :: u32
  sdi_cache_mode :: u8
  sdi_block :: "u8 list"
  spi_rx :: "nat \<Rightarrow> u8"
  spi_pos :: nat
  spi_tx :: "u8 list"
  spi_cs :: bool
  clk :: "nat \<Rightarrow> u16"
  clk_pos :: nat

abbreviation (input) SD_BLKSIZE :: nat where "SD_BLKSIZE \<equiv> 512"
abbreviation (input) SD_DETECT_NONE :: u8 where "SD_DETECT_NONE \<equiv> 0"
abbreviation (input) SD_DETECT_NEW :: u8 where "SD_DETECT_NEW \<equiv> 1"
abbreviation (input) SD_DETECT_EXISTING :: u8 where "SD_DETECT_EXISTING \<equiv> 2"
abbreviation (input) SD_R1_READY :: u8 where "SD_R1_READY \<equiv> 0x00"
abbreviation (input) SD_R1_IDLE :: u8 where "SD_R1_IDLE \<equiv> 0x01"
abbreviation (input) SD_R1_ILL :: u8 where "SD_R1_ILL \<equiv> 0x04"
abbreviation (input) SD_C_EMPTY :: u8 where "SD_C_EMPTY \<equiv> 0"
abbreviation (input) SD_C_READ :: u8 where "SD_C_READ \<equiv> 1"
abbreviation (input) SD_INIT_TIMEOUT :: u16 where "SD_INIT_TIMEOUT \<equiv> 512"

text \<open>\<^verbatim>\<open>struct sd_card_command\<close>\<close>

record sd_card_command =
  cc_cmd :: u8
  cc_arg_bytes :: "u8 list"
  cc_crc :: u8

section \<open>SPI primitives\<close>

definition spi_receive_byte :: "sdcard \<Rightarrow> u8 \<times> sdcard" where
  "spi_receive_byte s = (spi_rx s (spi_pos s), s\<lparr>spi_pos := Suc (spi_pos s)\<rparr>)"

fun spi_receive :: "nat \<Rightarrow> sdcard \<Rightarrow> u8 list \<times> sdcard" where
  "spi_receive 0 s = ([], s)"
| "spi_receive (Suc n) s =
     (let (b, s1) = spi_receive_byte s; (bs, s2) = spi_receive n s1 in (b # bs, s2))"

definition spi_blank :: "nat \<Rightarrow> sdcard \<Rightarrow> sdcard" where
  "spi_blank n s = snd (spi_receive n s)"

definition spi_send :: "sd_card_command \<Rightarrow> sdcard \<Rightarrow> sdcard" where
  "spi_send c s = s\<lparr>spi_tx := spi_tx s @ cc_cmd c # cc_arg_bytes c @ [cc_crc c]\<rparr>"

definition spi_sdcard_raise_cs :: "sdcard \<Rightarrow> sdcard" where
  "spi_sdcard_raise_cs s = s\<lparr>spi_cs := True\<rparr>"

definition spi_sdcard_lower_cs :: "sdcard \<Rightarrow> sdcard" where
  "spi_sdcard_lower_cs s = s\<lparr>spi_cs := False\<rparr>"

definition sys_clock :: "sdcard \<Rightarrow> u16 \<times> sdcard" where
  "sys_clock s = (clk s (clk_pos s), s\<lparr>clk_pos := Suc (clk_pos s)\<rparr>)"

section \<open>Commands\<close>

definition sd_wakeup :: "sdcard \<Rightarrow> sdcard" where
  "sd_wakeup s = snd (spi_receive 10 (spi_sdcard_raise_cs s))"

text \<open>The two polling loops; the argument is \<^verbatim>\<open>timeout\<close>, which starts at 255.\<close>

fun sd_wait_ready :: "nat \<Rightarrow> sdcard \<Rightarrow> bool \<times> sdcard" where
  "sd_wait_ready 0 s = (False, s)"
| "sd_wait_ready (Suc timeout) s =
     (let (b, s1) = spi_receive_byte s in
      if b = 0xFF then (True, s1)
      else if timeout = 0 then (False, s1)
      else sd_wait_ready timeout s1)"

fun sd_wait_response :: "nat \<Rightarrow> sdcard \<Rightarrow> u8 \<times> sdcard" where
  "sd_wait_response 0 s = (0xFF, s)"
| "sd_wait_response (Suc timeout) s =
     (let (response, s1) = spi_receive_byte s in
      if response AND 0x80 = 0 then (response, s1)
      else if timeout = 0 then (0xFF, s1)
      else sd_wait_response timeout s1)"

definition sd_command :: "sd_card_command \<Rightarrow> sdcard \<Rightarrow> u8 \<times> sdcard" where
  "sd_command c s =
     (let (ready, s1) = sd_wait_ready 255 s in
      if \<not> ready then (0xFF, s1)
      else sd_wait_response 255 (spi_send c s1))"

definition sd_simple_command :: "u8 \<Rightarrow> sdcard \<Rightarrow> u8 \<times> sdcard" where
  "sd_simple_command c s = sd_command \<lparr>cc_cmd = c, cc_arg_bytes = [0, 0, 0, 0], cc_crc = 0\<rparr> s"

fun sd_wait_start_loop :: "nat \<Rightarrow> sdcard \<Rightarrow> u8 \<times> sdcard" where
  "sd_wait_start_loop 0 s = (0xFF, s)"
| "sd_wait_start_loop (Suc timeout) s =
     (let (response, s1) = spi_receive_byte s in
      if response \<noteq> 0xFF then (response, s1)
      else if timeout = 0 then (0xFF, s1)
      else sd_wait_start_loop timeout s1)"

definition sd_wait_for_start :: "sdcard \<Rightarrow> u8 \<times> sdcard" where
  "sd_wait_for_start s = sd_wait_start_loop 255 s"

text \<open>\<^verbatim>\<open>spi_init\<close> raises the chip select.\<close>

definition sd_init :: "sdcard \<Rightarrow> sdcard" where
  "sd_init s = s\<lparr>spi_cs := True, sdi_detect := 0, sdi_sdhc := 0\<rparr>"

section \<open>Reading blocks\<close>

definition sd_adjust_block_number :: "u32 \<Rightarrow> sdcard \<Rightarrow> u32" where
  "sd_adjust_block_number blknum s = (if sdi_sdhc s = 0 then push_bit 9 blknum else blknum)"

text \<open>A transfer into the start of \<^verbatim>\<open>sd_info.block\<close>.\<close>

definition sd_receive_block :: "nat \<Rightarrow> sdcard \<Rightarrow> sdcard" where
  "sd_receive_block n s =
     (let (bs, s1) = spi_receive n s in s1\<lparr>sdi_block := bs @ drop n (sdi_block s1)\<rparr>)"

definition sd_read :: "u32 \<Rightarrow> sdcard \<Rightarrow> u8 \<times> sdcard" where
  "sd_read blknum0 s =
     (let blknum = sd_adjust_block_number blknum0 s;
          c = \<lparr>cc_cmd = 17 OR 0x40,
               cc_arg_bytes = [byte blknum 3, byte blknum 2, byte blknum 1, byte blknum 0],
               cc_crc = 0\<rparr>;
          (response, s1) = sd_command c (spi_sdcard_lower_cs s) in
      if response \<noteq> SD_R1_READY then (response, spi_sdcard_raise_cs s1)
      else
        let (start, s2) = sd_wait_for_start s1 in
        if start = 0 then (0xFF, spi_sdcard_raise_cs s2)
        else (SD_R1_READY, spi_sdcard_raise_cs (spi_blank 2 (sd_receive_block SD_BLKSIZE s2))))"

definition sd_write :: "u32 \<Rightarrow> sdcard \<Rightarrow> u8 \<times> sdcard" where
  "sd_write blknum s = (0xFF, s)"

definition sd_cache_flush :: "sdcard \<Rightarrow> u8 \<times> sdcard" where
  "sd_cache_flush s = (SD_R1_READY, s)"

definition sd_cache_read :: "u32 \<Rightarrow> sdcard \<Rightarrow> u8 \<times> sdcard" where
  "sd_cache_read blknum s =
     (if blknum = sdi_cache_block s \<and> sdi_cache_mode s \<noteq> SD_C_EMPTY then (SD_R1_READY, s)
      else
        let (status, s1) =
          (if sdi_cache_mode s \<noteq> SD_C_EMPTY then
             let (st, t) = sd_cache_flush s in
             if st \<noteq> SD_R1_READY then (st, t)
             else (st, t\<lparr>sdi_cache_block := 0, sdi_cache_block2 := 0, sdi_cache_mode := SD_C_EMPTY\<rparr>)
           else (SD_R1_READY, s)) in
        if status \<noteq> SD_R1_READY then (status, s1)
        else
          let (status2, s2) = sd_read blknum s1 in
          if status2 \<noteq> SD_R1_READY then (status2, s2)
          else (SD_R1_READY, s2\<lparr>sdi_cache_block := blknum, sdi_cache_block2 := 0,
                                 sdi_cache_mode := SD_C_READ\<rparr>))"

definition sd_cache_write_prepare :: "u32 \<Rightarrow> sdcard \<Rightarrow> u8 \<times> sdcard" where
  "sd_cache_write_prepare blknum s = (0xFF, s)"

definition sd_cache_write_prepare_fat :: "u32 \<Rightarrow> sdcard \<Rightarrow> u8 \<times> sdcard" where
  "sd_cache_write_prepare_fat blknum s = (0xFF, s)"

definition sd_cache_write_prepare_zero :: "u32 \<Rightarrow> sdcard \<Rightarrow> u8 \<times> sdcard" where
  "sd_cache_write_prepare_zero blknum s = (0xFF, s)"

section \<open>Assembly helpers and their C references\<close>

text \<open>The C version of \<^verbatim>\<open>sd_cluster_to_block\<close> that the source keeps for reference. A
  shift by 32 or more, which C leaves undefined, gives 0 here; detection sets shifts up to 7 only.\<close>

definition sd_cluster_to_block_ref :: "u32 \<Rightarrow> sdcard \<Rightarrow> u32" where
  "sd_cluster_to_block_ref cluster0 s =
     (if cluster0 < 2 then 0
      else let cluster = cluster0 - 2 in
        if cluster \<ge> sdi_cluster_count s then 0
        else sdi_cluster_offset s + push_bit (unat (sdi_cluster_shift s)) cluster)"

text \<open>The shift loop of the assembly code: four bytes, the count in X.\<close>

fun asm_shift :: "nat \<Rightarrow> u8 \<times> u8 \<times> u8 \<times> u8 \<Rightarrow> u8 \<times> u8 \<times> u8 \<times> u8" where
  "asm_shift 0 r = r"
| "asm_shift (Suc x) (rc4, rc5, rc2, rc3) =
     (let (rc4, c) = asl rc4; (rc5, c) = rol rc5 c; (rc2, c) = rol rc2 c; (rc3, c) = rol rc3 c in
      asm_shift x (rc4, rc5, rc2, rc3))"

text \<open>The comparison with \<^verbatim>\<open>sd_info.cluster_count\<close>, most significant byte first: true when the
  code falls through or branches to the \<^verbatim>\<open>ok\<close> label.\<close>

definition asm_below :: "u8 \<Rightarrow> u8 \<Rightarrow> u8 \<Rightarrow> u8 \<Rightarrow> u32 \<Rightarrow> bool" where
  "asm_below rc4 rc5 rc2 rc3 cnt =
     (if rc3 < byte cnt 3 then True else if rc3 \<noteq> byte cnt 3 then False
      else if rc2 < byte cnt 2 then True else if rc2 \<noteq> byte cnt 2 then False
      else if rc5 < byte cnt 1 then True else if rc5 \<noteq> byte cnt 1 then False
      else rc4 < byte cnt 0)"

definition sd_cluster_to_block :: "u32 \<Rightarrow> sdcard \<Rightarrow> u32" where
  "sd_cluster_to_block cluster s =
     (let (rc4, c) = sbc (byte cluster 0) 2 True;
          (rc5, c) = sbc (byte cluster 1) 0 c;
          (rc2, c) = sbc (byte cluster 2) 0 c;
          (rc3, c) = sbc (byte cluster 3) 0 c in
      if \<not> c then 0
      else if \<not> asm_below rc4 rc5 rc2 rc3 (sdi_cluster_count s) then 0
      else
        let (rc4, rc5, rc2, rc3) = asm_shift (unat (sdi_cluster_shift s)) (rc4, rc5, rc2, rc3);
            ofs = sdi_cluster_offset s;
            (rc4, c) = adc rc4 (byte ofs 0) False;
            (x, c) = adc rc5 (byte ofs 1) c;
            (rc2, c) = adc rc2 (byte ofs 2) c;
            (rc3, c) = adc rc3 (byte ofs 3) c in
        join4 rc4 x rc2 rc3)"

text \<open>The C reference of \<^verbatim>\<open>sd_get_size\<close>: the card size from the CSD register; None is the
  unknown version, for which the reference gives up and the assembly returns zero. A negative
  shift is undefined in C, so the reference is only meant for \<open>C_SIZE_MULT + READ_BL_LEN \<ge> 7\<close>.\<close>

definition sd_get_size_ref :: "u8 list \<Rightarrow> u32 option" where
  "sd_get_size_ref blk =
     (let status = blk ! 0 AND 0xC0 in
      if status = 0 then
        let read_bl_len = blk ! 5 AND 0x0F;
            c_size_mult0 = push_bit 1 (blk ! 9 AND 0x03);
            c_size_mult = (if blk ! 10 AND 0x80 \<noteq> 0 then c_size_mult0 + 1 else c_size_mult0);
            part_size = push_bit 10 (ucast (blk ! 6 AND 0x03) :: u32) OR
                        push_bit 2 (ucast (blk ! 7)) OR ucast (drop_bit 6 (blk ! 8)) in
        Some (push_bit (unat c_size_mult + unat read_bl_len - 7) (part_size + 1))
      else if status = 0x40 then
        let part_size = push_bit 8 (ucast (blk ! 9) :: u32) OR push_bit 16 (ucast (blk ! 8)) OR
                        push_bit 24 (ucast (blk ! 7)) in
        Some (push_bit 2 (part_size + 0x100))
      else None)"

definition sd_get_size_v2 :: "u8 list \<Rightarrow> u32" where
  "sd_get_size_v2 blk =
     (let (rc4, c) = adc (blk ! 9) 1 False;
          (rc2, c) = adc (blk ! 8) 0 c;
          (rc3, c) = adc (blk ! 7) 0 c;
          (rc4, c) = asl rc4; (rc2, c) = rol rc2 c; (rc3, c) = rol rc3 c;
          (rc4, c) = asl rc4; (rc2, c) = rol rc2 c; (rc3, c) = rol rc3 c in
      join4 0 rc4 rc2 rc3)"

text \<open>The shift loop counts X down to zero, starting at a non-zero value.\<close>

definition sd_get_size_v1 :: "u8 list \<Rightarrow> u32 \<times> u8 list" where
  "sd_get_size_v1 blk =
     (let (b8, c) = asl (blk ! 8); (b7, c) = rol (blk ! 7) c; (b6, c) = rol (blk ! 6) c;
          (b8, c) = asl b8;
          (rc4, c) = rol b7 c;
          (a, c) = rol b6 c; rc5 = a AND 0x0F;
          (rc4, c) = adc rc4 1 False;
          (rc5, c) = adc rc5 0 c;
          (b10, c) = asl (blk ! 10);
          (a, c) = rol (blk ! 9) c; rc6 = a AND 0x07;
          (a, c) = adc (blk ! 5 AND 0x0F) rc6 False;
          (x, c) = sbc a 7 True;
          (rc4, rc5, rc2, rc3) = asm_shift (unat x) (rc4, rc5, 0, 0) in
      (join4 rc4 rc5 rc2 rc3, blk[8 := b8, 7 := b7, 6 := b6, 10 := b10]))"

definition sd_get_size :: "sdcard \<Rightarrow> u32 \<times> sdcard" where
  "sd_get_size s =
     (let a = sdi_block s ! 0 AND 0xC0 in
      if a = 0 then
        let (r, blk) = sd_get_size_v1 (sdi_block s) in (r, s\<lparr>sdi_block := blk\<rparr>)
      else if a = 0x40 then (sd_get_size_v2 (sdi_block s), s)
      else (0, s))"

section \<open>Detection\<close>

text \<open>Little-endian loads from \<^verbatim>\<open>sd_info.block\<close>.\<close>

definition le16 :: "u8 list \<Rightarrow> nat \<Rightarrow> u32" where
  "le16 blk i = join4 (blk ! i) (blk ! (i + 1)) 0 0"

definition le32 :: "u8 list \<Rightarrow> nat \<Rightarrow> u32" where
  "le32 blk i = join4 (blk ! i) (blk ! (i + 1)) (blk ! (i + 2)) (blk ! (i + 3))"

text \<open>The probe for a card that was detected before.\<close>

definition sd_check_existing :: "sdcard \<Rightarrow> bool \<times> sdcard" where
  "sd_check_existing s =
     (if sdi_detect s \<noteq> 0 then
        let (status, s1) = sd_simple_command (10 + 0x40) (spi_sdcard_lower_cs s) in
        if status = SD_R1_READY then
          let (start, s2) = sd_wait_for_start s1 in
          if start \<noteq> 0 then (True, spi_sdcard_raise_cs (spi_blank 18 s2))
          else (False, spi_sdcard_raise_cs s2)
        else (False, spi_sdcard_raise_cs s1)
      else (False, s))"

text \<open>The reset loop; it ends only when the card answers or the clock has advanced enough.\<close>

partial_function (option) sd_reset_loop :: "u16 \<Rightarrow> sdcard \<Rightarrow> (bool \<times> sdcard) option" where [code]:
  "sd_reset_loop timeout_base s =
     (let (r, s1) = sd_command \<lparr>cc_cmd = 0 + 0x40, cc_arg_bytes = [0, 0, 0, 0], cc_crc = 0x95\<rparr> s in
      if r = SD_R1_IDLE then Some (True, s1)
      else
        let (now, s2) = sys_clock s1 in
        if now - timeout_base \<ge> SD_INIT_TIMEOUT then Some (False, s2)
        else sd_reset_loop timeout_base s2)"

text \<open>CMD8: the version of the card, None for the failure exit.\<close>

definition sd_check_version :: "sdcard \<Rightarrow> u8 option \<times> sdcard" where
  "sd_check_version s =
     (let (r, s1) = sd_command \<lparr>cc_cmd = 8 + 0x40, cc_arg_bytes = [0, 0, 0x01, 0xAA], cc_crc = 0x87\<rparr> s in
      if r AND SD_R1_ILL = 0 then
        let (arg_bytes, s2) = spi_receive 4 s1 in
        if arg_bytes ! 3 = 0xAA then (Some 2, s2) else (None, s2)
      else (Some 1, s1))"

partial_function (option) sd_init_loop :: "u8 \<Rightarrow> u16 \<Rightarrow> sdcard \<Rightarrow> (bool \<times> sdcard) option" where [code]:
  "sd_init_loop version timeout_base s =
     (let (_, s1) = sd_simple_command (55 + 0x40) s;
          (r, s2) = sd_command \<lparr>cc_cmd = 41 + 0x40,
                      cc_arg_bytes = [if version = 2 then 0x40 else 0, 0, 0, 0], cc_crc = 0\<rparr> s1 in
      if r = SD_R1_READY then Some (True, s2)
      else
        let (now, s3) = sys_clock s2 in
        if now - timeout_base \<ge> SD_INIT_TIMEOUT then Some (False, s3)
        else sd_init_loop version timeout_base s3)"

definition sd_check_sdhc :: "u8 \<Rightarrow> sdcard \<Rightarrow> bool \<times> sdcard" where
  "sd_check_sdhc version s =
     (if version = 2 then
        let (r, s1) = sd_simple_command (58 + 0x40) s in
        if r \<noteq> SD_R1_READY then (False, s1)
        else
          let (arg_bytes, s2) = spi_receive 4 s1 in
          if arg_bytes ! 0 AND 0xC0 = 0xC0 then (True, s2\<lparr>sdi_sdhc := 1\<rparr>) else (True, s2)
      else (True, s))"

definition sd_read_csd :: "sdcard \<Rightarrow> bool \<times> sdcard" where
  "sd_read_csd s =
     (let (r, s1) = sd_simple_command (9 + 0x40) s in
      if r \<noteq> SD_R1_READY then (False, s1)
      else
        let (start, s2) = sd_wait_for_start s1 in
        if start = 0 then (False, s2)
        else
          let (n, s4) = sd_get_size (sd_receive_block 18 s2);
              s5 = s4\<lparr>sdi_part_size := n\<rparr> in
          (n \<noteq> 0, s5))"

definition sd_has_signature :: "sdcard \<Rightarrow> bool" where
  "sd_has_signature s \<longleftrightarrow> sdi_block s ! 510 = 0x55 \<and> sdi_block s ! 511 = 0xAA"

definition sd_find_partition :: "sdcard \<Rightarrow> bool \<times> sdcard" where
  "sd_find_partition s =
     (let (r, s1) = sd_read 0 s in
      if r \<noteq> SD_R1_READY then (False, s1)
      else if \<not> sd_has_signature s1 then (False, s1)
      else
        let status = sdi_block s1 ! 450 in
        if status = 0x0C then
          let s2 = s1\<lparr>sdi_part_offset := le32 (sdi_block s1) 454,
                      sdi_part_size := le32 (sdi_block s1) 458\<rparr>;
              (r2, s3) = sd_read (sdi_part_offset s2) s2 in
          if r2 \<noteq> SD_R1_READY then (False, s3)
          else if \<not> sd_has_signature s3 then (False, s3)
          else (True, s3)
        else if status = 0x0E then (False, s1)
        else (True, s1))"

text \<open>The loop that turns the cluster size into a shift count. The size has been checked to be a
  power of two up to 128, so eight rounds are enough; \<^verbatim>\<open>status\<close> is a byte.\<close>

fun cluster_shift_loop :: "nat \<Rightarrow> u8 \<Rightarrow> u8 \<Rightarrow> u8 \<Rightarrow> u8" where
  "cluster_shift_loop 0 csize status shift = shift"
| "cluster_shift_loop (Suc n) csize status shift =
     (if status < csize then cluster_shift_loop n csize (push_bit 1 status) (shift + 1) else shift)"

definition cluster_sizes :: "u8 list" where
  "cluster_sizes = [1, 2, 4, 8, 16, 32, 64, 128]"

definition sd_bpb_ok :: "u8 list \<Rightarrow> bool" where
  "sd_bpb_ok blk \<longleftrightarrow>
     blk ! 11 = 0 \<and> blk ! 12 = 2 \<and> blk ! 13 \<in> set cluster_sizes \<and> blk ! 16 = 2 \<and>
     blk ! 17 = 0 \<and> blk ! 18 = 0 \<and> blk ! 19 = 0 \<and> blk ! 20 = 0 \<and>
     (blk ! 21 = 0xF0 \<or> 0xF8 \<le> blk ! 21)"

text \<open>The FAT32 header of the partition. \<^verbatim>\<open>cluster_size\<close> is stored before the checks after it.\<close>

definition sd_parse_bpb :: "sdcard \<Rightarrow> bool \<times> sdcard" where
  "sd_parse_bpb s =
     (let blk = sdi_block s in
      if blk ! 11 \<noteq> 0 \<or> blk ! 12 \<noteq> 2 then (False, s)
      else
        let s1 = s\<lparr>sdi_cluster_size := blk ! 13\<rparr> in
        if \<not> sd_bpb_ok blk then (False, s1)
        else
          let csize = blk ! 13;
              shift = cluster_shift_loop 8 csize 1 0;
              fat_size = le32 blk 36; fat1 = le16 blk 14; fat2 = fat1 + fat_size;
              cluster_offset = fat2 + fat_size;
              cluster_count = drop_bit (unat shift) (sdi_part_size s1 - cluster_offset) in
          (True, s1\<lparr>sdi_cluster_shift := shift, sdi_fat_size := fat_size, sdi_root := le32 blk 44,
                    sdi_cluster_count := cluster_count,
                    sdi_fat1 := fat1 + sdi_part_offset s1, sdi_fat2 := fat2 + sdi_part_offset s1,
                    sdi_cluster_offset := cluster_offset + sdi_part_offset s1,
                    sdi_cache_block := 0, sdi_cache_block2 := 0, sdi_cache_mode := SD_C_EMPTY\<rparr>))"

text \<open>The body of \<^verbatim>\<open>sd_detect\<close> for a card not known yet: the version, or None at the label
  \<^verbatim>\<open>fail\<close>.\<close>

definition sd_detect_card :: "sdcard \<Rightarrow> (u8 option \<times> sdcard) option" where
  "sd_detect_card s =
     (let s1 = s\<lparr>sdi_detect := 0, sdi_sdhc := 0, sdi_part_offset := 0, sdi_part_size := 0\<rparr>;
          s2 = spi_sdcard_lower_cs (sd_wakeup s1);
          (base, s3) = sys_clock s2 in
      do {
        (up, s4) \<leftarrow> sd_reset_loop base s3;
        if \<not> up then Some (None, s4)
        else (case sd_check_version s4 of
          (None, s5) \<Rightarrow> Some (None, s5)
        | (Some version, s5) \<Rightarrow>
            let (base2, s6) = sys_clock s5 in
            do {
              (up2, s7) \<leftarrow> sd_init_loop version base2 s6;
              if \<not> up2 then Some (None, s7)
              else
                let (ok, s8) = sd_check_sdhc version s7 in
                if \<not> ok then Some (None, s8)
                else
                  let (ok, s9) = sd_read_csd s8 in
                  if \<not> ok then Some (None, s9)
                  else
                    let (ok, s10) = sd_find_partition s9 in
                    if \<not> ok then Some (None, s10)
                    else
                      let (ok, s11) = sd_parse_bpb s10 in
                      Some (if ok then Some version else None, s11)
            }) })"

definition sd_detect :: "sdcard \<Rightarrow> (u8 \<times> sdcard) option" where
  "sd_detect s =
     (let (existing, s1) = sd_check_existing s in
      if existing then Some (SD_DETECT_EXISTING, s1)
      else do {
        (v, s2) \<leftarrow> sd_detect_card s1;
        (case v of
           Some version \<Rightarrow> Some (SD_DETECT_NEW, (spi_sdcard_raise_cs s2)\<lparr>sdi_detect := version\<rparr>)
         | None \<Rightarrow> Some (SD_DETECT_NONE, spi_sdcard_raise_cs s2)) })"

definition sd_redetect :: "sdcard \<Rightarrow> (u8 \<times> sdcard) option" where
  "sd_redetect s = sd_detect (s\<lparr>sdi_detect := 0\<rparr>)"

section \<open>The assembly helpers are the C code\<close>

lemma u32_of_nat_carry:
  assumes "n' + 4294967296 * k = n"
  shows "(of_nat n' :: u32) = of_nat n"
proof -
  have "(of_nat n :: u32) = of_nat n' + of_nat 4294967296 * of_nat k"
    unfolding assms [symmetric] by (simp only: of_nat_add of_nat_mult)
  moreover have "(4294967296 :: u32) = 0" by code_simp
  ultimately show ?thesis by simp
qed

lemma asm_shift_step:
  assumes "asl rc4 = (a, c1)" "rol rc5 c1 = (b, c2)" "rol rc2 c2 = (d, c3)" "rol rc3 c3 = (e, c4)"
  shows "join4 a b d e = push_bit 1 (join4 rc4 rc5 rc2 rc3)"
proof -
  have "unat a + 256 * unat b + 65536 * unat d + 16777216 * unat e + 4294967296 * of_bool c4 =
      2 * (unat rc4 + 256 * unat rc5 + 65536 * unat rc2 + 16777216 * unat rc3)"
    using rol_carry [OF assms(1) [unfolded asl_def]] rol_carry [OF assms(2)] rol_carry [OF assms(3)]
      rol_carry [OF assms(4)] by simp
  from u32_of_nat_carry [OF this] show ?thesis
    unfolding join4_def by (simp add: push_bit_eq_mult)
qed

lemma asm_shift_correct:
  "asm_shift n (rc4, rc5, rc2, rc3) = (a, b, d, e) \<Longrightarrow>
   join4 a b d e = push_bit n (join4 rc4 rc5 rc2 rc3)"
proof (induction n arbitrary: rc4 rc5 rc2 rc3)
  case (Suc n)
  obtain a' c1 b' c2 d' c3 e' c4 where steps: "asl rc4 = (a', c1)" "rol rc5 c1 = (b', c2)"
    "rol rc2 c2 = (d', c3)" "rol rc3 c3 = (e', c4)" by (metis prod.exhaust)
  then have "asm_shift n (a', b', d', e') = (a, b, d, e)" using Suc.prems by simp
  from Suc.IH [OF this] asm_shift_step [OF steps] show ?case by (simp add: push_bit_push_bit)
qed simp

lemma asm_below_correct: "asm_below rc4 rc5 rc2 rc3 cnt \<longleftrightarrow> join4 rc4 rc5 rc2 rc3 < cnt"
proof -
  show ?thesis
    unfolding asm_below_def word_less_nat_alt unat_join4 word_unat_eq_iff
    using unat_bytes [of cnt] u8_bound [of rc4] u8_bound [of rc5] u8_bound [of rc2] u8_bound [of rc3]
      u8_bound [of "byte cnt 0"] u8_bound [of "byte cnt 1"] u8_bound [of "byte cnt 2"]
      u8_bound [of "byte cnt 3"]
    by (auto split: if_splits)
qed

lemma asm_minus_2:
  assumes "sbc (byte w 0) 2 True = (rc4, c1)" "sbc (byte w 1) 0 c1 = (rc5, c2)"
    "sbc (byte w 2) 0 c2 = (rc2, c3)" "sbc (byte w 3) 0 c3 = (rc3, c4)"
  shows "c4 \<longleftrightarrow> 2 \<le> w" and "c4 \<Longrightarrow> join4 rc4 rc5 rc2 rc3 = w - 2"
proof -
  note w = unat_bytes [of w]
  have eq: "unat (join4 rc4 rc5 rc2 rc3) + 2 = unat w + 4294967296 * of_bool (\<not> c4)"
    using sbc_carry [OF assms(1)] sbc_carry [OF assms(2)] sbc_carry [OF assms(3)]
      sbc_carry [OF assms(4)] unfolding w unat_join4 by simp
  have "unat (join4 rc4 rc5 rc2 rc3) < 4294967296"
    using unsigned_less [of "join4 rc4 rc5 rc2 rc3", where 'a = nat] by simp
  with eq show c4: "c4 \<longleftrightarrow> 2 \<le> w"
    by (cases c4) (auto simp: word_le_nat_alt)
  show "join4 rc4 rc5 rc2 rc3 = w - 2" if c4
    using eq that c4 by (simp add: word_unat_eq_iff unat_sub_if' word_le_nat_alt)
qed

lemma asm_add:
  assumes "adc a (byte w 0) False = (r0, c1)" "adc b (byte w 1) c1 = (r1, c2)"
    "adc d (byte w 2) c2 = (r2, c3)" "adc e (byte w 3) c3 = (r3, c4)"
  shows "join4 r0 r1 r2 r3 = w + join4 a b d e"
proof -
  have "unat r0 + 256 * unat r1 + 65536 * unat r2 + 16777216 * unat r3 + 4294967296 * of_bool c4 =
      (unat (byte w 0) + 256 * unat (byte w 1) + 65536 * unat (byte w 2) + 16777216 * unat (byte w 3)) +
      (unat a + 256 * unat b + 65536 * unat d + 16777216 * unat e)"
    using adc_carry [OF assms(1)] adc_carry [OF assms(2)] adc_carry [OF assms(3)]
      adc_carry [OF assms(4)] by simp
  from u32_of_nat_carry [OF this] show ?thesis
    using join4_bytes [of w] unfolding join4_def by (simp only: of_nat_add)
qed

text \<open>
  C28. The hand-written 6502 code of \<^verbatim>\<open>sd_cluster_to_block\<close>, with its byte-wise subtraction,
  comparison, shift loop and addition through the carry flag, computes the same function as the C
  reference kept in the source, for every cluster number and every card geometry.
\<close>

theorem sd_cluster_to_block_asm: "sd_cluster_to_block cluster s = sd_cluster_to_block_ref cluster s"
proof -
  obtain rc4 c1 rc5 c2 rc2 c3 rc3 c4 where sub: "sbc (byte cluster 0) 2 True = (rc4, c1)"
    "sbc (byte cluster 1) 0 c1 = (rc5, c2)" "sbc (byte cluster 2) 0 c2 = (rc2, c3)"
    "sbc (byte cluster 3) 0 c3 = (rc3, c4)" by (metis surj_pair)
  obtain a b d e where sh: "asm_shift (unat (sdi_cluster_shift s)) (rc4, rc5, rc2, rc3) = (a, b, d, e)"
    by (metis surj_pair)
  obtain r0 k1 r1 k2 r2 k3 r3 k4 where add: "adc a (byte (sdi_cluster_offset s) 0) False = (r0, k1)"
    "adc b (byte (sdi_cluster_offset s) 1) k1 = (r1, k2)" "adc d (byte (sdi_cluster_offset s) 2) k2 = (r2, k3)"
    "adc e (byte (sdi_cluster_offset s) 3) k3 = (r3, k4)" by (metis surj_pair)
  note facts = asm_minus_2 [OF sub] asm_shift_correct [OF sh] asm_add [OF add]
  have "sd_cluster_to_block cluster s =
      (if \<not> c4 then 0 else if \<not> join4 rc4 rc5 rc2 rc3 < sdi_cluster_count s then 0
       else join4 r0 r1 r2 r3)"
    by (simp add: sd_cluster_to_block_def sub sh add asm_below_correct del: One_nat_def)
  then show ?thesis
    using facts by (auto simp: sd_cluster_to_block_ref_def not_less not_le Let_def)
qed

lemma u8_bit7: "(x :: u8) AND 0x80 \<noteq> 0 \<longleftrightarrow> 128 \<le> x"
  by (rule u8_all) code_simp

lemma u8_masks:
  "unat ((x :: u8) AND 0x0F) = unat x mod 16" "unat (x AND 0x07) = unat x mod 8"
  "unat (x AND 0x03) = unat x mod 4" "unat (drop_bit 6 x) = unat x div 64"
proof -
  show "unat (drop_bit 6 x) = unat x div 64"
    unfolding unat_drop_bit_eq by (simp add: drop_bit_eq_div)
qed (use unat_and_mask [of x 4] unat_and_mask [of x 3] unat_and_mask [of x 2]
  in \<open>simp_all add: mask_eq_exp_minus_1\<close>)

lemma join4_or:
  "push_bit 8 (ucast b1 :: u32) OR push_bit 16 (ucast b2) OR push_bit 24 (ucast b3) = join4 0 b1 b2 b3"
proof -
  let ?x = "push_bit 8 (ucast b1) :: u32" and ?y = "push_bit 16 (ucast b2) :: u32"
    and ?z = "push_bit 24 (ucast b3) :: u32"
  have xy: "\<not> bit ?x n \<or> \<not> bit (?y OR ?z) n" for n
    by (auto simp: bit_simps dest!: bit_imp_le_length)
  have yz: "\<not> bit ?y n \<or> \<not> bit ?z n" for n
    by (auto simp: bit_simps dest!: bit_imp_le_length)
  have "?x OR (?y OR ?z) = ?x + (?y + ?z)"
    using disjunctive_add [OF xy] disjunctive_add [OF yz] by simp
  then show ?thesis by (simp add: join4_def push_bit_eq_mult or.assoc)
qed

lemma csize_or:
  fixes b6 b7 b8 :: u8
  shows "push_bit 10 (ucast (b6 AND 0x03) :: u32) OR push_bit 2 (ucast b7) OR ucast (drop_bit 6 b8) =
   of_nat (1024 * (unat b6 mod 4) + 4 * unat b7 + unat b8 div 64)"
proof -
  let ?x = "push_bit 10 (ucast (b6 AND 0x03) :: u32)" and ?y = "push_bit 2 (ucast b7 :: u32)"
    and ?z = "ucast (drop_bit 6 b8) :: u32"
  have xy: "\<not> bit ?x n \<or> \<not> bit (?y OR ?z) n" for n
    by (auto simp: bit_simps dest!: bit_imp_le_length)
  have yz: "\<not> bit ?y n \<or> \<not> bit ?z n" for n
    by (auto simp: bit_simps dest!: bit_imp_le_length)
  have "?x OR (?y OR ?z) = ?x + (?y + ?z)"
    using disjunctive_add [OF xy] disjunctive_add [OF yz] by simp
  moreover have "?x = of_nat (1024 * (unat b6 mod 4))" "?y = of_nat (4 * unat b7)"
    "?z = of_nat (unat b8 div 64)"
    unfolding u8_masks [symmetric] by (simp_all add: push_bit_eq_mult)
  ultimately show ?thesis by (simp add: or.assoc)
qed

lemma sd_get_size_v2_correct:
  "sd_get_size_v2 blk = push_bit 2 (join4 0 (blk ! 9) (blk ! 8) (blk ! 7) + 0x100)"
proof -
  obtain a0 c1 a1 c2 a2 c3 b0 d1 b1 d2 b2 d3 e0 k1 e1 k2 e2 k3 where st:
    "adc (blk ! 9) 1 False = (a0, c1)" "adc (blk ! 8) 0 c1 = (a1, c2)" "adc (blk ! 7) 0 c2 = (a2, c3)"
    "asl a0 = (b0, d1)" "rol a1 d1 = (b1, d2)" "rol a2 d2 = (b2, d3)"
    "asl b0 = (e0, k1)" "rol b1 k1 = (e1, k2)" "rol b2 k2 = (e2, k3)" by (metis prod.exhaust)
  have "(256 * unat e0 + 65536 * unat e1 + 16777216 * unat e2) +
      4294967296 * (of_bool k3 + 2 * of_bool d3 + 4 * of_bool c3) =
      4 * ((256 * unat (blk ! 9) + 65536 * unat (blk ! 8) + 16777216 * unat (blk ! 7)) + 256)"
    using adc_carry [OF st(1)] adc_carry [OF st(2)] adc_carry [OF st(3)]
      rol_carry [OF st(4) [unfolded asl_def]] rol_carry [OF st(5)] rol_carry [OF st(6)]
      rol_carry [OF st(7) [unfolded asl_def]] rol_carry [OF st(8)] rol_carry [OF st(9)] by simp
  from u32_of_nat_carry [OF this]
  have "join4 0 e0 e1 e2 = 4 * (join4 0 (blk ! 9) (blk ! 8) (blk ! 7) + 0x100)"
    unfolding join4_def by (simp only: of_nat_add of_nat_mult of_nat_numeral unsigned_0 add_0)
  then show ?thesis by (simp add: sd_get_size_v2_def st push_bit_eq_mult)
qed

text \<open>The version 1 path: the registers hold \<open>C_SIZE + 1\<close>, and X the shift count.\<close>

lemma csize_arith:
  assumes "r8 + 256 * k1 = 2 * b8" "r7 + 256 * k2 = 2 * b7 + k1" "r6 + 256 * k3 = 2 * b6 + k2"
    "s8 + 256 * k4 = 2 * r8" "s7 + 256 * k5 = 2 * r7 + k4" "s6 + 256 * k6 = 2 * r6 + (k5 :: nat)"
    and "b8 < 256" "s7 < 256" "s8 < 256" "r8 < 256" "r7 < 256" "r6 < 256"
    and "k1 \<le> 1" "k2 \<le> 1" "k3 \<le> 1" "k4 \<le> 1" "k5 \<le> 1" "k6 \<le> 1"
  shows "s7 + 256 * (s6 mod 16) = 1024 * (b6 mod 4) + 4 * b7 + b8 div 64"
proof -
  have "s8 + 256 * (k4 + 2 * k1) = 4 * b8" using assms by simp
  then have "256 * (k4 + 2 * k1) \<le> 4 * b8" "4 * b8 < 256 * (k4 + 2 * k1) + 256" using assms(9) by linarith+
  then have "64 * (k4 + 2 * k1) \<le> b8" "b8 < 64 * (k4 + 2 * k1) + 64" by linarith+
  then have q: "k4 + 2 * k1 = b8 div 64" by (simp add: div_nat_eqI)
  have "s7 + 256 * (k5 + 2 * k2) = 4 * b7 + (k4 + 2 * k1)" using assms by simp
  moreover have "s6 + 256 * (k6 + 2 * k3) = 4 * b6 + (k5 + 2 * k2)" using assms by simp
  then have "(s6 + 16 * (16 * (k6 + 2 * k3))) mod 16 = (4 * b6 + (k5 + 2 * k2)) mod 16" by simp
  then have "s6 mod 16 = (4 * b6 + (k5 + 2 * k2)) mod 16" by (simp only: mod_mult_self2)
  moreover have "(4 * b6 + k) mod 16 = 4 * (b6 mod 4) + k" if "k < 4" for k
    using that mod_mult2_eq [of "4 * b6 + k" 4 4] by simp
  then have "(4 * b6 + (k5 + 2 * k2)) mod 16 = 4 * (b6 mod 4) + (k5 + 2 * k2)"
    using assms(14,17) by simp
  ultimately show ?thesis using q by simp
qed

lemma sd_get_size_v1_correct:
  assumes "7 \<le> 2 * (unat (blk ! 9) mod 4) + of_bool (128 \<le> blk ! 10) + unat (blk ! 5) mod 16"
  shows "fst (sd_get_size_v1 blk) =
    push_bit (2 * (unat (blk ! 9) mod 4) + of_bool (128 \<le> blk ! 10) + unat (blk ! 5) mod 16 - 7)
      (of_nat (1024 * (unat (blk ! 6) mod 4) + 4 * unat (blk ! 7) + unat (blk ! 8) div 64) + 1)"
proof -
  obtain r8 k1 r7 k2 r6 k3 s8 k4 s7 k5 s6 k6 where sh: "rol (blk ! 8) False = (r8, k1)"
    "rol (blk ! 7) k1 = (r7, k2)" "rol (blk ! 6) k2 = (r6, k3)" "rol r8 False = (s8, k4)"
    "rol r7 k4 = (s7, k5)" "rol r6 k5 = (s6, k6)" by (metis prod.exhaust)
  obtain a4 j1 a5 j2 b10 j3 a6 j4 a j5 x j6 where ad: "adc s7 1 False = (a4, j1)"
    "adc (s6 AND 0x0F) 0 j1 = (a5, j2)" "rol (blk ! 10) False = (b10, j3)" "rol (blk ! 9) j3 = (a6, j4)"
    "adc (blk ! 5 AND 0x0F) (a6 AND 0x07) False = (a, j5)" "sbc a 7 True = (x, j6)" by (metis prod.exhaust)
  define cs where "cs = 1024 * (unat (blk ! 6) mod 4) + 4 * unat (blk ! 7) + unat (blk ! 8) div 64"
  have "unat s7 + 256 * (unat s6 mod 16) = cs"
    unfolding cs_def
    by (rule csize_arith [of "unat r8" "of_bool k1" "unat (blk ! 8)" "unat r7" "of_bool k2" _ "unat r6"
      "of_bool k3" _ "unat s8" "of_bool k4" _ "of_bool k5" _ "of_bool k6"])
      (use rol_carry [OF sh(1)] rol_carry [OF sh(2)] rol_carry [OF sh(3)] rol_carry [OF sh(4)]
        rol_carry [OF sh(5)] rol_carry [OF sh(6)] in \<open>simp_all add: u8_bound\<close>)
  moreover have "unat a4 + 256 * unat a5 + 65536 * of_bool j2 = unat s7 + 256 * (unat s6 mod 16) + 1"
    using adc_carry [OF ad(1)] adc_carry [OF ad(2)] by (simp add: u8_masks)
  moreover have "unat s7 + 256 * (unat s6 mod 16) < 4096" using u8_bound [of s7] mod_less_divisor [of 16 "unat s6"] by linarith
  ultimately have "unat a4 + 256 * unat a5 = cs + 1" by (cases j2) auto
  then have reg: "join4 a4 a5 0 0 = of_nat cs + 1"
    unfolding join4_def by (simp only: unsigned_0 mult_0_right add_0_right of_nat_add of_nat_1)
  have m: "unat (a6 AND 0x07) = 2 * (unat (blk ! 9) mod 4) + of_bool (128 \<le> blk ! 10)"
  proof -
    have "j3 = (128 \<le> blk ! 10)" using ad(3) by (simp add: rol_def)
    moreover have "(2 * n + of_bool k) mod 8 = 2 * (n mod 4) + of_bool k" for n :: nat and k
      using mod_mult2_eq [of "2 * n + of_bool k" 2 4] by (cases k) simp_all
    moreover have "unat a6 mod 8 = (unat a6 + 256 * of_bool j4) mod 8"
      using mod_mult_self2 [of "unat a6" 8 32] by (cases j4) simp_all
    ultimately show ?thesis using rol_carry [OF ad(4)] by (simp add: u8_masks)
  qed
  have "unat a + 256 * of_bool j5 = unat (blk ! 5) mod 16 + unat (a6 AND 0x07)"
    using adc_carry [OF ad(5)] by (simp add: u8_masks)
  moreover have "unat (a6 AND 0x07) < 8" "unat (blk ! 5) mod 16 < 16" by (simp_all add: u8_masks)
  ultimately have "unat a = unat (blk ! 5) mod 16 + unat (a6 AND 0x07)" by (cases j5) auto
  then have x: "unat x = 2 * (unat (blk ! 9) mod 4) + of_bool (128 \<le> blk ! 10) + unat (blk ! 5) mod 16 - 7"
    using sbc_carry [OF ad(6)] m assms u8_bound [of x] by (cases j6) auto
  obtain f4 f5 f2 f3 where f: "asm_shift (unat x) (a4, a5, 0, 0) = (f4, f5, f2, f3)" by (metis prod.exhaust)
  have "fst (sd_get_size_v1 blk) = join4 f4 f5 f2 f3"
    by (simp add: sd_get_size_v1_def asl_def sh ad f)
  also have "\<dots> = push_bit (unat x) (of_nat cs + 1)"
    using asm_shift_correct [OF f] reg by simp
  finally show ?thesis unfolding x cs_def .
qed

text \<open>
  C29. The assembly \<^verbatim>\<open>sd_get_size\<close> decodes the CSD register as the C reference in the source
  does: the card capacity in blocks from C_SIZE, C_SIZE_MULT and READ_BL_LEN for version 1 cards
  (for exponents of at least 7, below which the C shift is undefined) and from the 24-bit C_SIZE
  for version 2 cards; zero for any other version.
\<close>

theorem sd_get_size_asm:
  assumes "sdi_block s ! 0 AND 0xC0 = 0 \<Longrightarrow>
    7 \<le> 2 * (unat (sdi_block s ! 9) mod 4) + of_bool (128 \<le> sdi_block s ! 10) + unat (sdi_block s ! 5) mod 16"
  shows "fst (sd_get_size s) = (case sd_get_size_ref (sdi_block s) of None \<Rightarrow> 0 | Some n \<Rightarrow> n)"
proof -
  let ?blk = "sdi_block s"
  define m where "m = (if ?blk ! 10 AND 0x80 \<noteq> 0 then push_bit 1 (?blk ! 9 AND 0x03) + 1
    else push_bit 1 (?blk ! 9 AND 0x03))"
  have "unat (push_bit 1 (x AND 0x03)) = 2 * (unat x mod 4)" for x :: u8
    using u8_masks(3) [of x] by (simp add: push_bit_eq_mult unat_word_ariths)
  then have m: "unat m = 2 * (unat (?blk ! 9) mod 4) + of_bool (128 \<le> ?blk ! 10)"
    using u8_bit7 [of "?blk ! 10"] by (auto simp: m_def unat_word_ariths)
  show ?thesis
  proof (cases "?blk ! 0 AND 0xC0 = 0")
    case True
    have "sd_get_size_ref ?blk = Some (push_bit (unat m + unat (?blk ! 5 AND 0x0F) - 7)
        (of_nat (1024 * (unat (?blk ! 6) mod 4) + 4 * unat (?blk ! 7) + unat (?blk ! 8) div 64) + 1))"
      unfolding sd_get_size_ref_def Let_def if_P [OF True] m_def csize_or ..
    moreover have "fst (sd_get_size s) = fst (sd_get_size_v1 ?blk)"
      by (simp add: sd_get_size_def True case_prod_beta)
    ultimately show ?thesis
      using sd_get_size_v1_correct [OF assms [OF True]] unfolding m u8_masks by (simp only: option.case)
  next
    case False
    then show ?thesis
      by (simp add: sd_get_size_def sd_get_size_ref_def Let_def sd_get_size_v2_correct join4_or)
  qed
qed

definition test_sd :: sdcard where
  "test_sd = \<lparr>sdi_detect = 0, sdi_sdhc = 0, sdi_cluster_size = 0, sdi_cluster_shift = 0,
     sdi_part_offset = 0, sdi_part_size = 0, sdi_fat1 = 0, sdi_fat2 = 0, sdi_fat_size = 0, sdi_root = 0,
     sdi_cluster_offset = 0, sdi_cluster_count = 0, sdi_cache_block = 0, sdi_cache_block2 = 0,
     sdi_cache_mode = 0, sdi_block = (replicate 512 0)[5 := 9, 9 := 3, 7 := 2],
     spi_rx = \<lambda>_. 0xFF, spi_pos = 0, spi_tx = [], spi_cs = True,
     clk = of_nat, clk_pos = 0\<rparr>"

theorem sd_get_size_asm_witness: "fst (sd_get_size test_sd) = 2304"
proof -
  have "sdi_block test_sd ! 9 = 3" "sdi_block test_sd ! 10 = 0" "sdi_block test_sd ! 5 = 9"
    "sd_get_size_ref (sdi_block test_sd) = Some 2304"
    by (simp_all add: test_sd_def sd_get_size_ref_def push_bit_eq_mult)
  then show ?thesis using sd_get_size_asm [of test_sd] by simp
qed

section \<open>What the protocol leaves alone\<close>

text \<open>Two states that differ in the position of the streams, the bytes sent and the chip select only.\<close>

definition card_info :: "sdcard \<Rightarrow> sdcard" where
  "card_info s = s\<lparr>spi_pos := 0, spi_tx := [], spi_cs := True, clk_pos := 0\<rparr>"

lemma info_simps [simp]:
  "card_info (s\<lparr>spi_pos := p\<rparr>) = card_info s" "card_info (s\<lparr>spi_tx := x\<rparr>) = card_info s" "card_info (s\<lparr>spi_cs := b\<rparr>) = card_info s"
  "card_info (s\<lparr>clk_pos := p\<rparr>) = card_info s"
  by (simp_all add: card_info_def)

lemma infoD:
  assumes "card_info s' = card_info s"
  shows "sdi_detect s' = sdi_detect s" "sdi_sdhc s' = sdi_sdhc s" "sdi_block s' = sdi_block s"
    "sdi_part_offset s' = sdi_part_offset s" "sdi_part_size s' = sdi_part_size s"
    "sdi_cache_mode s' = sdi_cache_mode s" "sdi_cache_block s' = sdi_cache_block s"
    "sdi_cluster_size s' = sdi_cluster_size s" "sdi_cluster_count s' = sdi_cluster_count s"
    "sdi_cluster_offset s' = sdi_cluster_offset s" "sdi_cluster_shift s' = sdi_cluster_shift s"
    "sdi_fat1 s' = sdi_fat1 s" "sdi_root s' = sdi_root s"
    "clk s' = clk s" "spi_rx s' = spi_rx s"
  using assms by (cases s; cases s'; simp add: card_info_def)+

named_theorems sd_frame \<open>what a step of the protocol leaves alone\<close>

lemma spi_receive_byte_frame [sd_frame]:
  "spi_receive_byte s = (b, s') \<Longrightarrow> card_info s' = card_info s \<and> clk_pos s' = clk_pos s \<and> spi_cs s' = spi_cs s"
  by (auto simp: spi_receive_byte_def)

lemma spi_receive_frame [sd_frame]:
  "spi_receive n s = (bs, s') \<Longrightarrow>
   card_info s' = card_info s \<and> clk_pos s' = clk_pos s \<and> spi_cs s' = spi_cs s \<and> length bs = n"
  by (induction n arbitrary: s bs) (auto split: prod.splits dest!: spi_receive_byte_frame)

lemma sd_wait_ready_frame [sd_frame]:
  "sd_wait_ready n s = (r, s') \<Longrightarrow> card_info s' = card_info s \<and> clk_pos s' = clk_pos s \<and> spi_cs s' = spi_cs s"
  by (induction n arbitrary: s) (auto split: prod.splits if_splits dest!: spi_receive_byte_frame)

lemma sd_wait_response_frame [sd_frame]:
  "sd_wait_response n s = (r, s') \<Longrightarrow> card_info s' = card_info s \<and> clk_pos s' = clk_pos s \<and> spi_cs s' = spi_cs s"
  by (induction n arbitrary: s) (auto split: prod.splits if_splits dest!: spi_receive_byte_frame)

lemma sd_wait_start_loop_frame [sd_frame]:
  "sd_wait_start_loop n s = (r, s') \<Longrightarrow> card_info s' = card_info s \<and> clk_pos s' = clk_pos s \<and> spi_cs s' = spi_cs s"
  by (induction n arbitrary: s) (auto split: prod.splits if_splits dest!: spi_receive_byte_frame)

lemma sd_wait_for_start_frame [sd_frame]:
  "sd_wait_for_start s = (r, s') \<Longrightarrow> card_info s' = card_info s \<and> clk_pos s' = clk_pos s \<and> spi_cs s' = spi_cs s"
  unfolding sd_wait_for_start_def by (rule sd_wait_start_loop_frame)

lemma sd_command_frame [sd_frame]:
  "sd_command c s = (r, s') \<Longrightarrow> card_info s' = card_info s \<and> clk_pos s' = clk_pos s \<and> spi_cs s' = spi_cs s"
  by (auto simp: sd_command_def spi_send_def split: prod.splits if_splits
    dest!: sd_wait_ready_frame sd_wait_response_frame)

lemma sd_simple_command_frame [sd_frame]:
  "sd_simple_command c s = (r, s') \<Longrightarrow> card_info s' = card_info s \<and> clk_pos s' = clk_pos s \<and> spi_cs s' = spi_cs s"
  unfolding sd_simple_command_def by (rule sd_command_frame)

lemma sys_clock_frame: "sys_clock s = (t, s') \<Longrightarrow> card_info s' = card_info s \<and> clk_pos s' = Suc (clk_pos s) \<and> spi_cs s' = spi_cs s"
  by (auto simp: sys_clock_def)

lemma cs_frame [simp]:
  "card_info (spi_sdcard_raise_cs s) = card_info s" "card_info (spi_sdcard_lower_cs s) = card_info s"
  "clk_pos (spi_sdcard_raise_cs s) = clk_pos s" "clk_pos (spi_sdcard_lower_cs s) = clk_pos s"
  "spi_cs (spi_sdcard_raise_cs s)" "\<not> spi_cs (spi_sdcard_lower_cs s)"
  by (simp_all add: spi_sdcard_raise_cs_def spi_sdcard_lower_cs_def)

lemma spi_blank_frame [simp]:
  "card_info (spi_blank n s) = card_info s" "clk_pos (spi_blank n s) = clk_pos s" "spi_cs (spi_blank n s) = spi_cs s"
  using spi_receive_frame [of n s] by (simp_all add: spi_blank_def prod_eq_iff)

lemma sd_wakeup_frame: "card_info (sd_wakeup s) = card_info s" "clk_pos (sd_wakeup s) = clk_pos s"
  using spi_receive_frame [of 10 "spi_sdcard_raise_cs s"] by (simp_all add: sd_wakeup_def prod_eq_iff)

text \<open>The state apart from the streams and the contents of the block buffer.\<close>

abbreviation card_info_nb :: "sdcard \<Rightarrow> sdcard" where
  "card_info_nb s \<equiv> card_info (s\<lparr>sdi_block := []\<rparr>)"

lemma card_info_nb: "card_info s' = card_info s \<Longrightarrow> card_info_nb s' = card_info_nb s"
  by (cases s; cases s') (simp add: card_info_def)

lemma info_nbD:
  assumes "card_info_nb s' = card_info_nb s"
  shows "sdi_detect s' = sdi_detect s" "sdi_sdhc s' = sdi_sdhc s"
    "sdi_part_offset s' = sdi_part_offset s" "sdi_part_size s' = sdi_part_size s"
    "sdi_cache_mode s' = sdi_cache_mode s" "sdi_cache_block s' = sdi_cache_block s"
    "sdi_cluster_size s' = sdi_cluster_size s" "sdi_cluster_count s' = sdi_cluster_count s"
    "sdi_cluster_offset s' = sdi_cluster_offset s" "sdi_cluster_shift s' = sdi_cluster_shift s"
    "sdi_fat1 s' = sdi_fat1 s" "sdi_root s' = sdi_root s"
    "clk s' = clk s" "spi_rx s' = spi_rx s"
  using assms by (cases s; cases s'; simp add: card_info_def)+

lemma cs_frame_nb [simp]:
  "card_info_nb (spi_sdcard_raise_cs s) = card_info_nb s" "sdi_block (spi_sdcard_raise_cs s) = sdi_block s"
  "card_info_nb (spi_blank n s) = card_info_nb s" "sdi_block (spi_blank n s) = sdi_block s"
  using card_info_nb [of "spi_sdcard_raise_cs s" s] card_info_nb [of "spi_blank n s" s]
    infoD(3) [of "spi_sdcard_raise_cs s" s] infoD(3) [of "spi_blank n s" s] by simp_all

lemma sd_receive_block_frame:
  assumes "length (sdi_block s) = 512" and "n \<le> 512"
  shows "card_info_nb (sd_receive_block n s) = card_info_nb s" "clk_pos (sd_receive_block n s) = clk_pos s"
    "spi_cs (sd_receive_block n s) = spi_cs s" "length (sdi_block (sd_receive_block n s)) = 512"
proof -
  obtain bs s1 where r: "spi_receive n s = (bs, s1)" by (metis prod.exhaust)
  note f = spi_receive_frame [OF r]
  have "sdi_block s1 = sdi_block s" using f infoD(3) by blast
  then show "length (sdi_block (sd_receive_block n s)) = 512"
    using f r assms by (simp add: sd_receive_block_def)
  show "card_info_nb (sd_receive_block n s) = card_info_nb s"
    using card_info_nb [of s1 s] f by (simp add: sd_receive_block_def r)
qed (use spi_receive_frame [of n s] in \<open>auto simp: sd_receive_block_def split: prod.splits\<close>)

lemma sd_read_frame:
  assumes "sd_read blknum s = (r, s')" and "length (sdi_block s) = 512"
  shows "card_info_nb s' = card_info_nb s \<and> clk_pos s' = clk_pos s \<and> spi_cs s' \<and> length (sdi_block s') = 512 \<and>
    (r \<noteq> SD_R1_READY \<longrightarrow> sdi_block s' = sdi_block s)"
proof -
  define n where "n = sd_adjust_block_number blknum s"
  define c where "c = \<lparr>cc_cmd = 17 OR 0x40, cc_arg_bytes = [byte n 3, byte n 2, byte n 1, byte n 0],
    cc_crc = 0\<rparr>"
  obtain r1 s1 where c: "sd_command c (spi_sdcard_lower_cs s) = (r1, s1)" by (metis prod.exhaust)
  obtain r2 s2 where w: "sd_wait_for_start s1 = (r2, s2)" by (metis prod.exhaust)
  have s1: "card_info s1 = card_info s" "clk_pos s1 = clk_pos s" using sd_command_frame [OF c] by simp_all
  have s2: "card_info s2 = card_info s" "clk_pos s2 = clk_pos s" using sd_wait_for_start_frame [OF w] s1 by simp_all
  have len: "length (sdi_block s2) = 512" using infoD(3) [OF s2(1)] assms(2) by simp
  have res: "(r, s') = (if r1 \<noteq> SD_R1_READY then (r1, spi_sdcard_raise_cs s1)
      else if r2 = 0 then (0xFF, spi_sdcard_raise_cs s2)
      else (SD_R1_READY, spi_sdcard_raise_cs (spi_blank 2 (sd_receive_block SD_BLKSIZE s2))))"
    using assms(1) unfolding sd_read_def Let_def n_def [symmetric] c_def [symmetric] c w prod.case
    by (rule sym)
  then show ?thesis
    using s1 s2 infoD(3) [OF s1(1)] infoD(3) [OF s2(1)] sd_receive_block_frame [OF len, of 512]
      card_info_nb [OF s1(1)] card_info_nb [OF s2(1)] assms(2)
    by (auto split: if_splits)
qed

section \<open>Detection\<close>

text \<open>The clock advances: from any reading on, some later reading is a timeout away from any base.\<close>

definition clock_advances :: "(nat \<Rightarrow> u16) \<Rightarrow> bool" where
  "clock_advances c \<longleftrightarrow> (\<forall>base pos. \<exists>k. pos \<le> k \<and> SD_INIT_TIMEOUT \<le> c k - base)"

lemma sd_reset_loop_returns:
  assumes "clk_pos s \<le> k" and "SD_INIT_TIMEOUT \<le> clk s k - base"
  shows "\<exists>ok s'. sd_reset_loop base s = Some (ok, s') \<and> card_info s' = card_info s"
  using assms
proof (induction "k - clk_pos s" arbitrary: s rule: less_induct)
  case less
  obtain r s1 where c: "sd_command \<lparr>cc_cmd = 0 + 0x40, cc_arg_bytes = [0, 0, 0, 0], cc_crc = 0x95\<rparr> s = (r, s1)"
    by (metis prod.exhaust)
  obtain now s2 where t: "sys_clock s1 = (now, s2)" by (metis prod.exhaust)
  note f = sd_command_frame [OF c] and g = sys_clock_frame [OF t]
  have now: "now = clk s (clk_pos s)" using t f infoD(14) [of s1 s] by (auto simp: sys_clock_def)
  note unf = sd_reset_loop.simps [of base s] 
  consider "r = SD_R1_IDLE" | "r \<noteq> SD_R1_IDLE" "SD_INIT_TIMEOUT \<le> now - base"
    | "r \<noteq> SD_R1_IDLE" "\<not> SD_INIT_TIMEOUT \<le> now - base" by blast
  then show ?case
  proof cases
    case 3
    then have "clk_pos s < k" using less.prems now by (cases "clk_pos s = k") auto
    then have "\<exists>ok s'. sd_reset_loop base s2 = Some (ok, s') \<and> card_info s' = card_info s2"
      using less.prems f g infoD(14) [of s2 s] by (intro less.hyps) auto
    with 3 show ?thesis using unf c t f g by auto
  qed (use unf c t f g in auto)
qed

lemma sd_init_loop_returns:
  assumes "clk_pos s \<le> k" and "SD_INIT_TIMEOUT \<le> clk s k - base"
  shows "\<exists>ok s'. sd_init_loop version base s = Some (ok, s') \<and> card_info s' = card_info s"
  using assms
proof (induction "k - clk_pos s" arbitrary: s rule: less_induct)
  case less
  obtain r0 s0 where c0: "sd_simple_command (55 + 0x40) s = (r0, s0)" by (metis prod.exhaust)
  obtain r s1 where c: "sd_command \<lparr>cc_cmd = 41 + 0x40,
      cc_arg_bytes = [if version = 2 then 0x40 else 0, 0, 0, 0], cc_crc = 0\<rparr> s0 = (r, s1)"
    by (metis prod.exhaust)
  obtain now s2 where t: "sys_clock s1 = (now, s2)" by (metis prod.exhaust)
  note f = sd_simple_command_frame [OF c0] sd_command_frame [OF c] and g = sys_clock_frame [OF t]
  have now: "now = clk s (clk_pos s)" using t f infoD(14) [of s1 s] by (auto simp: sys_clock_def)
  note unf = sd_init_loop.simps [of version base s]
  consider "r = SD_R1_READY" | "r \<noteq> SD_R1_READY" "SD_INIT_TIMEOUT \<le> now - base"
    | "r \<noteq> SD_R1_READY" "\<not> SD_INIT_TIMEOUT \<le> now - base" by blast
  then show ?case
  proof cases
    case 3
    then have "clk_pos s < k" using less.prems now by (cases "clk_pos s = k") auto
    then have "\<exists>ok s'. sd_init_loop version base s2 = Some (ok, s') \<and> card_info s' = card_info s2"
      using less.prems f g infoD(14) [of s2 s] by (intro less.hyps) auto
    with 3 show ?thesis using unf c0 c t f g by auto
  qed (use unf c0 c t f g in auto)
qed

text \<open>
  What detection establishes about the volume. The sums and differences are those of the 32-bit fields
  and wrap as the code's do: that the areas of the volume fit its size is not part of this.
\<close>

definition sd_geometry :: "sdcard \<Rightarrow> bool" where
  "sd_geometry s \<longleftrightarrow>
     unat (sdi_cluster_size s) = 2 ^ unat (sdi_cluster_shift s) \<and> unat (sdi_cluster_shift s) \<le> 7 \<and>
     sdi_fat2 s = sdi_fat1 s + sdi_fat_size s \<and> sdi_cluster_offset s = sdi_fat2 s + sdi_fat_size s \<and>
     sdi_cluster_count s = drop_bit (unat (sdi_cluster_shift s))
       (sdi_part_size s - (sdi_cluster_offset s - sdi_part_offset s))"

lemma cluster_shift_loop_log:
  assumes "csize \<in> set cluster_sizes"
  shows "unat csize = 2 ^ unat (cluster_shift_loop 8 csize 1 0) \<and> unat (cluster_shift_loop 8 csize 1 0) \<le> 7"
proof -
  have "list_all (\<lambda>c. unat c = 2 ^ unat (cluster_shift_loop 8 c 1 0) \<and>
      unat (cluster_shift_loop 8 c 1 0) \<le> 7) cluster_sizes" by code_simp
  then show ?thesis using assms by (auto simp: list_all_iff)
qed

lemma sd_parse_bpb_geometry:
  assumes "sd_parse_bpb s = (ok, s')"
  shows "sdi_detect s' = sdi_detect s \<and> sdi_block s' = sdi_block s \<and>
    (ok \<longrightarrow> sd_geometry s' \<and> sdi_cache_mode s' = SD_C_EMPTY)"
  using assms cluster_shift_loop_log [of "sdi_block s ! 13"]
  by (auto simp: sd_parse_bpb_def sd_geometry_def sd_bpb_ok_def Let_def split: if_splits)

text \<open>The invariant of the stages: not yet detected, with a whole block buffer.\<close>

definition undetected :: "sdcard \<Rightarrow> bool" where
  "undetected s \<longleftrightarrow> sdi_detect s = 0 \<and> length (sdi_block s) = 512"

lemma undetected_info: "undetected s \<Longrightarrow> card_info s' = card_info s \<Longrightarrow> undetected s'"
  using infoD(1,3) [of s' s] by (simp add: undetected_def)

lemma sd_check_version_frame:
  "sd_check_version s = (v, s') \<Longrightarrow> card_info s' = card_info s \<and> (\<forall>n. v = Some n \<longrightarrow> n = 1 \<or> n = 2)"
  by (auto simp: sd_check_version_def split: prod.splits if_splits dest!: sd_command_frame spi_receive_frame)

lemma sd_check_sdhc_undetected:
  assumes "sd_check_sdhc v s = (ok, s')" and "undetected s"
  shows "undetected s'"
proof -
  obtain r s1 where c: "sd_simple_command (58 + 0x40) s = (r, s1)" by (metis prod.exhaust)
  obtain bs s2 where b: "spi_receive 4 s1 = (bs, s2)" by (metis prod.exhaust)
  have s1: "undetected s1" using sd_simple_command_frame [OF c] undetected_info [OF assms(2)] by blast
  then have "undetected s2" using spi_receive_frame [OF b] undetected_info by blast
  with s1 show ?thesis
    using assms c b by (auto simp: sd_check_sdhc_def undetected_def split: if_splits)
qed

lemma sd_get_size_frame:
  "sd_get_size s = (n, s') \<Longrightarrow>
   sdi_detect s' = sdi_detect s \<and> length (sdi_block s') = length (sdi_block s) \<and> clk s' = clk s"
  by (auto simp: sd_get_size_def sd_get_size_v1_def Let_def split: prod.splits if_splits)

lemma sd_read_csd_undetected:
  assumes "sd_read_csd s = (ok, s')" and "undetected s"
  shows "undetected s'"
proof -
  obtain r s1 where c: "sd_simple_command (9 + 0x40) s = (r, s1)" by (metis prod.exhaust)
  obtain st s2 where w: "sd_wait_for_start s1 = (st, s2)" by (metis prod.exhaust)
  obtain n s4 where g: "sd_get_size (sd_receive_block 18 s2) = (n, s4)" by (metis prod.exhaust)
  have s1: "undetected s1" using sd_simple_command_frame [OF c] undetected_info [OF assms(2)] by blast
  then have s2: "undetected s2" using sd_wait_for_start_frame [OF w] undetected_info by blast
  then have "undetected (sd_receive_block 18 s2)"
    using sd_receive_block_frame [of s2 18] info_nbD(1) [of "sd_receive_block 18 s2" s2]
    by (simp add: undetected_def)
  then have "undetected s4" using sd_get_size_frame [OF g] by (simp add: undetected_def)
  with s1 s2 show ?thesis
    using assms c w g by (auto simp: sd_read_csd_def undetected_def split: if_splits)
qed

lemma sd_read_undetected: "sd_read n s = (r, s') \<Longrightarrow> undetected s \<Longrightarrow> undetected s'"
  using sd_read_frame [of n s r s'] info_nbD(1) [of s' s] by (auto simp: undetected_def)

lemma sd_find_partition_undetected:
  assumes "sd_find_partition s = (ok, s')" and "undetected s"
  shows "undetected s'"
proof -
  obtain r s1 where r1: "sd_read 0 s = (r, s1)" by (metis prod.exhaust)
  define s2 where "s2 = s1\<lparr>sdi_part_offset := le32 (sdi_block s1) 454,
    sdi_part_size := le32 (sdi_block s1) 458\<rparr>"
  obtain r2 s3 where r2: "sd_read (sdi_part_offset s2) s2 = (r2, s3)" by (metis prod.exhaust)
  have s1: "undetected s1" using sd_read_undetected [OF r1 assms(2)] .
  then have "undetected s2" by (simp add: s2_def undetected_def)
  then have "undetected s3" using sd_read_undetected [OF r2] by blast
  with s1 show ?thesis
    using assms r1 r2 by (auto simp: sd_find_partition_def Let_def s2_def split: if_splits)
qed

lemma sd_detect_card_spec:
  assumes "length (sdi_block s) = 512" and "clock_advances (clk s)"
  shows "\<exists>v s'. sd_detect_card s = Some (v, s') \<and> undetected s' \<and>
    (\<forall>n. v = Some n \<longrightarrow> (n = 1 \<or> n = 2) \<and> sd_geometry s' \<and> sdi_cache_mode s' = SD_C_EMPTY)"
proof -
  define s2 where "s2 = spi_sdcard_lower_cs (sd_wakeup
    (s\<lparr>sdi_detect := 0, sdi_sdhc := 0, sdi_part_offset := 0, sdi_part_size := 0\<rparr>))"
  have u2: "undetected s2" "clk s2 = clk s"
    using assms(1) infoD(1,3,14) [of s2 "s\<lparr>sdi_detect := 0, sdi_sdhc := 0, sdi_part_offset := 0, sdi_part_size := 0\<rparr>"]
    by (simp_all add: s2_def sd_wakeup_frame undetected_def)
  obtain base s3 where t3: "sys_clock s2 = (base, s3)" by (metis prod.exhaust)
  have u3: "undetected s3" "clk s3 = clk s"
    using sys_clock_frame [OF t3] undetected_info [OF u2(1)] infoD(14) [of s3 s2] u2 by auto
  obtain k where "clk_pos s3 \<le> k" "SD_INIT_TIMEOUT \<le> clk s3 k - base"
    using assms(2) u3(2) by (auto simp: clock_advances_def)
  from sd_reset_loop_returns [OF this] obtain up s4 where l4: "sd_reset_loop base s3 = Some (up, s4)"
    and i4: "card_info s4 = card_info s3" by blast
  have u4: "undetected s4" "clk s4 = clk s" using undetected_info [OF u3(1) i4] infoD(14) [OF i4] u3 by auto
  obtain v s5 where v5: "sd_check_version s4 = (v, s5)" by (metis prod.exhaust)
  note f5 = sd_check_version_frame [OF v5]
  have u5: "undetected s5" "clk s5 = clk s"
    using undetected_info [OF u4(1)] f5 infoD(14) [of s5 s4] u4 by auto
  obtain base2 s6 where t6: "sys_clock s5 = (base2, s6)" by (metis prod.exhaust)
  have u6: "undetected s6" "clk s6 = clk s"
    using sys_clock_frame [OF t6] undetected_info [OF u5(1)] infoD(14) [of s6 s5] u5 by auto
  obtain k2 where "clk_pos s6 \<le> k2" "SD_INIT_TIMEOUT \<le> clk s6 k2 - base2"
    using assms(2) u6(2) by (auto simp: clock_advances_def)
  from sd_init_loop_returns [OF this] obtain up2 s7 where l7: "sd_init_loop (the v) base2 s6 = Some (up2, s7)"
    and i7: "card_info s7 = card_info s6" by blast
  have u7: "undetected s7" using undetected_info [OF u6(1) i7] .
  obtain o8 s8 o9 s9 o10 s10 o11 s11 where st: "sd_check_sdhc (the v) s7 = (o8, s8)"
    "sd_read_csd s8 = (o9, s9)" "sd_find_partition s9 = (o10, s10)" "sd_parse_bpb s10 = (o11, s11)"
    by (metis prod.exhaust)
  have u8: "undetected s8" using sd_check_sdhc_undetected [OF st(1) u7] .
  have u9: "undetected s9" using sd_read_csd_undetected [OF st(2) u8] .
  have u10: "undetected s10" using sd_find_partition_undetected [OF st(3) u9] .
  have u11: "undetected s11" "o11 \<Longrightarrow> sd_geometry s11 \<and> sdi_cache_mode s11 = SD_C_EMPTY"
    using sd_parse_bpb_geometry [OF st(4)] u10 by (auto simp: undetected_def)
  note steps = s2_def [symmetric] t3 l4 v5 t6 l7 st
  show ?thesis
  proof (cases v)
    case None
    then show ?thesis using u4 u5 by (auto simp: sd_detect_card_def steps)
  next
    case (Some n)
    then show ?thesis
      using u4 u5 u7 u8 u9 u10 u11 f5 steps
      by (auto simp: sd_detect_card_def Let_def)
  qed
qed

lemma sd_check_existing_frame:
  assumes "sd_check_existing s = (ex, s')"
  shows "card_info s' = card_info s" and "ex \<Longrightarrow> spi_cs s' \<and> sdi_detect s \<noteq> 0"
proof -
  obtain r s1 where c: "sd_simple_command (10 + 0x40) (spi_sdcard_lower_cs s) = (r, s1)" by (metis prod.exhaust)
  obtain st s2 where w: "sd_wait_for_start s1 = (st, s2)" by (metis prod.exhaust)
  show "card_info s' = card_info s" and "ex \<Longrightarrow> spi_cs s' \<and> sdi_detect s \<noteq> 0"
    using assms sd_simple_command_frame [OF c] sd_wait_for_start_frame [OF w] c w
    by (auto simp: sd_check_existing_def split: if_splits)
qed

text \<open>
  C27. Card detection, for every sequence of bytes a card may send and every clock that advances:
  \<^verbatim>\<open>sd_detect\<close> terminates with the chip select released, and its three results mean what they say.
  A new card leaves a consistent volume geometry (the cluster size is two to the cluster shift, at
  most 128 blocks; the second FAT follows the first, the data area follows the second, and the
  cluster count is the data area in clusters) and an empty cache; no card leaves the card marked
  absent; an existing card leaves everything as it was.
\<close>

theorem sd_detect_correct:
  assumes "length (sdi_block s) = SD_BLKSIZE" and "clock_advances (clk s)"
  shows "\<exists>r s'. sd_detect s = Some (r, s') \<and> spi_cs s' \<and> length (sdi_block s') = SD_BLKSIZE \<and>
    (r = SD_DETECT_NEW \<and> (sdi_detect s' = 1 \<or> sdi_detect s' = 2) \<and> sd_geometry s' \<and>
       sdi_cache_mode s' = SD_C_EMPTY \<or>
     r = SD_DETECT_NONE \<and> sdi_detect s' = 0 \<or>
     r = SD_DETECT_EXISTING \<and> sdi_detect s \<noteq> 0 \<and> card_info s' = card_info s)"
proof -
  obtain ex s1 where e: "sd_check_existing s = (ex, s1)" by (metis prod.exhaust)
  note i1 = sd_check_existing_frame [OF e]
  have "length (sdi_block s1) = 512" "clock_advances (clk s1)"
    using assms infoD(3,14) [OF i1(1)] by auto
  from sd_detect_card_spec [OF this] obtain v s2 where d: "sd_detect_card s1 = Some (v, s2)"
    "undetected s2" "\<forall>n. v = Some n \<longrightarrow> (n = 1 \<or> n = 2) \<and> sd_geometry s2 \<and> sdi_cache_mode s2 = SD_C_EMPTY"
    by blast
  have "sd_geometry ((spi_sdcard_raise_cs s2)\<lparr>sdi_detect := n\<rparr>) = sd_geometry s2" for n
    by (simp add: sd_geometry_def spi_sdcard_raise_cs_def)
  then show ?thesis
    using e i1 d assms infoD(3) [OF i1(1)]
    by (cases ex; cases v) (auto simp: sd_detect_def undetected_def spi_sdcard_raise_cs_def)
qed

lemma clock_advances_ticks: "clock_advances of_nat"
  unfolding clock_advances_def
proof (intro allI)
  fix base :: u16 and pos
  have z: "(65536 :: u16) = 0" by code_simp
  have "(of_nat (65536 * pos) :: u16) = 0" by (simp only: of_nat_mult of_nat_numeral z mult_zero_left)
  then have "(of_nat (unat (base + 512) + 65536 * pos) :: u16) = base + 512"
    by (simp only: of_nat_add of_nat_unat ucast_id add_0_right)
  then show "\<exists>k. pos \<le> k \<and> SD_INIT_TIMEOUT \<le> (of_nat k :: u16) - base"
    by (intro exI [of _ "unat (base + 512) + 65536 * pos"]) simp
qed

theorem sd_detect_correct_witness:
  "\<exists>r s'. sd_detect test_sd = Some (r, s') \<and> spi_cs s' \<and> (r = SD_DETECT_NEW \<longrightarrow> sd_geometry s')"
  using sd_detect_correct [of test_sd] clock_advances_ticks by (auto simp: test_sd_def)

section \<open>The block cache\<close>

text \<open>
  C30. The one-block cache of \<^verbatim>\<open>sd_cache_read\<close>: a hit returns at once and touches neither the bus nor
  the buffer; success means the cache names the requested block; failure leaves the cache empty, so
  a half-read buffer is never taken for a block; and in every case the volume geometry is kept.
\<close>

theorem sd_cache_read_correct:
  assumes "sd_cache_read blknum s = (r, s')" and "length (sdi_block s) = SD_BLKSIZE"
  shows "(blknum = sdi_cache_block s \<and> sdi_cache_mode s \<noteq> SD_C_EMPTY \<longrightarrow> r = SD_R1_READY \<and> s' = s) \<and>
    (r = SD_R1_READY \<longrightarrow> sdi_cache_block s' = blknum \<and> sdi_cache_mode s' \<noteq> SD_C_EMPTY) \<and>
    (r \<noteq> SD_R1_READY \<longrightarrow> sdi_cache_mode s' = SD_C_EMPTY) \<and>
    length (sdi_block s') = SD_BLKSIZE \<and> sdi_detect s' = sdi_detect s \<and>
    sdi_cluster_size s' = sdi_cluster_size s \<and> sdi_cluster_offset s' = sdi_cluster_offset s"
proof (cases "blknum = sdi_cache_block s \<and> sdi_cache_mode s \<noteq> SD_C_EMPTY")
  case True
  then show ?thesis using assms by (simp add: sd_cache_read_def)
next
  case False
  define s1 where "s1 = (if sdi_cache_mode s \<noteq> SD_C_EMPTY
    then s\<lparr>sdi_cache_block := 0, sdi_cache_block2 := 0, sdi_cache_mode := SD_C_EMPTY\<rparr> else s)"
  obtain r2 s2 where rd: "sd_read blknum s1 = (r2, s2)" by (metis prod.exhaust)
  have len: "length (sdi_block s1) = 512" using assms(2) by (simp add: s1_def)
  note f = sd_read_frame [OF rd len]
  have "(r, s') = (if r2 \<noteq> SD_R1_READY then (r2, s2) else (SD_R1_READY,
      s2\<lparr>sdi_cache_block := blknum, sdi_cache_block2 := 0, sdi_cache_mode := SD_C_READ\<rparr>))"
    using assms(1) False rd by (auto simp: sd_cache_read_def sd_cache_flush_def s1_def split: if_splits)
  moreover have "sdi_cache_mode s1 = SD_C_EMPTY" by (simp add: s1_def)
  ultimately show ?thesis
    using False f info_nbD [of s2 s1] by (auto simp: s1_def split: if_splits)
qed

theorem sd_cache_read_correct_witness:
  "fst (sd_cache_read 7 (test_sd\<lparr>sdi_cache_block := 7, sdi_cache_mode := SD_C_READ\<rparr>)) = SD_R1_READY"
proof -
  let ?s = "test_sd\<lparr>sdi_cache_block := 7, sdi_cache_mode := SD_C_READ\<rparr>"
  have "length (sdi_block ?s) = SD_BLKSIZE" by (simp add: test_sd_def)
  from sd_cache_read_correct [of 7 ?s "fst (sd_cache_read 7 ?s)" "snd (sd_cache_read 7 ?s)", OF _ this]
  show ?thesis by simp
qed

section \<open>Two weaknesses of the protocol code\<close>

lemma spi_receive_eq:
  "spi_receive n s = (map (spi_rx s) [spi_pos s ..< spi_pos s + n], s\<lparr>spi_pos := spi_pos s + n\<rparr>)"
proof (induction n arbitrary: s)
  case (Suc n)
  show ?case
    using Suc.IH [of "s\<lparr>spi_pos := Suc (spi_pos s)\<rparr>"] upt_conv_Cons [of "spi_pos s" "spi_pos s + Suc n"]
    by (simp add: spi_receive_byte_def)
qed simp

lemma sd_wait_start_silent:
  assumes "\<forall>k \<ge> spi_pos s. spi_rx s k = 0xFF"
  shows "sd_wait_start_loop n s = (0xFF, s\<lparr>spi_pos := spi_pos s + n\<rparr>)"
  using assms
proof (induction n arbitrary: s)
  case (Suc n)
  then show ?case
    using Suc.IH [of "s\<lparr>spi_pos := Suc (spi_pos s)\<rparr>"] by (auto simp: spi_receive_byte_def)
qed simp

lemma sd_command_at:
  assumes "spi_rx s (spi_pos s) = 0xFF" and "spi_rx s (Suc (spi_pos s)) AND 0x80 = 0"
  shows "sd_command c s = (spi_rx s (Suc (spi_pos s)),
    s\<lparr>spi_tx := spi_tx s @ cc_cmd c # cc_arg_bytes c @ [cc_crc c], spi_pos := spi_pos s + 2\<rparr>)"
proof -
  have "sd_wait_ready 255 s = (True, s\<lparr>spi_pos := Suc (spi_pos s)\<rparr>)"
    using assms(1) by (simp add: numeral_eq_Suc spi_receive_byte_def)
  moreover have "sd_wait_response 255 t = (spi_rx t (spi_pos t), t\<lparr>spi_pos := Suc (spi_pos t)\<rparr>)"
    if "spi_rx t (spi_pos t) AND 0x80 = 0" for t
    using that by (simp add: numeral_eq_Suc spi_receive_byte_def)
  ultimately show ?thesis
    using assms(2) by (simp add: sd_command_def spi_send_def)
qed

lemma sd_wait_for_start_at:
  "spi_rx s (spi_pos s) \<noteq> 0xFF \<Longrightarrow>
   sd_wait_for_start s = (spi_rx s (spi_pos s), s\<lparr>spi_pos := Suc (spi_pos s)\<rparr>)"
  using sd_wait_start_loop.simps(2) [of 254 s] by (simp add: sd_wait_for_start_def spi_receive_byte_def)

text \<open>
  C37. A card that accepts a read command and then falls silent is not noticed:
  \<^verbatim>\<open>sd_wait_for_start\<close> reports its timeout as \<^verbatim>\<open>0xFF\<close>, its callers only treat zero as a failure, and
  \<^verbatim>\<open>sd_read\<close> returns success with a block of \<^verbatim>\<open>0xFF\<close> bytes that the card never sent.
\<close>

theorem sd_read_accepts_silent_card:
  assumes "spi_rx s (spi_pos s) = 0xFF" and "spi_rx s (Suc (spi_pos s)) = SD_R1_READY"
    and "\<forall>k \<ge> spi_pos s + 2. spi_rx s k = 0xFF" and "length (sdi_block s) = SD_BLKSIZE"
  shows "\<exists>s'. sd_read blknum s = (SD_R1_READY, s') \<and> sdi_block s' = replicate SD_BLKSIZE 0xFF"
proof -
  define n where "n = sd_adjust_block_number blknum s"
  define c where "c = \<lparr>cc_cmd = 17 OR 0x40, cc_arg_bytes = [byte n 3, byte n 2, byte n 1, byte n 0],
    cc_crc = 0\<rparr>"
  obtain s1 where s1: "sd_command c (spi_sdcard_lower_cs s) = (SD_R1_READY, s1)"
    "\<forall>k \<ge> spi_pos s1. spi_rx s1 k = 0xFF" "sdi_block s1 = sdi_block s"
    using sd_command_at [of "spi_sdcard_lower_cs s" c] assms(1-3)
    by (simp add: spi_sdcard_lower_cs_def)
  define s2 where "s2 = s1\<lparr>spi_pos := spi_pos s1 + 255\<rparr>"
  have "sd_wait_for_start s1 = (0xFF, s2)"
    using sd_wait_start_silent [OF s1(2)] by (simp add: sd_wait_for_start_def s2_def)
  moreover have "\<forall>k \<ge> spi_pos s2. spi_rx s2 k = 0xFF" using s1(2) by (simp add: s2_def)
  then have "map (spi_rx s2) [spi_pos s2 ..< spi_pos s2 + 512] = replicate 512 0xFF"
    by (intro replicate_eqI) auto
  then have "sdi_block (sd_receive_block 512 s2) = replicate 512 0xFF"
    using assms(4) s1(3) by (simp add: sd_receive_block_def spi_receive_eq s2_def)
  ultimately show ?thesis
    unfolding sd_read_def Let_def n_def [symmetric] c_def [symmetric] s1(1) by simp
qed

theorem sd_read_accepts_silent_card_witness:
  "\<exists>s'. sd_read 5 (test_sd\<lparr>spi_rx := (\<lambda>_. 0xFF)(1 := 0)\<rparr>) = (SD_R1_READY, s') \<and>
     sdi_block s' = replicate SD_BLKSIZE 0xFF"
  by (rule sd_read_accepts_silent_card) (simp_all add: test_sd_def)

text \<open>The bytes of a card that replaces one whose block 7 is cached: it rejects the identification
  command, initialises, and then returns a register of an unknown version.\<close>

definition swapped_card :: sdcard where
  "swapped_card = test_sd\<lparr>sdi_detect := 1, sdi_cache_block := 7, sdi_cache_mode := SD_C_READ,
     sdi_block := replicate 512 0x11,
     spi_rx := (\<lambda>n. ([0xFF, 0x04] @ replicate 10 0xFF @ [0xFF, 0x01, 0xFF, 0x05, 0xFF, 0x01, 0xFF, 0x00,
       0xFF, 0x00, 0xFE] @ replicate 18 0xC0) ! n)\<rparr>"

text \<open>
  C38. A failed detection leaves the cache marked valid: after the card was replaced by one that
  cannot be used, \<^verbatim>\<open>sd_detect\<close> reports no card, but the register bytes it read went into the block
  buffer while the cache still names the old block, so the next \<^verbatim>\<open>sd_cache_read\<close> of that block
  succeeds and hands out bytes that never were on either card.
\<close>

theorem sd_detect_failure_keeps_stale_cache:
  "\<exists>s'. sd_detect swapped_card = Some (SD_DETECT_NONE, s') \<and>
     sd_cache_read 7 s' = (SD_R1_READY, s') \<and> sdi_block s' \<noteq> sdi_block swapped_card"
proof -
  have ex: "sd_check_existing swapped_card = (False, swapped_card\<lparr>spi_pos := 2, spi_tx := [74, 0, 0, 0, 0, 0]\<rparr>)"
    by (simp add: sd_check_existing_def sd_simple_command_def sd_command_at spi_sdcard_lower_cs_def
      spi_sdcard_raise_cs_def swapped_card_def test_sd_def)
  define st where "st p k tx = swapped_card\<lparr>sdi_detect := 0, sdi_sdhc := 0, sdi_part_offset := 0,
    sdi_part_size := 0, spi_pos := p, clk_pos := k, spi_tx := tx, spi_cs := False\<rparr>" for p k tx
  have rx: "spi_rx (st p k tx) n = ([0xFF, 0x04] @ replicate 10 0xFF @ [0xFF, 0x01, 0xFF, 0x05, 0xFF, 0x01,
      0xFF, 0x00, 0xFF, 0x00, 0xFE] @ replicate 18 0xC0) ! n" for p k tx n
    by (simp add: st_def swapped_card_def)
  have cmd: "sd_command c (st p k tx) = (spi_rx (st p k tx) (Suc p),
      st (p + 2) k (tx @ cc_cmd c # cc_arg_bytes c @ [cc_crc c]))"
    if "spi_rx (st p k tx) p = 0xFF" "spi_rx (st p k tx) (Suc p) AND 0x80 = 0" for c p k tx
    using sd_command_at [of "st p k tx" c] that by (simp add: st_def)
  have clk: "sys_clock (st p k tx) = (of_nat k, st p (Suc k) tx)" for p k tx
    by (simp add: sys_clock_def st_def swapped_card_def test_sd_def)
  obtain tx where wake: "spi_sdcard_lower_cs (sd_wakeup (swapped_card\<lparr>spi_pos := 2,
      spi_tx := [74, 0, 0, 0, 0, 0], sdi_detect := 0, sdi_sdhc := 0, sdi_part_offset := 0,
      sdi_part_size := 0\<rparr>)) = st 12 0 tx"
    by (simp add: sd_wakeup_def spi_receive_eq spi_sdcard_lower_cs_def spi_sdcard_raise_cs_def st_def
      swapped_card_def test_sd_def)
  have reset: "\<exists>tx'. sd_reset_loop 0 (st 12 1 tx) = Some (True, st 14 1 tx')" for tx
    by (subst sd_reset_loop.simps) (auto simp: cmd rx nth_append)
  have version: "\<exists>tx'. sd_check_version (st 14 1 tx) = (Some 1, st 16 1 tx')" for tx
    by (auto simp: sd_check_version_def cmd rx nth_append)
  have init: "\<exists>tx'. sd_init_loop 1 b (st 16 2 tx) = Some (True, st 20 2 tx')" for b tx
    by (subst sd_init_loop.simps) (auto simp: sd_simple_command_def cmd rx nth_append)
  have start: "sd_wait_for_start (st 22 2 tx) = (0xFE, st 23 2 tx)" for tx
    using sd_wait_for_start_at [of "st 22 2 tx"] rx [of 22 2 tx 22] by (simp add: st_def nth_append)
  have csd: "\<exists>t. sd_read_csd (st 20 2 tx) = (False, t) \<and> sdi_block t ! 0 = 0xC0 \<and>
      sdi_cache_block t = 7 \<and> sdi_cache_mode t = SD_C_READ" for tx
  proof -
    have "sdi_block (sd_receive_block 18 (st 23 2 tx')) ! 0 = 0xC0" for tx'
      using rx [of 23 2 tx' 23] by (simp add: sd_receive_block_def spi_receive_eq st_def nth_append upt_conv_Cons)
    then show ?thesis
      by (simp add: sd_read_csd_def sd_simple_command_def cmd rx nth_append start sd_get_size_def)
        (simp add: sd_receive_block_def spi_receive_eq st_def swapped_card_def)
  qed
  obtain tx1 tx2 tx3 t where steps: "sd_reset_loop 0 (st 12 1 tx) = Some (True, st 14 1 tx1)"
    "sd_check_version (st 14 1 tx1) = (Some 1, st 16 1 tx2)"
    "sd_init_loop 1 1 (st 16 2 tx2) = Some (True, st 20 2 tx3)" "sd_read_csd (st 20 2 tx3) = (False, t)"
    and t: "sdi_block t ! 0 = 0xC0" "sdi_cache_block t = 7" "sdi_cache_mode t = SD_C_READ"
    using reset [of tx] version init [of 1] csd by metis
  have "sys_clock (st 16 1 tx2) = (1, st 16 2 tx2)"
    using clk [of 16 1 tx2] by (simp add: numeral_2_eq_2)
  then have "sd_detect_card (swapped_card\<lparr>spi_pos := 2, spi_tx := [74, 0, 0, 0, 0, 0]\<rparr>) = Some (None, t)"
    using steps clk [of 12 0 tx] by (simp add: sd_detect_card_def wake sd_check_sdhc_def)
  then obtain s' where s': "sd_detect swapped_card = Some (SD_DETECT_NONE, s')"
    "sdi_cache_block s' = 7" "sdi_cache_mode s' = SD_C_READ" "sdi_block s' ! 0 = 0xC0"
    using t by (simp add: sd_detect_def ex spi_sdcard_raise_cs_def)
  have "sdi_block swapped_card ! 0 = 0x11" by (simp add: swapped_card_def)
  with s' show ?thesis by (auto simp: sd_cache_read_def)
qed

end
