(* ===== verification/Kstate.thy ===== *)
theory Kstate
  imports Kheap Sdcard
begin

unbundle bit_operations_syntax

text \<open>
  The kernel's data: inodes, RAM file system entries, FAT bookkeeping, open files, processes and
  the record of all of the kernel's variables, followed by the buffer cache, the first half of
  \<^verbatim>\<open>os/kmalloc.c\<close>. A pointer to a buffer is the index of its slot in \<^verbatim>\<open>buffers\<close> plus one, a
  pointer to an open file the index of its slot in \<^verbatim>\<open>global_fd\<close> plus one, and 0 is NULL in
  both cases. A process pointer is the address of its block in user RAM.

  A buffer remembers what was last stored in it. Reading a buffer as anything else than
  what it holds, or after it was freed, is undefined behaviour: the typed accessors return
  \<^const>\<open>None\<close>.
\<close>

section \<open>Objects\<close>

type_synonym bptr = nat
type_synonym fptr = nat
type_synonym pptr = u16
type_synonym time_t = "32 word"

datatype inode_operations = Ramfs_operations | Fatfs_operations

text \<open>
  \<^verbatim>\<open>struct inode\<close>. The union at its end has two 16-bit cells. The first is \<^verbatim>\<open>fatfs_info\<close>,
  \<^verbatim>\<open>ramfs_file.data\<close>, \<^verbatim>\<open>ramfs_dir\<close> or \<^verbatim>\<open>device\<close>, the second \<^verbatim>\<open>ramfs_file.size\<close> or
  \<^verbatim>\<open>ramfs_mount\<close>.
\<close>

record inode =
  i_op :: "inode_operations option"
  i_count :: int
  i_mode :: mode_t
  i_mtime :: time_t
  i_u0 :: nat
  i_u1 :: nat

abbreviation ramfs_dir :: "inode \<Rightarrow> bptr" where "ramfs_dir \<equiv> i_u0"
abbreviation ramfs_mount :: "inode \<Rightarrow> bptr" where "ramfs_mount \<equiv> i_u1"
abbreviation ramfs_file_data :: "inode \<Rightarrow> bptr" where "ramfs_file_data \<equiv> i_u0"
abbreviation ramfs_file_size :: "inode \<Rightarrow> nat" where "ramfs_file_size \<equiv> i_u1"
abbreviation i_fatfs_info :: "inode \<Rightarrow> bptr" where "i_fatfs_info \<equiv> i_u0"
abbreviation i_device :: "inode \<Rightarrow> nat" where "i_device \<equiv> i_u0"

abbreviation (input) RAMFS_MAX_NAME :: nat where "RAMFS_MAX_NAME \<equiv> 13"
abbreviation (input) RAMFS_MAX_DATA :: nat where "RAMFS_MAX_DATA \<equiv> 16"

record ramfs_dirent =
  d_namelen :: u8
  d_name :: "char list"
  d_inode :: bptr
  d_next :: bptr

record ramfs_data =
  rd_data :: "char list"
  rd_next :: bptr

text \<open>\<^verbatim>\<open>struct fatfs_inode_info\<close>, with its two bit fields of 9 and 7 bits.\<close>

record fatfs_inode_info =
  fi_first_cluster :: u32
  fi_size :: u32
  fi_cluster :: u32
  fi_block :: u32
  fi_offset :: "9 word"
  fi_blocks_left :: "7 word"

text \<open>What a buffer holds. \<open>Buf_free\<close> is a buffer on the free list with its link.\<close>

datatype kmalloc_buffer =
    Buf_zero
  | Buf_free bptr
  | Buf_inode inode
  | Buf_dirent ramfs_dirent
  | Buf_data ramfs_data
  | Buf_fatinfo fatfs_inode_info

definition zero_inode :: inode where
  "zero_inode = \<lparr>i_op = None, i_count = 0, i_mode = 0, i_mtime = 0, i_u0 = 0, i_u1 = 0\<rparr>"

definition zero_dirent :: ramfs_dirent where
  "zero_dirent =
     \<lparr>d_namelen = 0, d_name = replicate RAMFS_MAX_NAME NUL, d_inode = 0, d_next = 0\<rparr>"

definition zero_data :: ramfs_data where
  "zero_data = \<lparr>rd_data = replicate RAMFS_MAX_DATA NUL, rd_next = 0\<rparr>"

definition zero_fatinfo :: fatfs_inode_info where
  "zero_fatinfo = \<lparr>fi_first_cluster = 0, fi_size = 0, fi_cluster = 0, fi_block = 0,
     fi_offset = 0, fi_blocks_left = 0\<rparr>"

text \<open>The operation tables of open files, and \<^verbatim>\<open>struct file\<close>.\<close>

datatype file_operations =
    Ramfs_dir_operations
  | Fatfs_dir_operations
  | Fatfs_file_operations
  | Dev_null_operations
  | Dev_zero_operations
  | Dev_full_operations
  | Basic_tty_operations
  | Raw_tty_operations

record kfile =
  f_count :: int
  f_flags :: flags_t
  f_mode :: mode_t
  f_op :: "file_operations option"
  f_inode :: bptr
  f_fatfs_info :: bptr
  f_posn :: u32

datatype proc_state =
    PROC_UNUSED | PROC_RUNNING | PROC_NOT_RUNNING | PROC_STOPPED_JOB_CONTROL
  | PROC_STOPPED_DEBUGGER | PROC_SLEEP | PROC_UNINT_SLEEP | PROC_ZOMBIE

abbreviation (input) PROC_ZP_SIZE :: nat where "PROC_ZP_SIZE \<equiv> 32"
abbreviation (input) PROC_KERNEL_ZP_SIZE :: nat where "PROC_KERNEL_ZP_SIZE \<equiv> 12"

record proc_context =
  ctx_S :: u8
  ctx_AX :: u16
  ctx_stack :: "u8 list"
  ctx_kstack :: u16
  ctx_kzp :: "u8 list"

text \<open>
  \<^verbatim>\<open>struct proc\<close>. Its queue pointers are kept with the queues; a semaphore is known
  by its number.
\<close>

record proc =
  p_context :: proc_context
  p_pid :: u8
  p_ppid :: u8
  p_state :: proc_state
  p_wait_sem :: "nat option"
  p_zp :: u16
  p_fd :: "fptr list"
  p_cloexec :: "u8 list"
  p_umask :: mode_t
  p_cwd :: "char list"
  p_argv :: u16

definition zero_proc :: proc where
  "zero_proc =
     \<lparr>p_context = \<lparr>ctx_S = 0, ctx_AX = 0, ctx_stack = replicate CONFIG_RETURN_STACK_SIZE 0,
        ctx_kstack = 0, ctx_kzp = replicate PROC_KERNEL_ZP_SIZE 0\<rparr>,
      p_pid = 0, p_ppid = 0, p_state = PROC_UNUSED, p_wait_sem = None, p_zp = 0,
      p_fd = replicate CONFIG_PROC_FD_MAX 0, p_cloexec = replicate CONFIG_PROC_FD_MAX 0,
      p_umask = 0, p_cwd = replicate CONFIG_PATH_MAX NUL, p_argv = 0\<rparr>"

section \<open>The kernel state\<close>

text \<open>
  The settings of \<^verbatim>\<open>target/*/mosnix/target.h\<close> that change what the kernel does.
\<close>

record target_config =
  CHRIN_ECHO :: bool
  CHROUT_LF_HANDLING :: bool
  CHROUT_NO_WAIT :: bool
  HAVE_SD :: bool

definition eater_target :: target_config where
  "eater_target = \<lparr>CHRIN_ECHO = False, CHROUT_LF_HANDLING = False, CHROUT_NO_WAIT = True,
     HAVE_SD = True\<rparr>"

definition sim_target :: target_config where
  "sim_target = \<lparr>CHRIN_ECHO = True, CHROUT_LF_HANDLING = True, CHROUT_NO_WAIT = False,
     HAVE_SD = False\<rparr>"

text \<open>
  The heads of the tail queues: \<^verbatim>\<open>runnable\<close> of \<^verbatim>\<open>os/sched.c\<close> and the waiters of each semaphore.
\<close>

datatype qhead = Runnable | Waiters nat

text \<open>
  All of the kernel's variables. The console input, like the bytes of the SD card, is an
  arbitrary stream read at a position, and so is the monotonic clock; what is sent to the
  console is collected in \<open>con_out\<close>.
\<close>

record kstate =
  target :: target_config
  buffers :: "bptr \<Rightarrow> kmalloc_buffer"
  free_buffers :: bptr
  root :: bptr
  global_fd :: "fptr \<Rightarrow> kfile"
  uheap :: user_heap
  process_table :: "pptr list"
  procs :: "pptr \<Rightarrow> proc"
  current_proc :: pptr
  zero_page :: "u16 \<Rightarrow> u8"
  queues :: "(qhead, pptr) tq_heap"
  sem_value :: "nat \<Rightarrow> u8"
  sd :: sdcard
  temp_path :: "char list"
  realtime :: "64 word"
  mono :: "nat \<Rightarrow> 64 word"
  mono_pos :: nat
  con_in :: "nat \<Rightarrow> int"
  con_pos :: nat
  con_out :: "char list"

section \<open>Typed access to buffers, files and processes\<close>

definition buf_ok :: "bptr \<Rightarrow> bool" where
  "buf_ok p \<longleftrightarrow> p \<noteq> 0 \<and> p \<le> CONFIG_NUM_BUFFERS"

definition get_inode :: "bptr \<Rightarrow> kstate \<Rightarrow> inode option" where
  "get_inode p s =
     (if buf_ok p then
        (case buffers s p of Buf_inode i \<Rightarrow> Some i | Buf_zero \<Rightarrow> Some zero_inode | _ \<Rightarrow> None)
      else None)"

definition get_dirent :: "bptr \<Rightarrow> kstate \<Rightarrow> ramfs_dirent option" where
  "get_dirent p s =
     (if buf_ok p then
        (case buffers s p of Buf_dirent d \<Rightarrow> Some d | Buf_zero \<Rightarrow> Some zero_dirent | _ \<Rightarrow> None)
      else None)"

definition get_data :: "bptr \<Rightarrow> kstate \<Rightarrow> ramfs_data option" where
  "get_data p s =
     (if buf_ok p then
        (case buffers s p of Buf_data d \<Rightarrow> Some d | Buf_zero \<Rightarrow> Some zero_data | _ \<Rightarrow> None)
      else None)"

definition get_fatinfo :: "bptr \<Rightarrow> kstate \<Rightarrow> fatfs_inode_info option" where
  "get_fatinfo p s =
     (if buf_ok p then
        (case buffers s p of Buf_fatinfo d \<Rightarrow> Some d | Buf_zero \<Rightarrow> Some zero_fatinfo | _ \<Rightarrow> None)
      else None)"

definition put_buf :: "bptr \<Rightarrow> kmalloc_buffer \<Rightarrow> kstate \<Rightarrow> kstate" where
  "put_buf p b s = s\<lparr>buffers := (buffers s)(p := b)\<rparr>"

abbreviation put_inode :: "bptr \<Rightarrow> inode \<Rightarrow> kstate \<Rightarrow> kstate" where
  "put_inode p i \<equiv> put_buf p (Buf_inode i)"

abbreviation put_dirent :: "bptr \<Rightarrow> ramfs_dirent \<Rightarrow> kstate \<Rightarrow> kstate" where
  "put_dirent p d \<equiv> put_buf p (Buf_dirent d)"

abbreviation put_fatinfo :: "bptr \<Rightarrow> fatfs_inode_info \<Rightarrow> kstate \<Rightarrow> kstate" where
  "put_fatinfo p d \<equiv> put_buf p (Buf_fatinfo d)"

text \<open>Read, change and write back an inode.\<close>

definition upd_inode :: "bptr \<Rightarrow> (inode \<Rightarrow> inode) \<Rightarrow> kstate \<Rightarrow> kstate option" where
  "upd_inode p f s = do { i \<leftarrow> get_inode p s; Some (put_inode p (f i) s) }"

definition file_ok :: "fptr \<Rightarrow> bool" where
  "file_ok f \<longleftrightarrow> f \<noteq> 0 \<and> f \<le> CONFIG_FD_MAX"

definition get_file :: "fptr \<Rightarrow> kstate \<Rightarrow> kfile option" where
  "get_file f s = (if file_ok f then Some (global_fd s f) else None)"

definition put_file :: "fptr \<Rightarrow> kfile \<Rightarrow> kstate \<Rightarrow> kstate" where
  "put_file f v s = s\<lparr>global_fd := (global_fd s)(f := v)\<rparr>"

definition get_proc :: "pptr \<Rightarrow> kstate \<Rightarrow> proc option" where
  "get_proc p s = (if p = 0 then None else Some (procs s p))"

definition put_proc :: "pptr \<Rightarrow> proc \<Rightarrow> kstate \<Rightarrow> kstate" where
  "put_proc p v s = s\<lparr>procs := (procs s)(p := v)\<rparr>"

text \<open>The process that \<^verbatim>\<open>current_proc\<close> points to.\<close>

definition cur :: "kstate \<Rightarrow> proc option" where
  "cur s = get_proc (current_proc s) s"

definition put_cur :: "proc \<Rightarrow> kstate \<Rightarrow> kstate" where
  "put_cur v s = put_proc (current_proc s) v s"

section \<open>The buffer cache\<close>

definition kmalloc_buf_push :: "bptr \<Rightarrow> kstate \<Rightarrow> kstate" where
  "kmalloc_buf_push p s = (put_buf p (Buf_free (free_buffers s)) s)\<lparr>free_buffers := p\<rparr>"

fun kmalloc_init_buffers :: "nat \<Rightarrow> kstate \<Rightarrow> kstate" where
  "kmalloc_init_buffers 0 s = s\<lparr>free_buffers := 0\<rparr>"
| "kmalloc_init_buffers (Suc n) s = kmalloc_buf_push (Suc n) (kmalloc_init_buffers n s)"

definition kmalloc_init :: "u16 \<Rightarrow> u16 \<Rightarrow> kstate \<Rightarrow> kstate" where
  "kmalloc_init user_space_ram_start user_space_ram_end s =
     (let s1 = kmalloc_init_buffers CONFIG_NUM_BUFFERS s in
      s1\<lparr>uheap := kmalloc_init_user user_space_ram_start user_space_ram_end (uheap s1)\<rparr>)"

definition kmalloc_buf_alloc :: "kstate \<Rightarrow> (bptr \<times> kstate) option" where
  "kmalloc_buf_alloc s =
     (let buf = free_buffers s in
      if buf = 0 then Some (0, s)
      else if \<not> buf_ok buf then None
      else (case buffers s buf of
              Buf_free nxt \<Rightarrow> Some (buf, put_buf buf Buf_zero (s\<lparr>free_buffers := nxt\<rparr>))
            | _ \<Rightarrow> None))"

definition kmalloc_buf_free :: "bptr \<Rightarrow> kstate \<Rightarrow> kstate option" where
  "kmalloc_buf_free buf s =
     (if buf = 0 then Some s
      else if \<not> buf_ok buf then None
      else (case buffers s buf of Buf_free _ \<Rightarrow> None | _ \<Rightarrow> Some (kmalloc_buf_push buf s)))"


section \<open>A machine at reset\<close>

text \<open>All memory cleared and a silent console, for concrete runs.\<close>

definition blank_file :: kfile where
  "blank_file = \<lparr>f_count = 0, f_flags = 0, f_mode = 0, f_op = None, f_inode = 0,
     f_fatfs_info = 0, f_posn = 0\<rparr>"

definition blank_state :: kstate where
  "blank_state =
     \<lparr>target = eater_target, buffers = (\<lambda>_. Buf_zero), free_buffers = 0, root = 0,
      global_fd = (\<lambda>_. blank_file),
      uheap = \<lparr>ub_next = (\<lambda>_. 0), ub_size = (\<lambda>_. 0), free_blocks = 0, user_ram = (\<lambda>_. NUL)\<rparr>,
      process_table = replicate CONFIG_PROC_MAX 0, procs = (\<lambda>_. zero_proc), current_proc = 0,
      zero_page = (\<lambda>_. 0),
      queues = \<lparr>tqh_first = (\<lambda>_. None), tqh_last = (\<lambda>_. Nowhere), tqe_next = (\<lambda>_. None),
        tqe_prev = (\<lambda>_. Nowhere)\<rparr>,
      sem_value = (\<lambda>_. 0), sd = test_sd, temp_path = replicate CONFIG_PATH_MAX NUL,
      realtime = 0, mono = (\<lambda>_. 0), mono_pos = 0, con_in = (\<lambda>_. - 1), con_pos = 0, con_out = []\<rparr>"

end
