(* ===== verification/Kbuf.thy ===== *)
theory Kbuf
  imports Kstate
begin

text \<open>
  Correctness of the buffer cache. The free list is a chain of links through the free
  buffers; the contract of a pool of buffers is a locale, with the bookkeeping of any sequence
  of requests proved in it, and the allocator of \<^verbatim>\<open>os/kmalloc.c\<close> is an instance.
\<close>

section \<open>The free list\<close>

fun free_path :: "(bptr \<Rightarrow> kmalloc_buffer) \<Rightarrow> bptr \<Rightarrow> bptr list \<Rightarrow> bool" where
  "free_path b p [] \<longleftrightarrow> p = 0"
| "free_path b p (x # xs) \<longleftrightarrow>
     p = x \<and> buf_ok x \<and> (case b x of Buf_free n \<Rightarrow> free_path b n xs | _ \<Rightarrow> False)"

definition is_free :: "kmalloc_buffer \<Rightarrow> bool" where
  "is_free b \<longleftrightarrow> (case b of Buf_free _ \<Rightarrow> True | _ \<Rightarrow> False)"

definition wf_buffers :: "kstate \<Rightarrow> bptr list \<Rightarrow> bool" where
  "wf_buffers s fl \<longleftrightarrow>
     free_path (buffers s) (free_buffers s) fl \<and> distinct fl \<and>
     (\<forall>p. buf_ok p \<longrightarrow> is_free (buffers s p) = (p \<in> set fl))"

lemma free_path_ok: "free_path b p xs \<Longrightarrow> x \<in> set xs \<Longrightarrow> buf_ok x \<and> is_free (b x)"
  by (induction xs arbitrary: p) (auto simp: is_free_def split: kmalloc_buffer.splits)

lemma free_path_cong:
  "(\<And>x. x \<in> set xs \<Longrightarrow> b' x = b x) \<Longrightarrow> free_path b' p xs = free_path b p xs"
proof (induction xs arbitrary: p)
  case (Cons a xs)
  then have "b' a = b a" "\<And>q. free_path b' q xs = free_path b q xs" by auto
  then show ?case by (simp split: kmalloc_buffer.split)
qed simp

lemma free_path_upd [simp]:
  "x \<notin> set xs \<Longrightarrow> free_path (b(x := v)) p xs = free_path b p xs"
  by (rule free_path_cong) auto

lemma wf_buffersD:
  assumes "wf_buffers s fl"
  shows "distinct fl" "\<And>p. p \<in> set fl \<Longrightarrow> buf_ok p"
    "\<And>p. buf_ok p \<Longrightarrow> is_free (buffers s p) = (p \<in> set fl)"
  using assms free_path_ok by (auto simp: wf_buffers_def)

lemma buf_ok_not_0: "buf_ok p \<Longrightarrow> p \<noteq> 0"
  by (simp add: buf_ok_def)

lemma wf_buffers_upd:
  assumes "wf_buffers s fl" and "p \<notin> set fl" and "\<not> is_free b"
  shows "wf_buffers (put_buf p b s) fl"
  using assms by (auto simp: wf_buffers_def put_buf_def)

lemma wf_buffers_other:
  "buffers s' = buffers s \<Longrightarrow> free_buffers s' = free_buffers s \<Longrightarrow> wf_buffers s' fl = wf_buffers s fl"
  by (simp add: wf_buffers_def)

section \<open>The allocator\<close>

lemma alloc_Nil: "wf_buffers s [] \<Longrightarrow> kmalloc_buf_alloc s = Some (0, s)"
  by (simp add: wf_buffers_def kmalloc_buf_alloc_def)

lemma alloc_Cons:
  assumes "wf_buffers s (p # fl)"
  obtains n where
    "kmalloc_buf_alloc s = Some (p, put_buf p Buf_zero (s\<lparr>free_buffers := n\<rparr>))"
    "wf_buffers (put_buf p Buf_zero (s\<lparr>free_buffers := n\<rparr>)) fl"
    "is_free (buffers s p)"
proof -
  from assms obtain n where n: "buffers s p = Buf_free n" "free_path (buffers s) n fl"
    and p: "free_buffers s = p" "buf_ok p" "p \<notin> set fl" "distinct fl"
    by (auto simp: wf_buffers_def split: kmalloc_buffer.splits)
  have "kmalloc_buf_alloc s = Some (p, put_buf p Buf_zero (s\<lparr>free_buffers := n\<rparr>))"
    using n p by (simp add: kmalloc_buf_alloc_def buf_ok_not_0)
  moreover have "wf_buffers (put_buf p Buf_zero (s\<lparr>free_buffers := n\<rparr>)) fl"
    using assms n p by (auto simp: wf_buffers_def put_buf_def is_free_def)
  moreover have "is_free (buffers s p)" using n by (simp add: is_free_def)
  ultimately show ?thesis by (rule that)
qed

lemma free_ok:
  assumes "wf_buffers s fl" and "buf_ok p" and "p \<notin> set fl"
  shows "kmalloc_buf_free p s = Some (kmalloc_buf_push p s)"
    and "wf_buffers (kmalloc_buf_push p s) (p # fl)"
proof -
  have nf: "\<not> is_free (buffers s p)" using assms by (simp add: wf_buffers_def)
  then show "kmalloc_buf_free p s = Some (kmalloc_buf_push p s)"
    using assms(2) by (auto simp: kmalloc_buf_free_def is_free_def buf_ok_not_0 split: kmalloc_buffer.splits)
  show "wf_buffers (kmalloc_buf_push p s) (p # fl)"
    using assms by (auto simp: wf_buffers_def kmalloc_buf_push_def put_buf_def is_free_def)
qed

lemma kmalloc_init_buffers_path:
  "n \<le> CONFIG_NUM_BUFFERS \<Longrightarrow>
   free_path (buffers (kmalloc_init_buffers n s)) (free_buffers (kmalloc_init_buffers n s)) (rev [1 ..< Suc n])"
proof (induction n)
  case (Suc n)
  have "rev [1 ..< Suc (Suc n)] = Suc n # rev [1 ..< Suc n]" by simp
  moreover have "Suc n \<notin> set (rev [1 ..< Suc n])" by simp
  ultimately show ?case
    using Suc unfolding kmalloc_init_buffers.simps kmalloc_buf_push_def put_buf_def
    by (simp only: free_path.simps free_path_upd kstate.simps fun_upd_same kmalloc_buffer.case
        refl simp_thms) (simp add: buf_ok_def)
qed simp

lemma kmalloc_init_wf:
  "wf_buffers (kmalloc_init lo hi s) (rev [1 ..< Suc CONFIG_NUM_BUFFERS])"
proof -
  let ?s = "kmalloc_init_buffers CONFIG_NUM_BUFFERS s" and ?fl = "rev [1 ..< Suc CONFIG_NUM_BUFFERS]"
  have path: "free_path (buffers ?s) (free_buffers ?s) ?fl"
    using kmalloc_init_buffers_path [of CONFIG_NUM_BUFFERS s] by simp
  have "wf_buffers ?s ?fl"
    unfolding wf_buffers_def
  proof (intro conjI allI impI)
    fix p assume "buf_ok p"
    then have "p \<in> set ?fl" by (auto simp: buf_ok_def)
    with path show "is_free (buffers ?s p) = (p \<in> set ?fl)" using free_path_ok by blast
  qed (use path in simp_all)
  then show ?thesis
    by (simp only: kmalloc_init_def Let_def) (simp add: wf_buffers_def)
qed

section \<open>The contract of a pool of buffers\<close>

datatype pool_op = Pool_alloc | Pool_free bptr

text \<open>
  A client's view: the buffers it holds, in the order it got them. A request to free is
  legal for a buffer the client holds.
\<close>

fun pool_run ::
  "('s \<Rightarrow> (bptr \<times> 's) option) \<Rightarrow> (bptr \<Rightarrow> 's \<Rightarrow> 's option) \<Rightarrow> pool_op list \<Rightarrow>
   's \<times> bptr list \<Rightarrow> ('s \<times> bptr list) option" where
  "pool_run alloc release [] (s, held) = Some (s, held)"
| "pool_run alloc release (Pool_alloc # ops) (s, held) =
     do { (p, s1) \<leftarrow> alloc s; pool_run alloc release ops (s1, if p = 0 then held else p # held) }"
| "pool_run alloc release (Pool_free p # ops) (s, held) =
     (if p \<in> set held
      then do { s1 \<leftarrow> release p s; pool_run alloc release ops (s1, remove1 p held) }
      else pool_run alloc release ops (s, held))"

locale buffer_pool =
  fixes alloc :: "'s \<Rightarrow> (bptr \<times> 's) option"
    and release :: "bptr \<Rightarrow> 's \<Rightarrow> 's option"
    and inv :: "'s \<Rightarrow> bptr list \<Rightarrow> bool"
  assumes inv_distinct: "inv s fl \<Longrightarrow> distinct fl"
    and inv_bound: "inv s fl \<Longrightarrow> set fl \<subseteq> {1 .. CONFIG_NUM_BUFFERS}"
    and alloc_none: "inv s [] \<Longrightarrow> alloc s = Some (0, s)"
    and alloc_some: "inv s (p # fl) \<Longrightarrow> \<exists>s'. alloc s = Some (p, s') \<and> inv s' fl"
    and release_ok: "inv s fl \<Longrightarrow> p \<in> {1 .. CONFIG_NUM_BUFFERS} \<Longrightarrow> p \<notin> set fl \<Longrightarrow>
      \<exists>s'. release p s = Some s' \<and> inv s' (p # fl)"
begin

definition pool_ok :: "'s \<Rightarrow> bptr list \<Rightarrow> bool" where
  "pool_ok s held \<longleftrightarrow>
     (\<exists>fl. inv s fl \<and> distinct (fl @ held) \<and> set (fl @ held) = {1 .. CONFIG_NUM_BUFFERS})"

lemma pool_run_ok:
  "pool_ok s held \<Longrightarrow> \<exists>s' held'. pool_run alloc release ops (s, held) = Some (s', held') \<and> pool_ok s' held'"
proof (induction ops arbitrary: s held)
  case (Cons opn ops)
  obtain fl where fl: "inv s fl" "distinct (fl @ held)" "set (fl @ held) = {1 .. CONFIG_NUM_BUFFERS}"
    using Cons.prems by (auto simp: pool_ok_def)
  show ?case
  proof (cases opn)
    case Pool_alloc
    show ?thesis
    proof (cases fl)
      case Nil
      then show ?thesis using Cons.IH [OF Cons.prems] fl alloc_none Pool_alloc by simp
    next
      case (Cons p fl')
      then obtain s' where s': "alloc s = Some (p, s')" "inv s' fl'"
        using fl alloc_some by blast
      have "p \<in> {1 .. CONFIG_NUM_BUFFERS}" using fl(3) Cons by (metis append_Cons list.set_intros(1))
      then have "p \<noteq> 0" by simp
      moreover have "distinct (fl' @ p # held)" "set (fl' @ p # held) = {1 .. CONFIG_NUM_BUFFERS}"
        using fl(2,3) Cons by auto
      then have "pool_ok s' (p # held)" using s' unfolding pool_ok_def by blast
      ultimately show ?thesis using Cons.IH Pool_alloc s'(1) by simp
    qed
  next
    case (Pool_free p)
    show ?thesis
    proof (cases "p \<in> set held")
      case True
      then have "p \<in> {1 .. CONFIG_NUM_BUFFERS}" "p \<notin> set fl" using fl by auto
      then obtain s' where s': "release p s = Some s'" "inv s' (p # fl)"
        using release_ok [OF fl(1)] by blast
      have "distinct ((p # fl) @ remove1 p held)" "set ((p # fl) @ remove1 p held) = {1 .. CONFIG_NUM_BUFFERS}"
        using fl True \<open>p \<notin> set fl\<close> by (auto simp: set_remove1_eq)
      then have "pool_ok s' (remove1 p held)" using s'(2) unfolding pool_ok_def by blast
      then show ?thesis using Cons.IH Pool_free True s'(1) by simp
    qed (use Cons Pool_free in simp)
  qed
qed simp

end

interpretation kbuf: buffer_pool kmalloc_buf_alloc kmalloc_buf_free wf_buffers
proof unfold_locales
  fix s fl assume wf: "wf_buffers s fl"
  show "distinct fl" using wf by (rule wf_buffersD)
  show "set fl \<subseteq> {1 .. CONFIG_NUM_BUFFERS}" using wf_buffersD(2) [OF wf] by (force simp: buf_ok_def)
  fix p assume "p \<in> {1 .. CONFIG_NUM_BUFFERS}" and new: "p \<notin> set fl"
  then have "buf_ok p" by (simp add: buf_ok_def)
  then show "\<exists>s'. kmalloc_buf_free p s = Some s' \<and> wf_buffers s' (p # fl)"
    using free_ok [OF wf _ new] by blast
next
  show "wf_buffers s [] \<Longrightarrow> kmalloc_buf_alloc s = Some (0, s)" for s by (rule alloc_Nil)
  show "wf_buffers s (p # fl) \<Longrightarrow> \<exists>s'. kmalloc_buf_alloc s = Some (p, s') \<and> wf_buffers s' fl" for s p fl
    by (erule alloc_Cons) blast
qed

text \<open>
  C20. After \<^verbatim>\<open>kmalloc_init\<close>, every sequence of \<^verbatim>\<open>kmalloc_buf_alloc\<close> and
  \<^verbatim>\<open>kmalloc_buf_free\<close> calls that frees only buffers its client holds runs without undefined
  behaviour. At every point the buffers handed out are pairwise distinct, lie inside
  the array, are disjoint from the free list, and together with it make up all
  \<^verbatim>\<open>CONFIG_NUM_BUFFERS\<close> buffers: none is lost and none is handed out twice.
\<close>

theorem kmalloc_buf_sequences:
  "\<exists>s' held fl. pool_run kmalloc_buf_alloc kmalloc_buf_free ops (kmalloc_init lo hi s, []) = Some (s', held) \<and>
     wf_buffers s' fl \<and> distinct (fl @ held) \<and> set (fl @ held) = {1 .. CONFIG_NUM_BUFFERS}"
proof -
  let ?fl = "rev [1 ..< Suc CONFIG_NUM_BUFFERS]"
  have "kbuf.pool_ok (kmalloc_init lo hi s) []"
    using kmalloc_init_wf [of lo hi s] unfolding kbuf.pool_ok_def
    by (intro exI [of _ ?fl]) auto
  from kbuf.pool_run_ok [OF this, of ops] show ?thesis
    by (auto simp: kbuf.pool_ok_def)
qed

end
