(* ===== verification/Ksched.thy ===== *)
theory Ksched
  imports Kbuf
begin

unbundle bit_operations_syntax

text \<open>
  The scheduler \<^verbatim>\<open>os/sched.c\<close> and the semaphores \<^verbatim>\<open>os/sem.c\<close>, over the tail queues
  of \<^verbatim>\<open>sys/queue.h\<close>. A kernel function that gives up the processor does not return to its
  caller at once: its outcome is the process that runs instead. The sections after the
  operations give the invariant that ties the queues to the states of the processes, show that
  every operation keeps it, and lift it to all reachable states of a step relation.
\<close>

section \<open>Scheduler\<close>

text \<open>
  How a kernel function ends: it returns a value to its caller, it switches to a process (the
  caller goes on, with the same value, when it is switched back to), or the system halts.
\<close>

datatype outcome = Returned int | Switched pptr int | Halted

definition sched_init :: "kstate \<Rightarrow> kstate" where
  "sched_init s = s\<lparr>queues := TAILQ_INIT Runnable (queues s)\<rparr>"

definition sched_set_runnable :: "pptr \<Rightarrow> kstate \<Rightarrow> kstate option" where
  "sched_set_runnable proc s =
     do { p \<leftarrow> get_proc proc s;
          if p_state p \<noteq> PROC_RUNNING then
            (let s1 = put_proc proc (p\<lparr>p_state := PROC_RUNNING\<rparr>) s in
             do { q \<leftarrow> TAILQ_INSERT_TAIL Runnable proc (queues s1);
                  Some (s1\<lparr>queues := q\<rparr>) })
          else Some s }"

definition sched_remove_runnable :: "pptr \<Rightarrow> kstate \<Rightarrow> kstate option" where
  "sched_remove_runnable proc s =
     do { p \<leftarrow> get_proc proc s;
          if p_state p = PROC_RUNNING then
            (let s1 = put_proc proc (p\<lparr>p_state := PROC_NOT_RUNNING\<rparr>) s in
             do { q \<leftarrow> TAILQ_REMOVE Runnable proc (queues s1);
                  Some (s1\<lparr>queues := q\<rparr>) })
          else Some s }"

text \<open>
  \<^verbatim>\<open>schedule\<close>: the result of \<^verbatim>\<open>proc_switch_to\<close>, the value that the other
  process left in \<^verbatim>\<open>context.AX\<close>, is dropped, and the function always returns 0. The message that
  is printed before the system halts is not modelled.
\<close>

definition schedule :: "kstate \<Rightarrow> outcome \<times> kstate" where
  "schedule s =
     (case TAILQ_FIRST Runnable (queues s) of
        None \<Rightarrow> (Halted, s)
      | Some p \<Rightarrow>
          if p = current_proc s then (Returned 0, s)
          else (Switched p 0, s\<lparr>current_proc := p\<rparr>))"

definition sys_sched_yield :: "kstate \<Rightarrow> int \<times> kstate" where
  "sys_sched_yield s = (0, s)"

section \<open>Semaphores\<close>

definition sem_init :: "nat \<Rightarrow> u8 \<Rightarrow> kstate \<Rightarrow> kstate" where
  "sem_init sem init_value s =
     (let s1 = s\<lparr>sem_value := (sem_value s)(sem := init_value)\<rparr> in
      s1\<lparr>queues := TAILQ_INIT (Waiters sem) (queues s1)\<rparr>)"

text \<open>Take a process off a semaphore's queue with a result and make it runnable.\<close>

definition sem_unblock :: "nat \<Rightarrow> pptr \<Rightarrow> u16 \<Rightarrow> kstate \<Rightarrow> kstate option" where
  "sem_unblock sem p ax s =
     do { q \<leftarrow> TAILQ_REMOVE (Waiters sem) p (queues s);
          v \<leftarrow> get_proc p s;
          let s1 = put_proc p (v\<lparr>p_context := (p_context v)\<lparr>ctx_AX := ax\<rparr>, p_wait_sem := None\<rparr>)
                     (s\<lparr>queues := q\<rparr>);
          sched_set_runnable p s1 }"

definition sem_wakeup :: "nat \<Rightarrow> kstate \<Rightarrow> kstate option" where
  "sem_wakeup sem s =
     (case TAILQ_FIRST (Waiters sem) (queues s) of
        Some p \<Rightarrow> sem_unblock sem p 0 s
      | None \<Rightarrow> Some (s\<lparr>sem_value := (sem_value s)(sem := 1)\<rparr>))"

definition sem_signal :: "nat \<Rightarrow> kstate \<Rightarrow> kstate option" where
  "sem_signal sem s =
     (let val = sem_value s sem in
      if val = 0 then sem_wakeup sem s
      else Some (s\<lparr>sem_value := (sem_value s)(sem := val + 1)\<rparr>))"

definition sem_signal_monitor :: "nat \<Rightarrow> kstate \<Rightarrow> kstate option" where
  "sem_signal_monitor sem s =
     (if sem_value s sem = 0 then sem_wakeup sem s else Some s)"

definition sem_signal_isr :: "nat \<Rightarrow> kstate \<Rightarrow> kstate" where
  "sem_signal_isr sem s = s"

definition sem_wait :: "nat \<Rightarrow> kstate \<Rightarrow> (outcome \<times> kstate) option" where
  "sem_wait sem s =
     (let val = sem_value s sem in
      if val \<noteq> 0 then Some (Returned 0, s\<lparr>sem_value := (sem_value s)(sem := val - 1)\<rparr>)
      else
        (let p = current_proc s in
         do { s1 \<leftarrow> sched_remove_runnable p s;
              q \<leftarrow> TAILQ_INSERT_TAIL (Waiters sem) p (queues s1);
              let s2 = s1\<lparr>queues := q\<rparr>;
              v \<leftarrow> get_proc p s2;
              let s3 = put_proc p (v\<lparr>p_wait_sem := Some sem, p_state := PROC_SLEEP\<rparr>) s2;
              Some (schedule s3) }))"

definition sem_wait_timed :: "nat \<Rightarrow> u32 \<Rightarrow> kstate \<Rightarrow> (outcome \<times> kstate) option" where
  "sem_wait_timed sem timeout s = sem_wait sem s"

partial_function (option) sem_interrupt :: "nat \<Rightarrow> kstate \<Rightarrow> kstate option" where [code]:
  "sem_interrupt sem s =
     (case TAILQ_FIRST (Waiters sem) (queues s) of
        Some p \<Rightarrow> do { s1 \<leftarrow> sem_unblock sem p (word_of_int (- EINTR)) s; sem_interrupt sem s1 }
      | None \<Rightarrow> Some s)"

section \<open>The invariant of the queues\<close>

text \<open>
  \<open>P\<close> is the set of processes, \<open>S\<close> the set of initialised semaphores and \<open>f\<close> the lists that the
  queues represent. A process is on the run queue exactly when it is running and among the
  waiters of a semaphore exactly when it sleeps on it; a semaphore with waiters has value 0.
\<close>

definition heads :: "nat set \<Rightarrow> qhead set" where
  "heads S = insert Runnable (Waiters ` S)"

definition sched_wf :: "pptr set \<Rightarrow> nat set \<Rightarrow> (qhead \<Rightarrow> pptr list) \<Rightarrow> kstate \<Rightarrow> bool" where
  "sched_wf P S f s \<longleftrightarrow>
     fam tq_list (queues s) (heads S) f \<and> 0 \<notin> P \<and>
     (\<forall>p. p \<in> set (f Runnable) \<longleftrightarrow> p \<in> P \<and> p_state (procs s p) = PROC_RUNNING) \<and>
     (\<forall>m \<in> S. \<forall>p. p \<in> set (f (Waiters m)) \<longleftrightarrow>
        p \<in> P \<and> p_state (procs s p) = PROC_SLEEP \<and> p_wait_sem (procs s p) = Some m) \<and>
     (\<forall>m \<in> S. sem_value s m \<noteq> 0 \<longrightarrow> f (Waiters m) = [])"

lemma heads_simps [simp]: "Runnable \<in> heads S" "Waiters m \<in> heads S \<longleftrightarrow> m \<in> S"
  by (auto simp: heads_def)

lemma sched_wfD:
  assumes "sched_wf P S f s"
  shows "fam tq_list (queues s) (heads S) f" "0 \<notin> P"
    "p \<in> set (f Runnable) \<longleftrightarrow> p \<in> P \<and> p_state (procs s p) = PROC_RUNNING"
    "m \<in> S \<Longrightarrow> p \<in> set (f (Waiters m)) \<longleftrightarrow>
       p \<in> P \<and> p_state (procs s p) = PROC_SLEEP \<and> p_wait_sem (procs s p) = Some m"
    "m \<in> S \<Longrightarrow> sem_value s m \<noteq> 0 \<Longrightarrow> f (Waiters m) = []"
  using assms by (auto simp: sched_wf_def)

lemma sched_wf_on_queue:
  assumes "sched_wf P S f s" and "h \<in> heads S" and "p \<in> set (f h)"
  shows "p \<in> P" "p_state (procs s p) = (if h = Runnable then PROC_RUNNING else PROC_SLEEP)"
  using assms by (auto simp: sched_wf_def heads_def)

text \<open>The invariant for all processes but one, which is on no queue.\<close>

definition sched_off :: "pptr set \<Rightarrow> nat set \<Rightarrow> (qhead \<Rightarrow> pptr list) \<Rightarrow> kstate \<Rightarrow> pptr \<Rightarrow> bool" where
  "sched_off P S f s p \<longleftrightarrow>
     fam tq_list (queues s) (heads S) f \<and> 0 \<notin> P \<and> p \<in> P \<and>
     (\<forall>h \<in> heads S. p \<notin> set (f h)) \<and>
     (\<forall>q. q \<noteq> p \<longrightarrow> q \<in> set (f Runnable) \<longleftrightarrow> q \<in> P \<and> p_state (procs s q) = PROC_RUNNING) \<and>
     (\<forall>m \<in> S. \<forall>q. q \<noteq> p \<longrightarrow> q \<in> set (f (Waiters m)) \<longleftrightarrow>
        q \<in> P \<and> p_state (procs s q) = PROC_SLEEP \<and> p_wait_sem (procs s q) = Some m) \<and>
     (\<forall>m \<in> S. sem_value s m \<noteq> 0 \<longrightarrow> f (Waiters m) = [])"

text \<open>Taking a process off a queue.\<close>

lemma sched_remove_off:
  assumes wf: "sched_wf P S f s" and h: "h \<in> heads S" and p: "p \<in> set (f h)"
  obtains q where "TAILQ_REMOVE h p (queues s) = Some q"
    and "\<And>v. sched_off P S (f(h := remove1 p (f h))) (put_proc p v (s\<lparr>queues := q\<rparr>)) p"
proof -
  note D = sched_wfD [OF wf]
  note pP = sched_wf_on_queue [OF wf h p]
  obtain q where q: "TAILQ_REMOVE h p (queues s) = Some q"
    "fam tq_list q (heads S) (f(h := remove1 p (f h)))"
    using tq.fam_remove [OF D(1) h p] by blast
  have dist: "distinct (f h)" using tq.fam_distinct [OF D(1) h] .
  have other: "p \<notin> set (f h')" if "h' \<in> heads S" "h' \<noteq> h" for h'
    using D(1) that h p by (auto simp: fam_def)
  have off: "\<forall>h' \<in> heads S. p \<notin> set ((f(h := remove1 p (f h))) h')"
    using other dist by auto
  have "sched_off P S (f(h := remove1 p (f h))) (put_proc p v (s\<lparr>queues := q\<rparr>)) p" for v
    unfolding sched_off_def using q(2) D(2) pP(1) off D(3) D(4,5)
    by (intro conjI allI impI ballI) (auto simp: put_proc_def)
  then show thesis using q(1) that by blast
qed

lemma sched_off_cong:
  assumes "sched_off P S f s p" and "queues s' = queues s" and "sem_value s' = sem_value s"
    and "\<And>q. q \<noteq> p \<Longrightarrow> procs s' q = procs s q"
  shows "sched_off P S f s' p"
  using assms by (simp add: sched_off_def)

text \<open>Putting a process that is on no queue on one, in the matching state.\<close>

lemma sched_off_insert:
  assumes off: "sched_off P S f s p" and h: "h \<in> heads S"
    and v: "case h of Runnable \<Rightarrow> p_state v = PROC_RUNNING
      | Waiters m \<Rightarrow> p_state v = PROC_SLEEP \<and> p_wait_sem v = Some m \<and> sem_value s m = 0"
  obtains q where "TAILQ_INSERT_TAIL h p (queues s) = Some q"
    and "sched_wf P S (f(h := f h @ [p])) (put_proc p v (s\<lparr>queues := q\<rparr>))"
proof -
  have fam: "fam tq_list (queues s) (heads S) f" and n: "\<forall>h' \<in> heads S. p \<notin> set (f h')"
    using off by (auto simp: sched_off_def)
  obtain q where q: "TAILQ_INSERT_TAIL h p (queues s) = Some q"
    "fam tq_list q (heads S) (f(h := f h @ [p]))"
    using tq.fam_insert [OF fam h n] by blast
  have "sched_wf P S (f(h := f h @ [p])) (put_proc p v (s\<lparr>queues := q\<rparr>))"
    using q(2) off h v by (cases h) (auto simp: sched_wf_def sched_off_def put_proc_def)
  then show thesis using q(1) that by blast
qed

lemma sched_set_runnable_wf:
  assumes off: "sched_off P S f s p" and st: "p_state (procs s p) \<noteq> PROC_RUNNING"
  obtains q where "sched_set_runnable p s =
      Some (put_proc p ((procs s p)\<lparr>p_state := PROC_RUNNING\<rparr>) (s\<lparr>queues := q\<rparr>))"
    and "sched_wf P S (f(Runnable := f Runnable @ [p]))
      (put_proc p ((procs s p)\<lparr>p_state := PROC_RUNNING\<rparr>) (s\<lparr>queues := q\<rparr>))"
proof -
  have p0: "p \<noteq> 0" using off by (auto simp: sched_off_def)
  obtain q where q: "TAILQ_INSERT_TAIL Runnable p (queues s) = Some q"
    "sched_wf P S (f(Runnable := f Runnable @ [p]))
      (put_proc p ((procs s p)\<lparr>p_state := PROC_RUNNING\<rparr>) (s\<lparr>queues := q\<rparr>))"
    using sched_off_insert [OF off heads_simps(1), of "(procs s p)\<lparr>p_state := PROC_RUNNING\<rparr>"] by auto
  have "sched_set_runnable p s =
      Some (put_proc p ((procs s p)\<lparr>p_state := PROC_RUNNING\<rparr>) (s\<lparr>queues := q\<rparr>))"
    using q(1) st p0 by (simp add: sched_set_runnable_def get_proc_def put_proc_def)
  with q(2) show thesis by (intro that)
qed

text \<open>Taking a waiter off its semaphore and making it runnable.\<close>

lemma sem_unblock_wf:
  assumes wf: "sched_wf P S f s" and m: "m \<in> S" and p: "p \<in> set (f (Waiters m))"
  obtains s' where "sem_unblock m p ax s = Some s'"
    and "sched_wf P S (f(Waiters m := remove1 p (f (Waiters m)), Runnable := f Runnable @ [p])) s'"
    and "sem_value s' = sem_value s" and "current_proc s' = current_proc s"
    and "\<forall>q. q \<noteq> p \<longrightarrow> procs s' q = procs s q"
    and "procs s' p = (procs s p)\<lparr>p_context := (p_context (procs s p))\<lparr>ctx_AX := ax\<rparr>,
      p_wait_sem := None, p_state := PROC_RUNNING\<rparr>"
proof -
  have h: "Waiters m \<in> heads S" using m by simp
  note pP = sched_wf_on_queue [OF wf h p]
  have p0: "p \<noteq> 0" using sched_wfD(2) [OF wf] pP by auto
  let ?v = "(procs s p)\<lparr>p_context := (p_context (procs s p))\<lparr>ctx_AX := ax\<rparr>, p_wait_sem := None\<rparr>"
  obtain q where q: "TAILQ_REMOVE (Waiters m) p (queues s) = Some q"
    "sched_off P S (f(Waiters m := remove1 p (f (Waiters m)))) (put_proc p ?v (s\<lparr>queues := q\<rparr>)) p"
    using sched_remove_off [OF wf h p] by blast
  let ?s1 = "put_proc p ?v (s\<lparr>queues := q\<rparr>)"
  have "p_state (procs ?s1 p) \<noteq> PROC_RUNNING" using pP by (simp add: put_proc_def)
  then obtain q' where q': "sched_set_runnable p ?s1 =
      Some (put_proc p ((procs ?s1 p)\<lparr>p_state := PROC_RUNNING\<rparr>) (?s1\<lparr>queues := q'\<rparr>))"
    "sched_wf P S (f(Waiters m := remove1 p (f (Waiters m)), Runnable := f Runnable @ [p]))
      (put_proc p ((procs ?s1 p)\<lparr>p_state := PROC_RUNNING\<rparr>) (?s1\<lparr>queues := q'\<rparr>))"
    by (rule sched_set_runnable_wf [OF q(2)]) (rule that, assumption, simp only: fun_upd_other qhead.distinct not_False_eq_True)
  have "sem_unblock m p ax s =
      Some (put_proc p ((procs ?s1 p)\<lparr>p_state := PROC_RUNNING\<rparr>) (?s1\<lparr>queues := q'\<rparr>))"
    using q(1) q'(1) p0 by (simp add: sem_unblock_def get_proc_def)
  then show thesis using q'(2) by (rule that) (simp_all add: put_proc_def)
qed

lemma sem_value_wf:
  "sched_wf P S f s \<Longrightarrow> (m \<in> S \<Longrightarrow> v \<noteq> 0 \<Longrightarrow> f (Waiters m) = []) \<Longrightarrow>
   sched_wf P S f (s\<lparr>sem_value := (sem_value s)(m := v)\<rparr>)"
  by (auto simp: sched_wf_def)

lemma sem_first:
  "sched_wf P S f s \<Longrightarrow> m \<in> S \<Longrightarrow>
   TAILQ_FIRST (Waiters m) (queues s) = (case f (Waiters m) of [] \<Rightarrow> None | p # _ \<Rightarrow> Some p)"
  by (rule tq.fam_first [OF sched_wfD(1)]) auto

lemma runnable_first:
  "sched_wf P S f s \<Longrightarrow>
   TAILQ_FIRST Runnable (queues s) = (case f Runnable of [] \<Rightarrow> None | p # _ \<Rightarrow> Some p)"
  by (rule tq.fam_first [OF sched_wfD(1)]) auto

text \<open>The effect of a wakeup on the lists, the values and the woken process.\<close>

lemma sem_wakeup_wf:
  assumes wf: "sched_wf P S f s" and m: "m \<in> S"
  shows "\<exists>s'. sem_wakeup m s = Some s' \<and> current_proc s' = current_proc s \<and>
    (case f (Waiters m) of
       [] \<Rightarrow> s' = s\<lparr>sem_value := (sem_value s)(m := 1)\<rparr> \<and> sched_wf P S f s'
     | p # ws \<Rightarrow> sched_wf P S (f(Waiters m := ws, Runnable := f Runnable @ [p])) s' \<and>
         sem_value s' = sem_value s \<and> (\<forall>q. q \<noteq> p \<longrightarrow> procs s' q = procs s q) \<and>
         procs s' p = (procs s p)\<lparr>p_context := (p_context (procs s p))\<lparr>ctx_AX := 0\<rparr>,
           p_wait_sem := None, p_state := PROC_RUNNING\<rparr>)"
proof (cases "f (Waiters m)")
  case Nil
  then show ?thesis using sem_first [OF wf m] sem_value_wf [OF wf, of m 1] by (simp add: sem_wakeup_def)
next
  case (Cons p ws)
  then have "p \<in> set (f (Waiters m))" by simp
  then obtain s' where "sem_unblock m p 0 s = Some s'"
    and "sched_wf P S (f(Waiters m := ws, Runnable := f Runnable @ [p])) s'"
    and "sem_value s' = sem_value s" "current_proc s' = current_proc s"
    and "\<forall>q. q \<noteq> p \<longrightarrow> procs s' q = procs s q"
    and "procs s' p = (procs s p)\<lparr>p_context := (p_context (procs s p))\<lparr>ctx_AX := 0\<rparr>,
      p_wait_sem := None, p_state := PROC_RUNNING\<rparr>"
    by (rule sem_unblock_wf [OF wf m, where ax = 0]) (rule that, simp_all only: Cons remove1.simps if_True refl not_False_eq_True simp_thms)
  moreover have "sem_wakeup m s = sem_unblock m p 0 s"
    using sem_first [OF wf m] Cons by (simp add: sem_wakeup_def)
  ultimately show ?thesis unfolding Cons list.case by (intro exI conjI) simp_all
qed

section \<open>The operations on the lists\<close>

text \<open>
  What the scheduler and the semaphores do, stated on lists: the run queue and the queue of
  waiters of each semaphore, the values of the semaphores, and the current process.
\<close>

record asched =
  a_queue :: "qhead \<Rightarrow> pptr list"
  a_value :: "nat \<Rightarrow> u8"
  a_current :: pptr

datatype sem_event = Ev_wait nat | Ev_signal nat | Ev_monitor nat | Ev_interrupt nat | Ev_schedule

definition a_wakeup :: "nat \<Rightarrow> asched \<Rightarrow> asched" where
  "a_wakeup m a =
     (case a_queue a (Waiters m) of
        [] \<Rightarrow> a\<lparr>a_value := (a_value a)(m := 1)\<rparr>
      | p # ws \<Rightarrow> a\<lparr>a_queue := (a_queue a)(Waiters m := ws, Runnable := a_queue a Runnable @ [p])\<rparr>)"

definition a_schedule :: "asched \<Rightarrow> outcome \<times> asched" where
  "a_schedule a =
     (case a_queue a Runnable of
        [] \<Rightarrow> (Halted, a)
      | p # _ \<Rightarrow> if p = a_current a then (Returned 0, a) else (Switched p 0, a\<lparr>a_current := p\<rparr>))"

fun a_exec :: "sem_event \<Rightarrow> asched \<Rightarrow> outcome \<times> asched" where
  "a_exec (Ev_wait m) a =
     (if a_value a m \<noteq> 0 then (Returned 0, a\<lparr>a_value := (a_value a)(m := a_value a m - 1)\<rparr>)
      else a_schedule (a\<lparr>a_queue := (a_queue a)
             (Runnable := remove1 (a_current a) (a_queue a Runnable),
              Waiters m := a_queue a (Waiters m) @ [a_current a])\<rparr>))"
| "a_exec (Ev_signal m) a =
     (Returned 0, if a_value a m = 0 then a_wakeup m a
                  else a\<lparr>a_value := (a_value a)(m := a_value a m + 1)\<rparr>)"
| "a_exec (Ev_monitor m) a = (Returned 0, if a_value a m = 0 then a_wakeup m a else a)"
| "a_exec (Ev_interrupt m) a =
     (Returned 0, a\<lparr>a_queue := (a_queue a)
        (Waiters m := [], Runnable := a_queue a Runnable @ a_queue a (Waiters m))\<rparr>)"
| "a_exec Ev_schedule a = a_schedule a"

text \<open>The same events on the kernel state.\<close>

fun sem_exec :: "sem_event \<Rightarrow> kstate \<Rightarrow> (outcome \<times> kstate) option" where
  "sem_exec (Ev_wait m) s = sem_wait m s"
| "sem_exec (Ev_signal m) s = map_option (Pair (Returned 0)) (sem_signal m s)"
| "sem_exec (Ev_monitor m) s = map_option (Pair (Returned 0)) (sem_signal_monitor m s)"
| "sem_exec (Ev_interrupt m) s = map_option (Pair (Returned 0)) (sem_interrupt m s)"
| "sem_exec Ev_schedule s = Some (schedule s)"

fun ev_sems :: "sem_event \<Rightarrow> nat set" where
  "ev_sems (Ev_wait m) = {m}"
| "ev_sems (Ev_signal m) = {m}"
| "ev_sems (Ev_monitor m) = {m}"
| "ev_sems (Ev_interrupt m) = {m}"
| "ev_sems Ev_schedule = {}"

text \<open>The kernel state represents the lists; the current process is runnable.\<close>

definition sched_rel :: "pptr set \<Rightarrow> nat set \<Rightarrow> kstate \<Rightarrow> asched \<Rightarrow> bool" where
  "sched_rel P S s a \<longleftrightarrow>
     sched_wf P S (a_queue a) s \<and> sem_value s = a_value a \<and> current_proc s = a_current a \<and>
     a_current a \<in> set (a_queue a Runnable)"

lemma sem_wakeup_refines:
  assumes "sched_rel P S s a" and "m \<in> S"
  shows "\<exists>s'. sem_wakeup m s = Some s' \<and> sched_rel P S s' (a_wakeup m a)"
proof -
  have wf: "sched_wf P S (a_queue a) s" using assms by (simp add: sched_rel_def)
  show ?thesis
    using sem_wakeup_wf [OF wf assms(2)] assms
    by (cases "a_queue a (Waiters m)") (auto simp: sched_rel_def a_wakeup_def)
qed

lemma sem_signal_refines:
  assumes "sched_rel P S s a" and "m \<in> S"
  shows "\<exists>s'. sem_signal m s = Some s' \<and> sched_rel P S s' (snd (a_exec (Ev_signal m) a))"
proof (cases "a_value a m = 0")
  case True
  then show ?thesis using sem_wakeup_refines [OF assms] assms
    by (simp add: sem_signal_def sched_rel_def)
next
  case False
  have wf: "sched_wf P S (a_queue a) s" and v: "sem_value s = a_value a"
    using assms by (simp_all add: sched_rel_def)
  have "a_queue a (Waiters m) = []" using sched_wfD(5) [OF wf assms(2)] False v by simp
  then have "sched_wf P S (a_queue a) (s\<lparr>sem_value := (sem_value s)(m := sem_value s m + 1)\<rparr>)"
    by (intro sem_value_wf [OF wf])
  then show ?thesis using False assms v by (simp add: sem_signal_def sched_rel_def Let_def)
qed

lemma sem_monitor_refines:
  assumes "sched_rel P S s a" and "m \<in> S"
  shows "\<exists>s'. sem_signal_monitor m s = Some s' \<and> sched_rel P S s' (snd (a_exec (Ev_monitor m) a))"
  using sem_wakeup_refines [OF assms] assms by (auto simp: sem_signal_monitor_def sched_rel_def)

lemma sem_interrupt_refines:
  assumes "sched_rel P S s a" and "m \<in> S"
  shows "\<exists>s'. sem_interrupt m s = Some s' \<and> sched_rel P S s' (snd (a_exec (Ev_interrupt m) a))"
  using assms(1)
proof (induction "a_queue a (Waiters m)" arbitrary: s a)
  case Nil
  then have wf: "sched_wf P S (a_queue a) s" by (simp add: sched_rel_def)
  have "sem_interrupt m s = Some s"
    using sem_first [OF wf assms(2)] Nil.hyps [symmetric] by (subst sem_interrupt.simps) simp
  moreover have "snd (a_exec (Ev_interrupt m) a) = a"
    using Nil.hyps by (simp add: fun_upd_idem)
  ultimately show ?case using Nil.prems by simp
next
  case (Cons p ws)
  then have wf: "sched_wf P S (a_queue a) s" by (simp add: sched_rel_def)
  have p: "p \<in> set (a_queue a (Waiters m))" using Cons.hyps(2) [symmetric] by simp
  let ?f = "(a_queue a)(Waiters m := ws, Runnable := a_queue a Runnable @ [p])"
  obtain s1 where s1: "sem_unblock m p (word_of_int (- EINTR)) s = Some s1" "sched_wf P S ?f s1"
    "sem_value s1 = sem_value s" "current_proc s1 = current_proc s"
    by (rule sem_unblock_wf [OF wf assms(2) p, where ax = "word_of_int (- EINTR)"])
      (simp add: Cons.hyps(2) [symmetric] that)
  then have rel: "sched_rel P S s1 (a\<lparr>a_queue := ?f\<rparr>)" using Cons.prems by (simp add: sched_rel_def)
  have "sem_interrupt m s = sem_interrupt m s1"
    using sem_first [OF wf assms(2)] Cons.hyps(2) [symmetric] s1(1)
    by (subst sem_interrupt.simps) simp
  moreover have "snd (a_exec (Ev_interrupt m) (a\<lparr>a_queue := ?f\<rparr>)) = snd (a_exec (Ev_interrupt m) a)"
    using Cons.hyps(2) [symmetric] by (simp add: fun_upd_twist)
  ultimately show ?case using Cons.hyps(1) [OF _ rel] by simp
qed


lemma schedule_refines:
  assumes "sched_wf P S (a_queue a) s" and "sem_value s = a_value a" and "current_proc s = a_current a"
  shows "fst (schedule s) = fst (a_schedule a)"
    and "fst (a_schedule a) \<noteq> Halted \<Longrightarrow> sched_rel P S (snd (schedule s)) (snd (a_schedule a))"
proof -
  have *: "TAILQ_FIRST Runnable (queues s) = (case a_queue a Runnable of [] \<Rightarrow> None | p # _ \<Rightarrow> Some p)"
    using runnable_first [OF assms(1)] .
  show "fst (schedule s) = fst (a_schedule a)"
    using * assms(3) by (auto simp: schedule_def a_schedule_def split: list.splits)
  have "sched_wf P S (a_queue a) (s\<lparr>current_proc := p\<rparr>)" for p
    using assms(1) by (simp add: sched_wf_def)
  then show "fst (a_schedule a) \<noteq> Halted \<Longrightarrow> sched_rel P S (snd (schedule s)) (snd (a_schedule a))"
    using * assms by (auto simp: schedule_def a_schedule_def sched_rel_def split: list.splits)
qed

text \<open>Blocking the current process.\<close>

lemma sem_block_wf:
  assumes wf: "sched_wf P S f s" and m: "m \<in> S" and cur: "current_proc s \<in> set (f Runnable)"
    and zero: "sem_value s m = 0"
  obtains s3 where "sem_wait m s = Some (schedule s3)"
    and "sched_wf P S (f(Runnable := remove1 (current_proc s) (f Runnable),
           Waiters m := f (Waiters m) @ [current_proc s])) s3"
    and "sem_value s3 = sem_value s" and "current_proc s3 = current_proc s"
proof -
  let ?p = "current_proc s" and ?f = "f(Runnable := remove1 (current_proc s) (f Runnable))"
  note pP = sched_wf_on_queue [OF wf heads_simps(1) cur]
  have p0: "?p \<noteq> 0" using sched_wfD(2) [OF wf] pP by auto
  let ?v = "(procs s ?p)\<lparr>p_state := PROC_NOT_RUNNING\<rparr>"
  let ?w = "?v\<lparr>p_wait_sem := Some m, p_state := PROC_SLEEP\<rparr>"
  obtain q where q: "TAILQ_REMOVE Runnable ?p (queues s) = Some q"
    "sched_off P S ?f (put_proc ?p ?v (s\<lparr>queues := q\<rparr>)) ?p"
    using sched_remove_off [OF wf heads_simps(1) cur] by blast
  let ?s1 = "put_proc ?p ?v (s\<lparr>queues := q\<rparr>)"
  have h: "Waiters m \<in> heads S" using m by simp
  obtain q' where q': "TAILQ_INSERT_TAIL (Waiters m) ?p (queues ?s1) = Some q'"
    "sched_wf P S (?f(Waiters m := ?f (Waiters m) @ [?p])) (put_proc ?p ?w (?s1\<lparr>queues := q'\<rparr>))"
    by (rule sched_off_insert [OF q(2) h, where v = ?w]) (simp_all add: put_proc_def zero)
  have "sched_remove_runnable ?p s = Some ?s1"
    using q(1) pP p0 by (simp add: sched_remove_runnable_def get_proc_def put_proc_def)
  then have "sem_wait m s = Some (schedule (put_proc ?p ?w (?s1\<lparr>queues := q'\<rparr>)))"
    using q'(1) zero p0 by (simp add: sem_wait_def get_proc_def put_proc_def Let_def)
  then show thesis by (rule that) (use q'(2) in \<open>simp_all add: put_proc_def\<close>)
qed

lemma sem_wait_refines:
  assumes rel: "sched_rel P S s a" and m: "m \<in> S"
  shows "\<exists>s'. sem_wait m s = Some (fst (a_exec (Ev_wait m) a), s') \<and>
    (fst (a_exec (Ev_wait m) a) \<noteq> Halted \<longrightarrow> sched_rel P S s' (snd (a_exec (Ev_wait m) a)))"
proof (cases "a_value a m = 0")
  case True
  have wf: "sched_wf P S (a_queue a) s" and v: "sem_value s = a_value a"
    and c: "current_proc s = a_current a" "current_proc s \<in> set (a_queue a Runnable)"
    using rel by (simp_all add: sched_rel_def)
  let ?a = "a\<lparr>a_queue := (a_queue a)(Runnable := remove1 (a_current a) (a_queue a Runnable),
              Waiters m := a_queue a (Waiters m) @ [a_current a])\<rparr>"
  obtain s3 where s3: "sem_wait m s = Some (schedule s3)" "sched_wf P S (a_queue ?a) s3"
    "sem_value s3 = a_value ?a" "current_proc s3 = a_current ?a"
    by (rule sem_block_wf [OF wf m c(2)]) (simp_all add: True v c)
  show ?thesis
    using s3(1) schedule_refines [OF s3(2-4)] True by (cases "schedule s3") simp
next
  case False
  have wf: "sched_wf P S (a_queue a) s" and v: "sem_value s = a_value a"
    using rel by (simp_all add: sched_rel_def)
  have "a_queue a (Waiters m) = []" using sched_wfD(5) [OF wf m] False v by simp
  then have "sched_wf P S (a_queue a) (s\<lparr>sem_value := (sem_value s)(m := sem_value s m - 1)\<rparr>)"
    by (intro sem_value_wf [OF wf])
  then show ?thesis using False rel v by (simp add: sem_wait_def sched_rel_def Let_def)
qed

lemma sem_exec_refines:
  assumes "sched_rel P S s a" and "ev_sems e \<subseteq> S"
  shows "\<exists>s'. sem_exec e s = Some (fst (a_exec e a), s') \<and>
    (fst (a_exec e a) \<noteq> Halted \<longrightarrow> sched_rel P S s' (snd (a_exec e a)))"
proof (cases e)
  case (Ev_wait m)
  then show ?thesis using sem_wait_refines [OF assms(1), of m] assms(2) by simp
next
  case (Ev_signal m)
  then show ?thesis using sem_signal_refines [OF assms(1), of m] assms(2) by auto
next
  case (Ev_monitor m)
  then show ?thesis using sem_monitor_refines [OF assms(1), of m] assms(2) by auto
next
  case (Ev_interrupt m)
  then show ?thesis using sem_interrupt_refines [OF assms(1), of m] assms(2) by auto
next
  case Ev_schedule
  then show ?thesis using schedule_refines [of P S a s] assms(1)
    by (cases "schedule s") (auto simp: sched_rel_def)
qed

text \<open>Sequences of events, up to a halt of the system.\<close>

fun sem_run :: "sem_event list \<Rightarrow> kstate \<Rightarrow> (outcome list \<times> kstate) option" where
  "sem_run [] s = Some ([], s)"
| "sem_run (e # es) s =
     do { (r, s1) \<leftarrow> sem_exec e s;
          if r = Halted then Some ([r], s1)
          else do { (rs, s2) \<leftarrow> sem_run es s1; Some (r # rs, s2) } }"

fun a_run :: "sem_event list \<Rightarrow> asched \<Rightarrow> outcome list \<times> asched" where
  "a_run [] a = ([], a)"
| "a_run (e # es) a =
     (let (r, a1) = a_exec e a in
      if r = Halted then ([r], a1) else (let (rs, a2) = a_run es a1 in (r # rs, a2)))"

lemma sem_run_simulates:
  assumes "sched_rel P S s a" and "\<forall>e \<in> set es. ev_sems e \<subseteq> S"
  shows "\<exists>s'. sem_run es s = Some (fst (a_run es a), s') \<and>
    (Halted \<notin> set (fst (a_run es a)) \<longrightarrow> sched_rel P S s' (snd (a_run es a)))"
  using assms
proof (induction es arbitrary: s a)
  case (Cons e es)
  obtain r a1 where ra: "a_exec e a = (r, a1)" by (cases "a_exec e a")
  obtain s1 where s1: "sem_exec e s = Some (r, s1)" "r \<noteq> Halted \<longrightarrow> sched_rel P S s1 a1"
    using sem_exec_refines [OF Cons.prems(1), of e] Cons.prems(2) ra by auto
  show ?case
  proof (cases "r = Halted")
    case True
    then show ?thesis using s1 ra by simp
  next
    case False
    then obtain s2 where "sem_run es s1 = Some (fst (a_run es a1), s2)"
      "Halted \<notin> set (fst (a_run es a1)) \<longrightarrow> sched_rel P S s2 (snd (a_run es a1))"
      using Cons.IH [of s1 a1] s1(2) Cons.prems(2) by auto
    then show ?thesis using False s1(1) ra by (simp split: prod.split) (metis fst_conv snd_conv)
  qed
qed simp


section \<open>Creating processes and semaphores\<close>

lemma sched_init_wf: "sched_wf {} {} (\<lambda>_. []) (sched_init s)"
  by (simp add: sched_wf_def sched_init_def fam_def heads_def tq_list_init)

lemma sem_init_wf:
  assumes wf: "sched_wf P S f s" and new: "m \<notin> S"
    and idle: "\<And>p. p \<in> P \<Longrightarrow> p_wait_sem (procs s p) \<noteq> Some m"
  shows "sched_wf P (insert m S) (f(Waiters m := [])) (sem_init m v s)"
proof -
  note D = sched_wfD [OF wf]
  have "insert (Waiters m) (heads S) = heads (insert m S)" by (auto simp: heads_def)
  then have "fam tq_list (TAILQ_INIT (Waiters m) (queues s)) (heads (insert m S)) (f(Waiters m := []))"
    using tq.fam_init [OF D(1), of "Waiters m"] by simp
  then show ?thesis using D(2-5) new idle by (auto simp: sched_wf_def sem_init_def)
qed

text \<open>A new process block, in any state but running, becomes runnable.\<close>

lemma sched_add_wf:
  assumes wf: "sched_wf P S f s" and p: "p \<noteq> 0" "p \<notin> P" "p_state (procs s p) \<noteq> PROC_RUNNING"
  obtains s' where "sched_set_runnable p s = Some s'"
    and "sched_wf (insert p P) S (f(Runnable := f Runnable @ [p])) s'"
    and "s' = put_proc p ((procs s p)\<lparr>p_state := PROC_RUNNING\<rparr>) (s\<lparr>queues := queues s'\<rparr>)"
proof -
  have "sched_off (insert p P) S f s p"
    using wf p by (auto simp: sched_off_def sched_wf_def heads_def)
  then obtain q where q: "sched_set_runnable p s =
      Some (put_proc p ((procs s p)\<lparr>p_state := PROC_RUNNING\<rparr>) (s\<lparr>queues := q\<rparr>))"
    "sched_wf (insert p P) S (f(Runnable := f Runnable @ [p]))
      (put_proc p ((procs s p)\<lparr>p_state := PROC_RUNNING\<rparr>) (s\<lparr>queues := q\<rparr>))"
    using sched_set_runnable_wf p(3) by blast
  then show thesis by (rule that) (simp add: put_proc_def)
qed


text \<open>Two processes and a semaphore of value 1, the first process running.\<close>

definition sched_demo :: "u8 \<Rightarrow> kstate option" where
  "sched_demo v =
     do { s1 \<leftarrow> sched_set_runnable 100 (sem_init 0 v (sched_init blank_state));
          s2 \<leftarrow> sched_set_runnable 200 s1;
          Some (s2\<lparr>current_proc := 100\<rparr>) }"

definition sched_demo_abs :: "u8 \<Rightarrow> asched" where
  "sched_demo_abs v =
     \<lparr>a_queue = (\<lambda>_. [])(Runnable := [100, 200]), a_value = (\<lambda>_. 0)(0 := v), a_current = 100\<rparr>"

lemma sched_demo_rel: "\<exists>s. sched_demo v = Some s \<and> sched_rel {100, 200} {0} s (sched_demo_abs v)"
proof -
  let ?s0 = "sem_init 0 v (sched_init blank_state)"
  have v0: "sem_value ?s0 = (\<lambda>_. 0)(0 := v)" "procs ?s0 = (\<lambda>_. zero_proc)"
    by (simp_all add: sem_init_def sched_init_def blank_state_def)
  have "sched_wf {} {0} ((\<lambda>_. [])(Waiters 0 := [])) ?s0"
    by (rule sem_init_wf [OF sched_init_wf]) simp_all
  then have wf0: "sched_wf {} {0} (\<lambda>_. []) ?s0" by (simp add: fun_upd_idem)
  obtain s1 where s1: "sched_set_runnable 100 ?s0 = Some s1"
    "sched_wf {100} {0} ((\<lambda>_. [])(Runnable := [100])) s1"
    "s1 = put_proc 100 ((procs ?s0 100)\<lparr>p_state := PROC_RUNNING\<rparr>) (?s0\<lparr>queues := queues s1\<rparr>)"
    by (rule sched_add_wf [OF wf0, of 100]) (simp_all add: v0 zero_proc_def)
  have v1: "sem_value s1 = sem_value ?s0" "procs s1 200 = zero_proc"
    by (subst s1(3); simp add: put_proc_def v0)+
  obtain s2 where s2: "sched_set_runnable 200 s1 = Some s2"
    "sched_wf {200, 100} {0} ((\<lambda>_. [])(Runnable := [100, 200])) s2"
    "s2 = put_proc 200 ((procs s1 200)\<lparr>p_state := PROC_RUNNING\<rparr>) (s1\<lparr>queues := queues s2\<rparr>)"
    by (rule sched_add_wf [OF s1(2), of 200]) (simp_all add: v1 zero_proc_def)
  have v2: "sem_value s2 = (\<lambda>_. 0)(0 := v)"
    by (subst s2(3)) (simp add: put_proc_def v1 v0)
  have "sched_wf {100, 200} {0} ((\<lambda>_. [])(Runnable := [100, 200])) (s2\<lparr>current_proc := 100\<rparr>)"
    using s2(2) by (simp add: sched_wf_def insert_commute)
  then show ?thesis using s1(1) s2(1) v2
    by (simp add: sched_demo_def sched_rel_def sched_demo_abs_def)
qed

section \<open>Properties\<close>

text \<open>
  C2. The scheduler and the semaphores refine their description on lists. From a kernel
  state whose queues represent the lists, every sequence of \<^verbatim>\<open>sem_wait\<close>,
  \<^verbatim>\<open>sem_signal\<close>, \<^verbatim>\<open>sem_signal_monitor\<close>, \<^verbatim>\<open>sem_interrupt\<close> and \<^verbatim>\<open>schedule\<close>
  calls on initialised semaphores runs without undefined behaviour (the loop of
  \<^verbatim>\<open>sem_interrupt\<close> ends), has the outcomes of the list operations, and unless the system
  halts ends in a state that represents the resulting lists: blocked processes wait in FIFO
  order, a signal hands over to the first waiter, and every process is on exactly the queue its
  state names.
\<close>

theorem sem_run_refines:
  assumes "sched_rel P S s a" and "\<forall>e \<in> set es. ev_sems e \<subseteq> S"
  shows "\<exists>s'. sem_run es s = Some (fst (a_run es a), s') \<and>
    (Halted \<notin> set (fst (a_run es a)) \<longrightarrow> sched_rel P S s' (snd (a_run es a)))"
  using assms by (rule sem_run_simulates)

theorem sem_run_refines_witness:
  "\<exists>s s'. sched_demo 1 = Some s \<and>
     sem_run [Ev_wait 0, Ev_wait 0, Ev_signal 0, Ev_schedule] s =
       Some ([Returned 0, Switched 200 0, Returned 0, Returned 0], s') \<and>
     sched_rel {100, 200} {0} s'
       \<lparr>a_queue = (\<lambda>_. [])(Runnable := [200, 100]), a_value = \<lambda>_. 0, a_current = 200\<rparr>"
proof -
  obtain s where s: "sched_demo 1 = Some s" "sched_rel {100, 200} {0} s (sched_demo_abs 1)"
    using sched_demo_rel by blast
  let ?es = "[Ev_wait 0, Ev_wait 0, Ev_signal 0, Ev_schedule]"
  have run: "a_run ?es (sched_demo_abs 1) = ([Returned 0, Switched 200 0, Returned 0, Returned 0],
      \<lparr>a_queue = (\<lambda>_. [])(Runnable := [200, 100]), a_value = \<lambda>_. 0, a_current = 200\<rparr>)"
    by (auto simp: sched_demo_abs_def a_schedule_def a_wakeup_def fun_upd_def)
  have "\<forall>e \<in> set ?es. ev_sems e \<subseteq> {0}" by simp
  from sem_run_refines [OF s(2) this] show ?thesis
    using s(1) unfolding run by - (rule exI [of _ s], simp del: sem_run.simps)
qed






















text \<open>
  C4. Every waiter is woken, in order. When a semaphore has waiters \<open>ws\<close>, then after
  as many signals as there are waiters (and no fewer are needed) exactly the first \<open>n\<close> of them
  have been moved, in FIFO order, to the end of the run queue, whatever was on it.
\<close>

theorem sem_signal_wakes_all:
  assumes "sched_rel P S s a" and "m \<in> S" and "a_value a m = 0"
    and "n \<le> length (a_queue a (Waiters m))"
  shows "\<exists>s'. sem_run (replicate n (Ev_signal m)) s = Some (replicate n (Returned 0), s') \<and>
    sched_rel P S s' (a\<lparr>a_queue := (a_queue a)
      (Waiters m := drop n (a_queue a (Waiters m)),
       Runnable := a_queue a Runnable @ take n (a_queue a (Waiters m)))\<rparr>)"
proof -
  have "a_value a m = 0 \<Longrightarrow> n \<le> length (a_queue a (Waiters m)) \<Longrightarrow>
    a_run (replicate n (Ev_signal m)) a = (replicate n (Returned 0), a\<lparr>a_queue := (a_queue a)
      (Waiters m := drop n (a_queue a (Waiters m)),
       Runnable := a_queue a Runnable @ take n (a_queue a (Waiters m)))\<rparr>)" for a
  proof (induction n arbitrary: a)
    case 0
    then show ?case by (simp add: fun_upd_idem)
  next
    case (Suc n)
    then obtain p ws where ws: "a_queue a (Waiters m) = p # ws" by (cases "a_queue a (Waiters m)") auto
    let ?a1 = "a\<lparr>a_queue := (a_queue a)(Waiters m := ws, Runnable := a_queue a Runnable @ [p])\<rparr>"
    have fn: "(a_queue ?a1)(Waiters m := drop n (a_queue ?a1 (Waiters m)),
        Runnable := a_queue ?a1 Runnable @ take n (a_queue ?a1 (Waiters m))) =
      (a_queue a)(Waiters m := drop (Suc n) (a_queue a (Waiters m)),
        Runnable := a_queue a Runnable @ take (Suc n) (a_queue a (Waiters m)))"
      by (rule ext) (simp add: ws)
    have "a_exec (Ev_signal m) a = (Returned 0, ?a1)" using Suc.prems ws by (simp add: a_wakeup_def)
    moreover have "a_run (replicate n (Ev_signal m)) ?a1 =
        (replicate n (Returned 0), ?a1\<lparr>a_queue := (a_queue a)
          (Waiters m := drop (Suc n) (a_queue a (Waiters m)),
           Runnable := a_queue a Runnable @ take (Suc n) (a_queue a (Waiters m)))\<rparr>)"
      using Suc.IH [of ?a1] Suc.prems ws unfolding fn by (simp add: fun_upd_def)
    ultimately show ?case unfolding replicate_Suc a_run.simps by (simp add: fun_upd_def del: a_exec.simps)
  qed
  from this [OF assms(3,4)] show ?thesis
    using sem_run_simulates [OF assms(1), of "replicate n (Ev_signal m)"] assms(2) by force
qed


theorem sem_signal_wakes_all_witness:
  "\<exists>s s1 s2. sched_demo 1 = Some s \<and> sem_run [Ev_wait 0, Ev_wait 0] s = Some ([Returned 0, Switched 200 0], s1) \<and>
     sem_run [Ev_signal 0] s1 = Some ([Returned 0], s2) \<and>
     sched_rel {100, 200} {0} s2
       \<lparr>a_queue = (\<lambda>_. [])(Runnable := [200, 100]), a_value = \<lambda>_. 0, a_current = 200\<rparr>"
proof -
  obtain s where s: "sched_demo 1 = Some s" "sched_rel {100, 200} {0} s (sched_demo_abs 1)"
    using sched_demo_rel by blast
  let ?a = "\<lparr>a_queue = (\<lambda>_. [])(Runnable := [200], Waiters 0 := [100]), a_value = \<lambda>_. 0, a_current = 200\<rparr>"
  let ?b = "\<lparr>a_queue = (\<lambda>_. [])(Runnable := [200, 100]), a_value = \<lambda>_. 0, a_current = 200\<rparr>"
  have run: "a_run [Ev_wait 0, Ev_wait 0] (sched_demo_abs 1) = ([Returned 0, Switched 200 0], ?a)"
    by (auto simp: sched_demo_abs_def a_schedule_def fun_upd_def)
  obtain s1 where s1: "sem_run [Ev_wait 0, Ev_wait 0] s = Some ([Returned 0, Switched 200 0], s1)"
    "sched_rel {100, 200} {0} s1 ?a"
    using sem_run_simulates [OF s(2), of "[Ev_wait 0, Ev_wait 0]"] unfolding run by auto
  have b: "?a\<lparr>a_queue := (a_queue ?a)(Waiters 0 := drop 1 (a_queue ?a (Waiters 0)),
      Runnable := a_queue ?a Runnable @ take 1 (a_queue ?a (Waiters 0)))\<rparr> = ?b"
    by (auto simp: fun_upd_def)
  have "\<exists>s2. sem_run (replicate 1 (Ev_signal 0)) s1 = Some (replicate 1 (Returned 0), s2) \<and>
      sched_rel {100, 200} {0} s2 ?b"
    using sem_signal_wakes_all [OF s1(2), of 0 1] unfolding b by simp
  then show ?thesis using s(1) s1(1) by (auto simp del: sem_run.simps)
qed

text \<open>Signals that find no process waiting add up modulo 256.\<close>

lemma a_signals_add:
  "a_queue a (Waiters m) = [] \<Longrightarrow> a_run (replicate n (Ev_signal m)) a =
     (replicate n (Returned 0), a\<lparr>a_value := (a_value a)(m := a_value a m + of_nat n)\<rparr>)"
proof (induction n arbitrary: a)
  case 0
  then show ?case by simp
next
  case (Suc n)
  let ?a1 = "a\<lparr>a_value := (a_value a)(m := a_value a m + 1)\<rparr>"
  have "a_exec (Ev_signal m) a = (Returned 0, ?a1)" using Suc.prems by (simp add: a_wakeup_def)
  then show ?case using Suc.IH [of ?a1] Suc.prems by (simp add: add.assoc fun_upd_same fun_upd_upd del: a_exec.simps fun_upd_apply)
qed

text \<open>
  C33. The value of a semaphore is an unsigned char and \<^verbatim>\<open>sem_signal\<close> does not saturate. From a
  semaphore of value 0 without waiters, 256 signals with no wait in between lead back to the value 0, so
  256 permits are lost: a process that then waits is blocked, although every one of the signals
  should have let one wait through.
\<close>

theorem sem_signal_wraps:
  assumes "sched_rel P S s a" and "m \<in> S" and "a_value a m = 0" and "a_queue a (Waiters m) = []"
    and "a_queue a Runnable = p # q # rest" and "a_current a = p"
  shows "\<exists>s1 s2. sem_run (replicate 256 (Ev_signal m)) s = Some (replicate 256 (Returned 0), s1) \<and>
    sem_value s1 m = 0 \<and>
    sem_wait m s1 = Some (Switched q 0, s2) \<and> p_state (procs s2 p) = PROC_SLEEP \<and>
    p_wait_sem (procs s2 p) = Some m"
proof -
  have wf: "sched_wf P S (a_queue a) s" using assms(1) by (simp add: sched_rel_def)
  have "distinct (a_queue a Runnable)" using tq.fam_distinct [OF sched_wfD(1) [OF wf]] by simp
  then have pq: "p \<noteq> q" using assms(5) by auto
  have "(of_nat 256 :: u8) = 0" by (simp add: word_unat_eq_iff unat_of_nat)
  then have run: "a_run (replicate 256 (Ev_signal m)) a = (replicate 256 (Returned 0), a)"
    using a_signals_add [OF assms(4), of 256] assms(3) by (simp del: of_nat_numeral add: fun_upd_idem)
  obtain s1 where s1: "sem_run (replicate 256 (Ev_signal m)) s = Some (replicate 256 (Returned 0), s1)"
      "sched_rel P S s1 a"
    using sem_run_simulates [OF assms(1), of "replicate 256 (Ev_signal m)"] assms(2) unfolding run by auto
  have ex: "a_exec (Ev_wait m) a = (Switched q 0, a\<lparr>a_queue := (a_queue a)
      (Runnable := q # rest, Waiters m := [p]), a_current := q\<rparr>)"
    using assms(3-6) pq by (simp add: a_schedule_def)
  obtain s2 where s2: "sem_wait m s1 = Some (Switched q 0, s2)"
      "sched_rel P S s2 (a\<lparr>a_queue := (a_queue a)(Runnable := q # rest, Waiters m := [p]), a_current := q\<rparr>)"
    using sem_wait_refines [OF s1(2) assms(2)] unfolding ex by auto
  have "sched_wf P S ((a_queue a)(Runnable := q # rest, Waiters m := [p])) s2"
    using s2(2) by (simp add: sched_rel_def)
  from sched_wfD(4) [OF this assms(2), of p]
  have "p_state (procs s2 p) = PROC_SLEEP" "p_wait_sem (procs s2 p) = Some m" by simp_all
  moreover have "sem_value s1 m = 0" using s1(2) assms(3) by (simp add: sched_rel_def)
  ultimately show ?thesis using s1(1) s2(1) by blast
qed

theorem sem_signal_wraps_witness:
  "\<exists>s s1 s2. sched_demo 0 = Some s \<and>
     sem_run (replicate 256 (Ev_signal 0)) s = Some (replicate 256 (Returned 0), s1) \<and> sem_value s1 0 = 0 \<and>
     sem_wait 0 s1 = Some (Switched 200 0, s2) \<and> p_wait_sem (procs s2 100) = Some 0"
proof -
  obtain s where s: "sched_demo 0 = Some s" "sched_rel {100, 200} {0} s (sched_demo_abs 0)"
    using sched_demo_rel by blast
  have "(0 :: nat) \<in> {0}" "a_value (sched_demo_abs 0) 0 = 0" "a_queue (sched_demo_abs 0) (Waiters 0) = []"
      "a_queue (sched_demo_abs 0) Runnable = 100 # 200 # []" "a_current (sched_demo_abs 0) = 100"
    by (simp_all add: sched_demo_abs_def)
  from sem_signal_wraps [OF s(2) this] show ?thesis using s(1) by blast
qed

end
