(* ===== verification/Kpath.thy ===== *)
theory Kpath
  imports Kutil
begin

text \<open>
  Pathname resolution, the first part of \<^verbatim>\<open>os/inode.c\<close>. The output buffer is an array
  that every store is checked against. The specification is a stack of
  components: resolving a pathname folds its components over the stack of the
  starting directory, and the buffer holds the rendering of the stack.
\<close>

section \<open>Operations\<close>

text \<open>The inner loop that skips the separators: the remaining pathname and \<^verbatim>\<open>isdir\<close>.\<close>

fun skip_slashes :: "char list \<Rightarrow> bool \<Rightarrow> char list \<times> bool" where
  "skip_slashes [] isdir = ([], isdir)"
| "skip_slashes (c # s) isdir =
     (if c = SLASH then skip_slashes s True else (c # s, isdir))"

text \<open>The inner loop that moves \<^verbatim>\<open>posn\<close> back to just after the previous slash.\<close>

fun strip_last :: "char list \<Rightarrow> nat \<Rightarrow> nat option" where
  "strip_last out 0 = Some 0"
| "strip_last out (Suc 0) = Some 1"
| "strip_last out (Suc (Suc n)) =
     do { c \<leftarrow> arr_get out (Suc n);
          if c \<noteq> SLASH then strip_last out (Suc n) else Some (Suc (Suc n)) }"

lemma length_skip_slashes: "length (fst (skip_slashes s d)) \<le> length s"
  by (induction s d rule: skip_slashes.induct) auto

lemma strlen_path_component_pos:
  "cchar p \<noteq> NUL \<Longrightarrow> cchar p \<noteq> SLASH \<Longrightarrow> 0 < strlen_path_component p CONFIG_PATH_MAX"
  by (cases p) (auto simp: strlen_path_component_eq cstr_simps)

lemma cchar_skip_slashes: "cchar (fst (skip_slashes s d)) \<noteq> SLASH"
  by (induction s d rule: skip_slashes.induct) auto

lemma skip_slashes_shrinks:
  assumes "cchar (fst (skip_slashes s d)) \<noteq> NUL" and "0 < n"
  shows "length (drop n (fst (skip_slashes s d))) < length s"
    and "length (tl (fst (skip_slashes s d))) < length s"
proof -
  have "0 < length (fst (skip_slashes s d))"
    using assms(1) by (cases "fst (skip_slashes s d)") auto
  then show "length (drop n (fst (skip_slashes s d))) < length s"
    and "length (tl (fst (skip_slashes s d))) < length s"
    unfolding length_drop length_tl using assms(2) length_skip_slashes [of s d] by linarith+
qed

function resolve_loop ::
  "nat \<Rightarrow> char list \<Rightarrow> nat \<Rightarrow> char list \<Rightarrow> bool \<Rightarrow> (int \<times> char list) option" where
  "resolve_loop outlen out posn pathname isdir =
     (let p = fst (skip_slashes pathname isdir);
          d = snd (skip_slashes pathname isdir) in
      if cchar p = NUL then
        do { out' \<leftarrow> arr_set out posn NUL; Some (of_bool d, out') }
      else
        let len = strlen_path_component p CONFIG_PATH_MAX in
        if cchar p = DOT \<and> len = 1 then resolve_loop outlen out posn (tl p) d
        else if cchar p = DOT \<and> len = 2 \<and> cchar (tl p) = DOT then
          (if posn > 1 then
             do { posn1 \<leftarrow> strip_last out posn;
                  if posn1 > 1 then resolve_loop outlen out (posn1 - 1) (drop 2 p) False
                  else resolve_loop outlen out posn1 (drop 2 p) True }
           else resolve_loop outlen out posn (drop 2 p) True)
        else
          do { (out1, posn1) \<leftarrow>
                 (if posn > 1 then do { o1 \<leftarrow> arr_set out posn SLASH; Some (o1, Suc posn) }
                  else Some (out, posn));
               if posn1 + len \<ge> outlen then Some (- ENAMETOOLONG, out1)
               else do { out2 \<leftarrow> arr_blit out1 posn1 (take len p);
                         resolve_loop outlen out2 (posn1 + len) (drop len p) False } })"
  by pat_completeness auto

termination
proof (relation "measure (\<lambda>(outlen, out, posn, pathname, isdir). length pathname)", goal_cases)
  case 1
  show ?case by simp
next
  case (2 outlen out posn pathname isdir p d len)
  then have "cchar (fst (skip_slashes pathname isdir)) \<noteq> NUL" by simp
  from skip_slashes_shrinks(2) [OF this zero_less_one] 2(1) show ?case by (simp only: in_measure prod.case)
next
  case (3 outlen out posn pathname isdir p d len posn1)
  then have "cchar (fst (skip_slashes pathname isdir)) \<noteq> NUL" by simp
  from skip_slashes_shrinks(1) [OF this zero_less_numeral] 3(1) show ?case by (simp only: in_measure prod.case)
next
  case (4 outlen out posn pathname isdir p d len posn1)
  then have "cchar (fst (skip_slashes pathname isdir)) \<noteq> NUL" by simp
  from skip_slashes_shrinks(1) [OF this zero_less_numeral] 4(1) show ?case by (simp only: in_measure prod.case)
next
  case (5 outlen out posn pathname isdir p d len)
  then have "cchar (fst (skip_slashes pathname isdir)) \<noteq> NUL" by simp
  from skip_slashes_shrinks(1) [OF this zero_less_numeral] 5(1) show ?case by (simp only: in_measure prod.case)
next
  case (6 outlen out posn pathname isdir p d len x out1 posn1 out2)
  then have "0 < len"
    using strlen_path_component_pos [of p] cchar_skip_slashes [of pathname isdir] by auto
  with 6 show ?case using skip_slashes_shrinks(1) [of pathname isdir len] by simp
qed

declare resolve_loop.simps [simp del]

definition inode_resolve_relative ::
  "char list \<Rightarrow> nat \<Rightarrow> nat \<Rightarrow> char list \<Rightarrow> (int \<times> char list) option" where
  "inode_resolve_relative out outlen posn pathname =
     resolve_loop outlen out posn pathname (posn = 1)"

text \<open>The argument \<open>cwd\<close> is \<^verbatim>\<open>current_proc->cwd\<close>, an array of \<^verbatim>\<open>CONFIG_PATH_MAX\<close> bytes.\<close>

definition inode_path_to_abs ::
  "char list \<Rightarrow> char list \<Rightarrow> nat \<Rightarrow> char list option \<Rightarrow> (int \<times> char list) option" where
  "inode_path_to_abs cwd out outlen pathname =
     (case pathname of None \<Rightarrow> Some (- EFAULT, out)
      | Some p \<Rightarrow>
        if cchar p = NUL then Some (- EINVAL, out)
        else if str_is_too_long p (CONFIG_PATH_MAX - 1) then Some (- ENAMETOOLONG, out)
        else if cchar p = SLASH then
          (if outlen < 2 then Some (- ENAMETOOLONG, out)
           else do { out1 \<leftarrow> arr_set out 0 SLASH;
                     inode_resolve_relative out1 outlen 1 (tl p) })
        else
          (let posn = strlen_constrained (Some cwd) (length cwd) in
           if posn + 1 \<ge> outlen then Some (- ENAMETOOLONG, out)
           else do { out1 \<leftarrow> arr_blit out 0 (take posn cwd);
                     inode_resolve_relative out1 outlen posn p }))"

definition inode_symlink_to_abs ::
  "char list \<Rightarrow> char list \<Rightarrow> nat \<Rightarrow> char list option \<Rightarrow> (int \<times> char list) option" where
  "inode_symlink_to_abs cwd out outlen pathname =
     (case pathname of None \<Rightarrow> Some (- EFAULT, out)
      | Some p \<Rightarrow>
        if cchar p = SLASH then inode_path_to_abs cwd out outlen (Some p)
        else if cchar p = NUL then Some (- EINVAL, out)
        else if str_is_too_long p (CONFIG_PATH_MAX - 1) then Some (- ENAMETOOLONG, out)
        else
          (let posn = strlen_constrained (Some out) outlen in
           do { posn1 \<leftarrow>
                  (if posn > 1 then
                     do { q \<leftarrow> strip_last out posn; Some (if q > 1 then q - 1 else q) }
                   else Some posn);
                inode_resolve_relative out outlen posn1 p }))"

section \<open>Specification: stacks of components\<close>

fun split_slash :: "char list \<Rightarrow> char list list" where
  "split_slash [] = [[]]"
| "split_slash (c # s) =
     (if c = SLASH then [] # split_slash s
      else (case split_slash s of [] \<Rightarrow> [[c]] | w # ws \<Rightarrow> (c # w) # ws))"

definition path_components :: "char list \<Rightarrow> char list list" where
  "path_components s = filter (\<lambda>w. w \<noteq> []) (split_slash s)"

definition render :: "char list list \<Rightarrow> char list" where
  "render st = (if st = [] then [SLASH] else concat (map (\<lambda>c. SLASH # c) st))"

definition ordinary :: "char list \<Rightarrow> bool" where
  "ordinary c \<longleftrightarrow> c \<noteq> [] \<and> SLASH \<notin> set c \<and> NUL \<notin> set c \<and> c \<noteq> [DOT] \<and> c \<noteq> [DOT, DOT]"

text \<open>Resolving a list of components on a stack; \<^const>\<open>None\<close> when a rendering would not fit.\<close>

fun canon_run :: "nat \<Rightarrow> char list list \<Rightarrow> char list list \<Rightarrow> char list list option" where
  "canon_run outlen st [] = Some st"
| "canon_run outlen st (c # cs) =
     (if c = [DOT] then canon_run outlen st cs
      else if c = [DOT, DOT] then canon_run outlen (butlast st) cs
      else if outlen \<le> length (render (st @ [c])) then None
      else canon_run outlen (st @ [c]) cs)"

definition path_spec :: "char list list \<Rightarrow> nat \<Rightarrow> char list \<Rightarrow> int + char list list" where
  "path_spec cwd outlen path =
     (if path = [] then Inl (- EINVAL)
      else if 63 \<le> length path then Inl (- ENAMETOOLONG)
      else if hd path \<noteq> SLASH \<and> outlen \<le> length (render cwd) + 1 then Inl (- ENAMETOOLONG)
      else case canon_run outlen (if hd path = SLASH then [] else cwd) (path_components path) of
             None \<Rightarrow> Inl (- ENAMETOOLONG)
           | Some st \<Rightarrow> Inr st)"

section \<open>Components\<close>

lemma split_slash_not_Nil [simp]: "split_slash s \<noteq> []"
  by (induction s) (auto split: list.split)

lemma split_slash_word: "SLASH \<notin> set w \<Longrightarrow> split_slash w = [w]"
  by (induction w) auto

lemma split_slash_append:
  "SLASH \<notin> set w \<Longrightarrow> split_slash (w @ SLASH # s) = w # split_slash s"
  by (induction w) auto

lemma split_slash_words: "w \<in> set (split_slash s) \<Longrightarrow> SLASH \<notin> set w \<and> set w \<subseteq> set s"
  by (induction s arbitrary: w) (fastforce split: if_splits list.splits)+

lemma path_components_simps:
  "path_components [] = []"
  "path_components (SLASH # s) = path_components s"
  "w \<noteq> [] \<Longrightarrow> SLASH \<notin> set w \<Longrightarrow> path_components w = [w]"
  "w \<noteq> [] \<Longrightarrow> SLASH \<notin> set w \<Longrightarrow> path_components (w @ SLASH # s) = w # path_components s"
  by (simp_all add: path_components_def split_slash_word split_slash_append)

lemma path_components_words:
  "w \<in> set (path_components s) \<Longrightarrow> w \<noteq> [] \<and> SLASH \<notin> set w \<and> set w \<subseteq> set s"
  using split_slash_words by (auto simp: path_components_def)

lemma path_components_split:
  assumes "s \<noteq> []" and "hd s \<noteq> SLASH"
  shows "path_components s =
    takeWhile (\<lambda>c. c \<noteq> SLASH) s # path_components (dropWhile (\<lambda>c. c \<noteq> SLASH) s)"
proof -
  let ?w = "takeWhile (\<lambda>c. c \<noteq> SLASH) s" and ?r = "dropWhile (\<lambda>c. c \<noteq> SLASH) s"
  have w: "?w \<noteq> []" "SLASH \<notin> set ?w" using assms by (cases s; auto dest: set_takeWhileD)+
  have s: "s = ?w @ ?r" by simp
  show ?thesis
  proof (cases ?r)
    case Nil
    with s w show ?thesis by (metis append_Nil2 path_components_simps(1,3))
  next
    case (Cons c r)
    then have "c = SLASH" by (metis (mono_tags, lifting) dropWhile_eq_Cons_conv)
    with s w Cons show ?thesis by (metis path_components_simps(2,4))
  qed
qed

lemma path_components_skip_slashes:
  "path_components (fst (skip_slashes s d)) = path_components s"
  by (induction s d rule: skip_slashes.induct) (auto simp: path_components_simps)

section \<open>The buffer holds a stack\<close>

definition at_stack :: "char list \<Rightarrow> nat \<Rightarrow> char list list \<Rightarrow> bool" where
  "at_stack out posn st \<longleftrightarrow>
     posn = length (render st) \<and> take posn out = render st \<and> posn < length out \<and>
     (\<forall>c \<in> set st. ordinary c)"

lemma render_Nil [simp]: "render [] = [SLASH]"
  by (simp add: render_def)

lemma render_snoc [simp]:
  "render (st @ [c]) = (if st = [] then SLASH # c else render st @ SLASH # c)"
  by (simp add: render_def)

lemma render_not_Nil [simp]: "render st \<noteq> []"
  by (cases st) (auto simp: render_def)

lemma ordinary_NUL: "ordinary c \<Longrightarrow> NUL \<notin> set c"
  by (simp add: ordinary_def)

lemma render_NUL: "\<forall>c \<in> set st. ordinary c \<Longrightarrow> NUL \<notin> set (render st)"
  by (auto simp: render_def ordinary_def)

lemma length_render_pos: "0 < length (render st)"
  by simp

lemma length_render_1: "\<forall>c \<in> set st. ordinary c \<Longrightarrow> length (render st) = 1 \<longleftrightarrow> st = []"
  by (cases st) (auto simp: render_def ordinary_def)

lemma strip_last_scan:
  assumes "n + k < length out" and "\<forall>i. n < i \<longrightarrow> i \<le> n + k \<longrightarrow> out ! i \<noteq> SLASH"
    and "0 < n \<Longrightarrow> out ! n = SLASH"
  shows "strip_last out (Suc (n + k)) = Some (Suc n)"
  using assms
proof (induction k)
  case 0
  then show ?case by (cases n) (auto simp: arr_get_def)
next
  case (Suc k)
  then show ?case by (auto simp: arr_get_def)
qed

lemma strip_last_at_stack:
  assumes "at_stack out posn (st @ [c])"
  shows "strip_last out posn = Some (if st = [] then 1 else Suc (length (render st)))"
proof -
  let ?n = "if st = [] then 0 else length (render st)"
  have posn: "posn = Suc (?n + length c)" "posn < length out"
    and out: "take posn out = render (st @ [c])" and c: "ordinary c"
    using assms by (auto simp: at_stack_def)
  have nth: "out ! i = render (st @ [c]) ! i" if "i < posn" for i
    using out that by (metis nth_take)
  have "\<forall>i. ?n < i \<longrightarrow> i \<le> ?n + length c \<longrightarrow> out ! i \<noteq> SLASH"
  proof (intro allI impI)
    fix i assume i: "?n < i" "i \<le> ?n + length c"
    then have "out ! i = c ! (i - Suc ?n)"
      using nth [of i] posn by (auto simp: nth_append nth_Cons' split: if_splits)
    moreover have "i - Suc ?n < length c" using i by auto
    ultimately show "out ! i \<noteq> SLASH" using c by (metis nth_mem ordinary_def)
  qed
  moreover have "0 < ?n \<Longrightarrow> out ! ?n = SLASH"
    using nth [of ?n] posn by (auto simp: nth_append split: if_splits)
  ultimately show ?thesis
    using strip_last_scan [of ?n "length c" out] posn by (auto split: if_splits)
qed

lemma at_stack_butlast:
  assumes "at_stack out posn st" and "st \<noteq> []"
  shows "at_stack out (length (render (butlast st))) (butlast st)"
proof -
  obtain st' c where st: "st = st' @ [c]" using assms(2) by (metis rev_exhaust)
  have le: "length (render st') \<le> posn" and "posn < length out"
    and out: "take posn out = render (st' @ [c])" and "\<forall>c \<in> set st. ordinary c"
    using assms(1) st by (auto simp: at_stack_def ordinary_def split: if_splits)
  moreover have "take (length (render st')) out = take (length (render st')) (take posn out)"
    using le by (simp add: min_absorb1)
  ultimately show ?thesis
    using st by (auto simp: at_stack_def in_set_butlastD)
qed

lemma at_stack_push:
  assumes "at_stack out posn st" and "ordinary c"
    and fits: "length (render (st @ [c])) < length out"
    and q: "q = (if posn > 1 then Suc posn else posn)"
    and o1: "o1 = (if posn > 1 then out[posn := SLASH] else out)"
  shows "q + length c = length (render (st @ [c]))"
    and "at_stack (take q o1 @ c @ drop (q + length c) o1) (q + length c) (st @ [c])"
    and "length o1 = length out"
proof -
  have st: "posn = length (render st)" "take posn out = render st" "posn < length out"
    and ord: "\<forall>c \<in> set st. ordinary c"
    using assms(1) by (auto simp: at_stack_def)
  have root: "posn > 1 \<longleftrightarrow> st \<noteq> []"
    using length_render_1 [OF ord] length_render_pos [of st] st(1) by linarith
  show len: "q + length c = length (render (st @ [c]))"
    using root st q by auto
  have "take q o1 @ c = render (st @ [c])"
    using root st q o1 by (auto simp: take_Suc_conv_app_nth)
  moreover have "q + length c < length out" using len fits by simp
  ultimately show "at_stack (take q o1 @ c @ drop (q + length c) o1) (q + length c) (st @ [c])"
    using len ord assms(2) o1 by (auto simp: at_stack_def)
  show "length o1 = length out" using o1 by simp
qed

lemma at_stack_cstr:
  assumes "at_stack out posn st"
  shows "cstr (out[posn := NUL]) = render st"
proof -
  have "out[posn := NUL] = render st @ NUL # drop (Suc posn) out"
    using assms by (auto simp: at_stack_def upd_conv_take_nth_drop)
  then show ?thesis
    using assms by (auto simp: at_stack_def render_NUL cstr_append_NUL)
qed

section \<open>The resolution loop refines the stack\<close>

definition resolved ::
  "nat \<Rightarrow> char list list option \<Rightarrow> (int \<times> char list) option \<Rightarrow> bool" where
  "resolved outlen spec r \<longleftrightarrow>
     (\<exists>ret out'. r = Some (ret, out') \<and> length out' = outlen \<and>
        (case spec of None \<Rightarrow> ret = - ENAMETOOLONG
         | Some st \<Rightarrow> (ret = 0 \<or> ret = 1) \<and> (st = [] \<longrightarrow> ret = 1) \<and> cstr out' = render st \<and>
             (\<forall>c \<in> set st. ordinary c)))"

lemma skip_slashes_facts:
  assumes "NUL \<notin> set s"
  shows "NUL \<notin> set (fst (skip_slashes s d))" and "d \<Longrightarrow> snd (skip_slashes s d)"
    and "fst (skip_slashes s d) \<noteq> [] \<Longrightarrow> hd (fst (skip_slashes s d)) \<noteq> SLASH"
  using assms by (induction s d rule: skip_slashes.induct) auto

lemma first_component:
  assumes "p \<noteq> []" and "hd p \<noteq> SLASH" and "NUL \<notin> set p"
    and w: "w = takeWhile (\<lambda>c. c \<noteq> SLASH) p"
  shows "path_components p = w # path_components (drop (length w) p)"
    and "take (length w) p = w" and "w \<noteq> []" and "cchar p = hd w"
    and "strlen_path_component p CONFIG_PATH_MAX = min (length w) 64"
    and "w = [DOT] \<or> w = [DOT, DOT] \<or> ordinary w"
    and "length w = 2 \<Longrightarrow> cchar (tl p) = w ! 1"
proof -
  have drop: "drop (length w) p = dropWhile (\<lambda>c. c \<noteq> SLASH) p"
    using w by (simp add: dropWhile_eq_drop)
  show "path_components p = w # path_components (drop (length w) p)"
    using path_components_split [OF assms(1,2)] w drop by simp
  show t: "take (length w) p = w"
    using w by (metis takeWhile_eq_take)
  show ne: "w \<noteq> []" using assms w by (cases p) auto
  then show "cchar p = hd w" using assms(1,2) w by (cases p) auto
  show "strlen_path_component p CONFIG_PATH_MAX = min (length w) 64"
    using assms(3) w by (simp add: strlen_path_component_eq cstr_ident)
  show "w = [DOT] \<or> w = [DOT, DOT] \<or> ordinary w"
    using ne assms(3) w by (auto simp: ordinary_def dest: set_takeWhileD)
  show "cchar (tl p) = w ! 1" if "length w = 2"
    using that t by (cases p; cases "tl p") auto
qed

lemma resolve_loop_refines:
  assumes "NUL \<notin> set pathname" and "length out = outlen" and "outlen \<le> 64"
    and "at_stack out posn st" and "st = [] \<Longrightarrow> isdir"
  shows "resolved outlen (canon_run outlen st (path_components pathname))
           (resolve_loop outlen out posn pathname isdir)"
  using assms
proof (induction "length pathname" arbitrary: pathname out posn isdir st rule: less_induct)
  case less
  define p d where "p = fst (skip_slashes pathname isdir)"
    and "d = snd (skip_slashes pathname isdir)"
  note unfold = resolve_loop.simps [of outlen out posn pathname isdir, folded p_def d_def]
  have p: "NUL \<notin> set p" "p \<noteq> [] \<Longrightarrow> hd p \<noteq> SLASH" "length p \<le> length pathname"
    "path_components pathname = path_components p"
    using skip_slashes_facts [OF less.prems(1)] length_skip_slashes
    by (auto simp: p_def path_components_skip_slashes)
  have d: "st = [] \<Longrightarrow> d"
    using less.prems(5) skip_slashes_facts(2) [OF less.prems(1)] by (auto simp: d_def)
  have posn: "posn < length out" "posn = length (render st)" "\<forall>c \<in> set st. ordinary c"
    using less.prems(4) by (auto simp: at_stack_def)
  have root: "posn > 1 \<longleftrightarrow> st \<noteq> []"
    using length_render_1 [OF posn(3)] length_render_pos [of st] posn(2) by linarith
  show ?case
  proof (cases "p = []")
    case True
    then have "resolve_loop outlen out posn pathname isdir = Some (of_bool d, out[posn := NUL])"
      using posn(1) by (simp add: unfold arr_set_Some)
    then show ?thesis
      using p(4) d posn(3) at_stack_cstr [OF less.prems(4)] less.prems(2) True
      by (auto simp: resolved_def path_components_simps)
  next
    case False
    define w where "w = takeWhile (\<lambda>c. c \<noteq> SLASH) p"
    note w = first_component [OF False p(2) [OF False] p(1) w_def]
    have nul: "cchar p \<noteq> NUL" using False p(1) by (cases p) auto
    have IH: "resolved outlen (canon_run outlen st' (path_components (drop (length w) p)))
        (resolve_loop outlen out' posn' (drop (length w) p) isdir')"
      if "length out' = outlen" "at_stack out' posn' st'" "st' = [] \<Longrightarrow> isdir'"
      for out' posn' st' isdir'
    proof (rule less.hyps)
      show "length (drop (length w) p) < length pathname"
        using w(3) False p(3) by (metis length_drop length_greater_0_conv diff_less less_le_trans)
      show "NUL \<notin> set (drop (length w) p)" using p(1) by (meson in_set_dropD)
    qed (use that less.prems(3) in auto)
    consider (dot) "w = [DOT]" | (dotdot) "w = [DOT, DOT]" | (word) "ordinary w"
      using w(6) by blast
    then show ?thesis
    proof cases
      case dot
      then have "tl p = drop (length w) p" by (simp add: drop_Suc)
      then show ?thesis
        using dot nul w(1,4,5) p(4) IH [OF less.prems(2,4), of d] d by (simp add: unfold)
    next
      case dotdot
      then have dd: "cchar p = DOT" "strlen_path_component p CONFIG_PATH_MAX = 2"
        "cchar (tl p) = DOT" "drop 2 p = drop (length w) p"
        using w(4,5,7) by (auto simp: numeral_2_eq_2)
      show ?thesis
      proof (cases "st = []")
        case True
        then show ?thesis
          using IH [OF less.prems(2,4), of True] dd nul w(1) p(4) root dotdot by (simp add: unfold)
      next
        case False
        then obtain st' c where st: "st = st' @ [c]" by (metis rev_exhaust)
        have "at_stack out (length (render st')) st'"
          using at_stack_butlast [OF less.prems(4) False] st by simp
        then show ?thesis
          using IH [OF less.prems(2), of "length (render st')" st' "st' = []"]
            strip_last_at_stack [OF less.prems(4) [unfolded st]] dd nul w(1) p(4) root dotdot st
          by (cases "st' = []") (simp_all add: unfold)
      qed
    next
      case word
      define q o1 where "q = (if posn > 1 then Suc posn else posn)"
        and "o1 = (if posn > 1 then out[posn := SLASH] else out)"
      have c: "w \<noteq> [DOT]" "w \<noteq> [DOT, DOT]" using word by (auto simp: ordinary_def)
      have nodot: "\<not> (cchar p = DOT \<and> min (length w) 64 = 1)"
        "\<not> (cchar p = DOT \<and> min (length w) 64 = 2 \<and> cchar (tl p) = DOT)"
        using c w(3,4,7) by (auto simp: length_Suc_conv min_def numeral_2_eq_2 split: if_splits)
      have len: "q + length w = length (render (st @ [w]))"
        using root posn(2) by (auto simp: q_def)
      have first: "(if posn > 1 then do { o1 \<leftarrow> arr_set out posn SLASH; Some (o1, Suc posn) }
          else Some (out, posn)) = Some (o1, q)"
        using posn(1) by (simp add: arr_set_Some q_def o1_def)
      have o1: "length o1 = outlen" using less.prems(2) by (simp add: o1_def)
      have step: "resolve_loop outlen out posn pathname isdir =
          (if outlen \<le> q + min (length w) 64 then Some (- ENAMETOOLONG, o1)
           else do { out2 \<leftarrow> arr_blit o1 q (take (min (length w) 64) p);
                     resolve_loop outlen out2 (q + min (length w) 64)
                       (drop (min (length w) 64) p) False })"
        unfolding unfold Let_def if_not_P [OF nul] w(5) if_not_P [OF nodot(1)]
          if_not_P [OF nodot(2)] first by simp
      show ?thesis
      proof (cases "outlen \<le> length (render (st @ [w]))")
        case True
        then have "outlen \<le> q + min (length w) 64" using len less.prems(3) by auto
        then show ?thesis
          using True c o1 w(1) p(4) by (simp add: step resolved_def del: render_snoc)
      next
        case False
        then have fits: "length (render (st @ [w])) < length out" using less.prems(2) by simp
        note push = at_stack_push [OF less.prems(4) word fits q_def o1_def]
        have "length w < 64" using fits less.prems(2,3) len by linarith
        then have lw: "min (length w) 64 = length w" by simp
        have lt: "\<not> outlen \<le> q + length w" using len False by simp
        have blit: "arr_blit o1 q (take (length w) p) =
            Some (take q o1 @ w @ drop (q + length w) o1)"
          using lt o1 w(2) by (simp add: arr_blit_Some)
        have "length (take q o1 @ w @ drop (q + length w) o1) = outlen"
          using lt o1 by simp
        from IH [OF this push(2), of False] show ?thesis
          using False c w(1) p(4) lw lt by (simp add: step blit del: render_snoc)
      qed
    qed
  qed
qed

section \<open>Absolute paths\<close>

lemma at_stack_absolute:
  assumes "2 \<le> length out"
  shows "at_stack (out[0 := SLASH]) 1 []"
  using assms by (cases out) (auto simp: at_stack_def)

lemma at_stack_cwd:
  assumes "cstr cwd = render st" and "\<forall>c \<in> set st. ordinary c"
    and "length (render st) + 1 < length out"
  shows "at_stack (take (length (render st)) cwd @ drop (length (render st)) out)
           (length (render st)) st"
proof -
  have "take (length (render st)) cwd = render st"
    using assms(1) unfolding cstr_def by (metis takeWhile_eq_take)
  then show ?thesis using assms by (simp add: at_stack_def)
qed

lemma resolved_not_None: "resolved n spec r \<Longrightarrow> r \<noteq> None"
  by (auto simp: resolved_def)

text \<open>The refinement of one call, over any starting directory.\<close>

lemma inode_path_to_abs_spec:
  assumes path: "NUL \<notin> set path" and len: "length out = outlen" "2 \<le> outlen" "outlen \<le> 64"
    and cwd: "cstr cwd = render cst" "\<forall>c \<in> set cst. ordinary c"
  shows "\<exists>ret out'. inode_path_to_abs cwd out outlen (Some path) = Some (ret, out') \<and>
           length out' = outlen \<and>
           (case path_spec cst outlen path of
              Inl e \<Rightarrow> ret = e
            | Inr st \<Rightarrow> (ret = 0 \<or> ret = 1) \<and> (st = [] \<longrightarrow> ret = 1) \<and> cstr out' = render st \<and>
                (\<forall>c \<in> set st. ordinary c))"
proof -
  have lcwd: "strlen_constrained (Some cwd) (length cwd) = length (render cst)"
    using cwd(1) by (simp add: strlen_constrained_eq cstr_def length_takeWhile_le
      flip: cwd(1))
  have le: "length (render cst) \<le> length cwd"
    unfolding cwd(1) [symmetric] cstr_def by (rule length_takeWhile_le)
  consider (empty) "path = []" | (long) "path \<noteq> []" "63 \<le> length path"
    | (abs) "path \<noteq> []" "length path < 63" "hd path = SLASH"
    | (rel) "path \<noteq> []" "length path < 63" "hd path \<noteq> SLASH"
    by force
  then show ?thesis
  proof cases
    case empty
    then show ?thesis using len by (simp add: inode_path_to_abs_def path_spec_def)
  next
    case long
    then have "cchar path \<noteq> NUL" using path by (cases path) auto
    with long show ?thesis
      using len path by (simp add: inode_path_to_abs_def path_spec_def str_is_too_long_eq cstr_ident)
  next
    case abs
    then obtain rest where rest: "path = SLASH # rest" by (cases path) auto
    have "resolved outlen (canon_run outlen [] (path_components rest))
        (inode_resolve_relative (out[0 := SLASH]) outlen 1 rest)"
      unfolding inode_resolve_relative_def
      using len path rest by (intro resolve_loop_refines at_stack_absolute) auto
    then show ?thesis
      using abs rest len path unfolding resolved_def
      by (auto simp: inode_path_to_abs_def path_spec_def str_is_too_long_eq cstr_ident
        arr_set_Some path_components_simps split: option.splits)
  next
    case rel
    then have nz: "cchar path \<noteq> NUL" "cchar path \<noteq> SLASH" using path by (cases path; auto)+
    have short: "\<not> str_is_too_long path (CONFIG_PATH_MAX - 1)"
      using rel path by (simp add: str_is_too_long_eq cstr_ident)
    show ?thesis
    proof (cases "outlen \<le> length (render cst) + 1")
      case True
      then show ?thesis
        using rel nz short len lcwd by (auto simp: inode_path_to_abs_def path_spec_def)
    next
      case False
      let ?o1 = "take (length (render cst)) cwd @ drop (length (render cst)) out"
      have lo: "length ?o1 = outlen" using False len(1) le by simp
      have root: "(length (render cst) = 1) = (cst = [])" by (rule length_render_1 [OF cwd(2)])
      have "resolved outlen (canon_run outlen cst (path_components path))
          (inode_resolve_relative ?o1 outlen (length (render cst)) path)"
        unfolding inode_resolve_relative_def root
        using len path cwd False lo by (intro resolve_loop_refines at_stack_cwd) auto
      moreover have "arr_blit out 0 (take (length (render cst)) cwd) = Some ?o1"
        using False len(1) le by (simp add: arr_blit_def min_absorb2)
      ultimately show ?thesis
        using rel nz short len False lcwd unfolding resolved_def
        by (auto simp: inode_path_to_abs_def path_spec_def Let_def split: option.splits)
    qed
  qed
qed

text \<open>Resolving a canonical path gives it back.\<close>

lemma path_components_render:
  "\<forall>c \<in> set st. ordinary c \<Longrightarrow> path_components (render st) = st"
proof (induction st rule: list.induct)
  case Nil
  then show ?case by (simp add: path_components_simps)
next
  case (Cons c st)
  then have c: "c \<noteq> []" "SLASH \<notin> set c" by (auto simp: ordinary_def)
  show ?case
  proof (cases st)
    case Nil
    with c show ?thesis by (simp add: render_def path_components_simps)
  next
    case (Cons d ds)
    with Cons.IH Cons.prems c show ?thesis
      by (simp add: render_def path_components_simps)
  qed
qed

lemma length_render_mono: "length (render st) \<le> length (render (st @ cs))"
  by (auto simp: render_def Suc_le_eq)

lemma canon_run_ordinary:
  assumes "\<forall>c \<in> set cs. ordinary c" and "length (render (st @ cs)) < outlen"
  shows "canon_run outlen st cs = Some (st @ cs)"
  using assms
proof (induction cs arbitrary: st)
  case (Cons c cs)
  have "length (render (st @ [c])) < outlen"
    using length_render_mono [of "st @ [c]" cs] Cons.prems(2) by (simp del: render_snoc)
  moreover have "c \<noteq> [DOT]" "c \<noteq> [DOT, DOT]" using Cons.prems(1) by (auto simp: ordinary_def)
  ultimately show ?case using Cons.IH [of "st @ [c]"] Cons.prems by (simp del: render_snoc)
qed simp

lemma canon_run_stack:
  assumes "canon_run outlen st cs = Some st'" and "length (render st) < outlen"
  shows "length (render st') < outlen"
  using assms
proof (induction outlen st cs rule: canon_run.induct)
  case (2 outlen st c cs)
  have "length (render (butlast st)) < outlen"
    using length_render_mono [of "butlast st" "[last st]"] "2.prems"(2)
    by (cases "st = []") (auto simp del: render_snoc)
  then show ?case using 2 by (auto simp del: render_snoc split: if_splits)
qed auto

lemma path_spec_fits:
  assumes "path_spec cst outlen path = Inr st" and "2 \<le> outlen"
  shows "length (render st) < outlen"
  using assms canon_run_stack [of outlen "[]" _ st] canon_run_stack [of outlen cst _ st]
  by (auto simp: path_spec_def split: if_splits option.splits)

lemma path_spec_canonical:
  assumes "\<forall>c \<in> set st. ordinary c" and "length (render st) < outlen" and "length (render st) < 63"
  shows "path_spec cst outlen (render st) = Inr st"
proof -
  have "hd (render st) = SLASH" by (cases st) (auto simp: render_def)
  with assms show ?thesis
    by (simp add: path_spec_def path_components_render canon_run_ordinary)
qed

subsection \<open>Correctness of path resolution\<close>

text \<open>
  C9. \<^verbatim>\<open>inode_path_to_abs\<close> implements the stack semantics of pathnames. For every pathname
  and every current directory held in canonical form, the call terminates without a store or
  a load outside its buffers; it returns exactly the error that the specification gives
  (\<^verbatim>\<open>-EINVAL\<close> for the empty name, \<^verbatim>\<open>-ENAMETOOLONG\<close> when the name or an intermediate
  result is too long), and otherwise leaves in the buffer the canonical rendering of the
  stack reached by folding the components, with \<^verbatim>\<open>.\<close> a no-op and \<^verbatim>\<open>..\<close> popping and
  stopping at the root.
\<close>

theorem inode_path_to_abs_refines:
  assumes "NUL \<notin> set path" and "length out = outlen" and "2 \<le> outlen" and "outlen \<le> CONFIG_PATH_MAX"
    and "cstr cwd = render cst" and "\<forall>c \<in> set cst. ordinary c"
  shows "\<exists>ret out'. inode_path_to_abs cwd out outlen (Some path) = Some (ret, out') \<and>
           length out' = outlen \<and>
           (case path_spec cst outlen path of
              Inl e \<Rightarrow> ret = e
            | Inr st \<Rightarrow> (ret = 0 \<or> ret = 1) \<and> (st = [] \<longrightarrow> ret = 1) \<and> cstr out' = render st \<and>
                (\<forall>c \<in> set st. ordinary c))"
  using assms by (rule inode_path_to_abs_spec)

theorem inode_path_to_abs_refines_witness:
  "\<exists>ret out'. inode_path_to_abs ''/usr/lib'' (replicate 64 NUL) 64 (Some ''../bin//./sh'') =
       Some (ret, out') \<and> (ret = 0 \<or> ret = 1) \<and> cstr out' = ''/usr/bin/sh''"
proof -
  have spec: "path_spec [''usr'', ''lib''] 64 ''../bin//./sh'' = Inr [''usr'', ''bin'', ''sh'']"
    by code_simp
  have "cstr ''/usr/lib'' = render [''usr'', ''lib'']" by code_simp
  moreover have "\<forall>c \<in> set [''usr'', ''lib'']. ordinary c" by code_simp
  ultimately show ?thesis
    using inode_path_to_abs_refines [of "''../bin//./sh''" "replicate 64 NUL" 64 "''/usr/lib''"
      "[''usr'', ''lib'']"] spec by (auto simp: render_def)
qed

text \<open>
  C10. Resolution is idempotent: when \<^verbatim>\<open>inode_path_to_abs\<close> succeeds, resolving the path it
  produced again, from any current directory, succeeds and produces the same path. The bound is
  the code's own: the resolver refuses inputs of \<^verbatim>\<open>CONFIG_PATH_MAX - 1\<close> characters or more.
\<close>

theorem inode_path_to_abs_idempotent:
  assumes "NUL \<notin> set path" and "length out = outlen" and "2 \<le> outlen" and "outlen \<le> CONFIG_PATH_MAX"
    and "cstr cwd = render cst" and "\<forall>c \<in> set cst. ordinary c"
    and "inode_path_to_abs cwd out outlen (Some path) = Some (ret, out1)" and "0 \<le> ret"
    and "length (cstr out1) < CONFIG_PATH_MAX - 1"
    and "cstr cwd2 = render cst2" and "\<forall>c \<in> set cst2. ordinary c"
  shows "\<exists>ret2 out2. inode_path_to_abs cwd2 out outlen (Some (cstr out1)) = Some (ret2, out2) \<and>
           0 \<le> ret2 \<and> cstr out2 = cstr out1"
proof -
  have res: "case path_spec cst outlen path of Inl e \<Rightarrow> ret = e
      | Inr st \<Rightarrow> cstr out1 = render st \<and> (\<forall>c \<in> set st. ordinary c)"
    using inode_path_to_abs_spec [OF assms(1-6)] assms(7) by (auto split: sum.splits)
  have "path_spec cst outlen path \<noteq> Inl ret"
    using assms(8) by (auto simp: path_spec_def split: option.splits if_splits)
  with res obtain st where st: "path_spec cst outlen path = Inr st" "cstr out1 = render st"
    "\<forall>c \<in> set st. ordinary c" by (cases "path_spec cst outlen path") auto
  have "path_spec cst2 outlen (render st) = Inr st"
    using path_spec_canonical [OF st(3)] path_spec_fits [OF st(1) assms(3)] assms(9) st(2) by simp
  then show ?thesis
    using inode_path_to_abs_spec [OF render_NUL [OF st(3)] assms(2-4,10,11)] st by auto
qed

theorem inode_path_to_abs_idempotent_witness:
  "\<exists>ret2 out2. inode_path_to_abs ''/'' (replicate 64 NUL) 64 (Some ''/tmp/x'') = Some (ret2, out2) \<and>
     0 \<le> ret2 \<and> cstr out2 = ''/tmp/x''"
proof -
  have "inode_path_to_abs ''/tmp'' (replicate 64 NUL) 64 (Some ''x'') =
      Some (0, ''/tmp/x'' @ replicate 58 NUL)" by code_simp
  moreover have "cstr (''/tmp/x'' @ replicate 58 NUL) = ''/tmp/x''" by code_simp
  moreover have "cstr ''/tmp'' = render [''tmp'']" "cstr ''/'' = render []" by code_simp+
  moreover have "\<forall>c \<in> set [''tmp'']. ordinary c" by code_simp
  ultimately show ?thesis
    using inode_path_to_abs_idempotent [of "''x''" "replicate 64 NUL" 64 "''/tmp''" "[''tmp'']" 0
      "''/tmp/x'' @ replicate 58 NUL" "''/''" "[]"] by simp
qed

end
