(* ===== verification/Kinode.thy ===== *)
theory Kinode
  imports Kbuf
begin

unbundle bit_operations_syntax

text \<open>
  Inodes: allocation, reference counts, release and access checks, from \<^verbatim>\<open>os/inode.c\<close>, the
  release functions of the two file systems (\<^verbatim>\<open>ramfs.c\<close>, \<^verbatim>\<open>fatfs.c\<close>) and the clock
  functions of \<^verbatim>\<open>os/time.c\<close>. Dropping the last reference of a directory drops a reference
  of each of its entries, so \<^verbatim>\<open>inode_deref\<close> and \<^verbatim>\<open>ramfs_release\<close> call each other; they are
  one recursive function over the kind of call.
\<close>

section \<open>Clock\<close>

definition sys_monoclock :: "kstate \<Rightarrow> 64 word \<times> kstate" where
  "sys_monoclock s = (mono s (mono_pos s), s\<lparr>mono_pos := Suc (mono_pos s)\<rparr>)"

definition sys_getmonotime :: "kstate \<Rightarrow> int \<times> 64 word \<times> kstate" where
  "sys_getmonotime s = (let (t, s1) = sys_monoclock s in (0, t, s1))"

definition sys_getrealtime :: "kstate \<Rightarrow> int \<times> 64 word \<times> kstate" where
  "sys_getrealtime s = (0, realtime s, s)"

definition sys_setrealtime :: "64 word \<Rightarrow> kstate \<Rightarrow> int \<times> kstate" where
  "sys_setrealtime t s = (0, s\<lparr>realtime := t\<rparr>)"

definition inode_get_mtime :: "kstate \<Rightarrow> time_t \<times> kstate" where
  "inode_get_mtime s =
     (let (t, s1) = sys_monoclock s in (ucast (signed_drop_bit 8 (t + realtime s1)), s1))"

section \<open>Reference counts\<close>

definition inode_alloc :: "inode_operations \<Rightarrow> kstate \<Rightarrow> (bptr \<times> kstate) option" where
  "inode_alloc operations s =
     do { (node, s1) \<leftarrow> kmalloc_buf_alloc s;
          if node \<noteq> 0 then
            do { s2 \<leftarrow> upd_inode node (\<lambda>i. i\<lparr>i_op := Some operations, i_count := 1\<rparr>) s1;
                 Some (node, s2) }
          else Some (0, s1) }"

definition inode_ref :: "bptr \<Rightarrow> kstate \<Rightarrow> kstate option" where
  "inode_ref node s = upd_inode node (\<lambda>i. i\<lparr>i_count := sshort (i_count i + 1)\<rparr>) s"

section \<open>Release\<close>

definition ramfs_is_dot :: "ramfs_dirent \<Rightarrow> bool" where
  "ramfs_is_dot d \<longleftrightarrow> (if d_namelen d \<noteq> 1 then False else d_name d ! 0 = DOT)"

definition ramfs_is_dot_dot :: "ramfs_dirent \<Rightarrow> bool" where
  "ramfs_is_dot_dot d \<longleftrightarrow>
     (if d_namelen d \<noteq> 2 then False else if d_name d ! 0 \<noteq> DOT then False else d_name d ! 1 = DOT)"

definition fatfs_release :: "bptr \<Rightarrow> kstate \<Rightarrow> (int \<times> kstate) option" where
  "fatfs_release node s =
     do { i \<leftarrow> get_inode node s;
          s1 \<leftarrow> kmalloc_buf_free (i_fatfs_info i) s;
          Some (0, s1) }"

text \<open>The loop of \<^verbatim>\<open>ramfs_release\<close> over the data fragments of a file or symbolic link.\<close>

partial_function (option) ramfs_free_data :: "bptr \<Rightarrow> kstate \<Rightarrow> kstate option" where [code]:
  "ramfs_free_data current s =
     (if current = 0 then Some s
      else do { d \<leftarrow> get_data current s;
                s1 \<leftarrow> kmalloc_buf_free current s;
                ramfs_free_data (rd_next d) s1 })"

text \<open>
  The calls of the recursion: \<^verbatim>\<open>inode_deref\<close>, \<^verbatim>\<open>ramfs_release\<close>, and the rest of the
  loop of the latter over the entries of a directory.
\<close>

datatype deref_call = Call_deref bptr | Call_release bptr | Call_entries bptr

partial_function (option) deref_run :: "deref_call \<Rightarrow> kstate \<Rightarrow> (int \<times> kstate) option" where [code]:
  "deref_run c s =
     (case c of
        Call_deref node \<Rightarrow>
          do { i \<leftarrow> get_inode node s;
               let cnt = sshort (i_count i - 1);
               let s1 = put_inode node (i\<lparr>i_count := cnt\<rparr>) s;
               if cnt \<le> 0 then
                 do { (result, s2) \<leftarrow>
                        (case i_op i of
                           None \<Rightarrow> None
                         | Some Ramfs_operations \<Rightarrow> deref_run (Call_release node) s1
                         | Some Fatfs_operations \<Rightarrow> fatfs_release node s1);
                      s3 \<leftarrow> kmalloc_buf_free node s2;
                      Some (result, s3) }
               else Some (0, s1) }
      | Call_release node \<Rightarrow>
          do { i \<leftarrow> get_inode node s;
               if S_ISDIR (i_mode i) then
                 do { (r, s1) \<leftarrow> deref_run (Call_entries (ramfs_dir i)) s;
                      i1 \<leftarrow> get_inode node s1;
                      if i_mode i1 AND S_ISVTX \<noteq> 0 \<and> ramfs_mount i1 \<noteq> 0 then
                        do { (r, s2) \<leftarrow> deref_run (Call_deref (ramfs_mount i1)) s1; Some (0, s2) }
                      else Some (0, s1) }
               else if S_ISREG (i_mode i) \<or> S_ISLNK (i_mode i) then
                 do { s1 \<leftarrow> ramfs_free_data (ramfs_file_data i) s; Some (0, s1) }
               else Some (0, s) }
      | Call_entries current \<Rightarrow>
          if current = 0 then Some (0, s)
          else
            do { d \<leftarrow> get_dirent current s;
                 (r, s1) \<leftarrow> (if \<not> ramfs_is_dot d \<and> \<not> ramfs_is_dot_dot d
                            then deref_run (Call_deref (d_inode d)) s else Some (0, s));
                 s2 \<leftarrow> kmalloc_buf_free current s1;
                 deref_run (Call_entries (d_next d)) s2 })"

definition inode_deref :: "bptr \<Rightarrow> kstate \<Rightarrow> (int \<times> kstate) option" where
  "inode_deref node s = deref_run (Call_deref node) s"

definition ramfs_release :: "bptr \<Rightarrow> kstate \<Rightarrow> (int \<times> kstate) option" where
  "ramfs_release node s = deref_run (Call_release node) s"

definition inode_release_default :: "bptr \<Rightarrow> kstate \<Rightarrow> int \<times> kstate" where
  "inode_release_default node s = (0, s)"

text \<open>\<^verbatim>\<open>inode_deref\<close> where the caller ignores its result.\<close>

definition inode_drop :: "bptr \<Rightarrow> kstate \<Rightarrow> kstate option" where
  "inode_drop node s = map_option snd (inode_deref node s)"

section \<open>Access\<close>

definition inode_access :: "inode \<Rightarrow> mode_t \<Rightarrow> int" where
  "inode_access node mode =
     (if mode = F_OK then 0
      else (let imode = drop_bit 6 (i_mode node) in
            if mode AND imode AND 7 = mode then 0 else - EACCES))"

section \<open>The root\<close>

definition ramfs_init :: "kstate \<Rightarrow> kstate option" where
  "ramfs_init s =
     do { (r, s1) \<leftarrow> inode_alloc Ramfs_operations s;
          let s2 = s1\<lparr>root := r\<rparr>;
          s3 \<leftarrow> upd_inode r (\<lambda>i. i\<lparr>i_mode := 0x0100 OR 0x0080 OR 0x0040 OR S_IFDIR OR
                  0x0020 OR 0x0010 OR 0x0008 OR 0x0004 OR 0x0001\<rparr>) s2;
          s4 \<leftarrow> inode_ref r s3;
          inode_ref r s4 }"

definition inode_get_root :: "kstate \<Rightarrow> (bptr \<times> kstate) option" where
  "inode_get_root s = do { s1 \<leftarrow> inode_ref (root s) s; Some (root s1, s1) }"

section \<open>Elementary facts\<close>

lemma get_put_inode [kget_simps]:
  "buf_ok p \<Longrightarrow> get_inode p (put_inode p i s) = Some i"
  "q \<noteq> p \<Longrightarrow> get_inode p (put_buf q b s) = get_inode p s"
  by (simp_all add: get_inode_def put_buf_def)

lemma get_put_dirent [kget_simps]:
  "buf_ok p \<Longrightarrow> get_dirent p (put_dirent p d s) = Some d"
  "q \<noteq> p \<Longrightarrow> get_dirent p (put_buf q b s) = get_dirent p s"
  by (simp_all add: get_dirent_def put_buf_def)

lemma inode_deref_keep:
  assumes "get_inode p s = Some i" and "1 < i_count i" and "i_count i < 32768"
  shows "inode_drop p s = Some (put_inode p (i\<lparr>i_count := i_count i - 1\<rparr>) s)"
  using assms by (simp add: inode_drop_def inode_deref_def deref_run.simps sshort_ident)

end
