(* ===== verification/Fatutils.thy ===== *)
theory Fatutils
  imports Kstate
begin

unbundle bit_operations_syntax

text \<open>
  The FAT helpers \<^verbatim>\<open>os/fs/fat/fatutils.c\<close>: conversion between 8.3 names and ordinary
  file names, conversion of directory entries, and the walk along the chain of clusters. The
  structures are those of \<^verbatim>\<open>fatdefs.h\<close> and \<^verbatim>\<open>dirent.h\<close>.
\<close>

section \<open>Structures\<close>

abbreviation (input) FAT_NAME_LEN :: nat where "FAT_NAME_LEN \<equiv> 11"
abbreviation (input) FAT_DIR_END :: char where "FAT_DIR_END \<equiv> CHR 0x00"
abbreviation (input) FAT_DIR_DELETED :: char where "FAT_DIR_DELETED \<equiv> CHR 0xE5"
abbreviation (input) FAT_ATTR_READ_ONLY :: u8 where "FAT_ATTR_READ_ONLY \<equiv> 0x01"
abbreviation (input) FAT_ATTR_HIDDEN :: u8 where "FAT_ATTR_HIDDEN \<equiv> 0x02"
abbreviation (input) FAT_ATTR_SYSTEM :: u8 where "FAT_ATTR_SYSTEM \<equiv> 0x04"
abbreviation (input) FAT_ATTR_VOLUME :: u8 where "FAT_ATTR_VOLUME \<equiv> 0x08"
abbreviation (input) FAT_ATTR_DIRECTORY :: u8 where "FAT_ATTR_DIRECTORY \<equiv> 0x10"
abbreviation (input) FAT_ATTR_DEVICE :: u8 where "FAT_ATTR_DEVICE \<equiv> 0x40"
abbreviation (input) FAT_ATTR_RESERVED :: u8 where "FAT_ATTR_RESERVED \<equiv> 0x80"
abbreviation (input) FAT_END_CLUSTER :: u32 where "FAT_END_CLUSTER \<equiv> 0x0FFFFFF8"

definition FAT_ATTR_BLOCKED :: u8 where
  "FAT_ATTR_BLOCKED = FAT_ATTR_HIDDEN OR FAT_ATTR_SYSTEM OR FAT_ATTR_VOLUME OR
     FAT_ATTR_DEVICE OR FAT_ATTR_RESERVED"

record fat_dir_entry =
  fe_name :: "char list"
  fe_attrs :: u8
  fe_filename_case :: u8
  fe_ctime_ds :: u8
  fe_ctime :: u16
  fe_cdate :: u16
  fe_adate :: u16
  fe_cluster_high :: u16
  fe_mtime :: u16
  fe_mdate :: u16
  fe_cluster_low :: u16
  fe_size :: u32

text \<open>The entry that starts at a byte of a block, read in the layout of the structure.\<close>

definition u16_at :: "u8 list \<Rightarrow> nat \<Rightarrow> u16" where
  "u16_at blk i = ucast (le16 blk i)"

definition fat_entry_at :: "u8 list \<Rightarrow> nat \<Rightarrow> fat_dir_entry" where
  "fat_entry_at blk i =
     \<lparr>fe_name = map (\<lambda>b. char_of (uint b)) (take FAT_NAME_LEN (drop i blk)),
      fe_attrs = blk ! (i + 11), fe_filename_case = blk ! (i + 12), fe_ctime_ds = blk ! (i + 13),
      fe_ctime = u16_at blk (i + 14), fe_cdate = u16_at blk (i + 16), fe_adate = u16_at blk (i + 18),
      fe_cluster_high = u16_at blk (i + 20), fe_mtime = u16_at blk (i + 22),
      fe_mdate = u16_at blk (i + 24), fe_cluster_low = u16_at blk (i + 26),
      fe_size = le32 blk (i + 28)\<rparr>"

abbreviation (input) DIRENT_NAME_MAX :: nat where "DIRENT_NAME_MAX \<equiv> 16"
abbreviation (input) DT_DIR :: u8 where "DT_DIR \<equiv> 4"
abbreviation (input) DT_REG :: u8 where "DT_REG \<equiv> 8"

record dirent =
  de_ino :: u32
  de_mtime :: time_t
  de_mode :: mode_t
  de_type :: u8
  de_name :: "char list"

text \<open>A directory entry in the caller's buffer: little-endian fields, then the name.\<close>

abbreviation (input) sizeof_dirent :: nat where "sizeof_dirent \<equiv> 27"

definition b2c :: "u8 \<Rightarrow> char" where "b2c b = char_of (uint b)"

definition c2b :: "char \<Rightarrow> u8" where "c2b c = word_of_int (of_char c)"

definition dirent_bytes :: "dirent \<Rightarrow> char list" where
  "dirent_bytes d =
     map (\<lambda>i. b2c (byte (de_ino d) i)) [0, 1, 2, 3] @
     map (\<lambda>i. b2c (byte (de_mtime d) i)) [0, 1, 2, 3] @
     [b2c (ucast (de_mode d)), b2c (ucast (drop_bit 8 (de_mode d))), b2c (de_type d)] @ de_name d"

definition dirent_at :: "char list \<Rightarrow> nat \<Rightarrow> dirent" where
  "dirent_at data i =
     (let b = (\<lambda>k. c2b (data ! (i + k))) in
      \<lparr>de_ino = join4 (b 0) (b 1) (b 2) (b 3), de_mtime = join4 (b 4) (b 5) (b 6) (b 7),
       de_mode = ucast (b 8) OR push_bit 8 (ucast (b 9)), de_type = b 10,
       de_name = take DIRENT_NAME_MAX (drop (i + 11) data)\<rparr>)"

section \<open>Names\<close>

definition toggle_case :: "char \<Rightarrow> char" where
  "toggle_case ch = char_of ((of_char ch :: int) XOR 0x20)"

definition is_lower :: "char \<Rightarrow> bool" where
  "is_lower ch \<longleftrightarrow> (0x61 :: int) \<le> of_char ch \<and> (of_char ch :: int) \<le> 0x7A"

definition is_upper :: "char \<Rightarrow> bool" where
  "is_upper ch \<longleftrightarrow> (0x41 :: int) \<le> of_char ch \<and> (of_char ch :: int) \<le> 0x5A"

definition invalid_chars :: "char list" where
  "invalid_chars = CHR 0x22 # ''*+,/:;<=>?['' @ CHR 0x5C # '']^|''"

fun fat_format_loop ::
  "char list \<Rightarrow> char list \<Rightarrow> nat \<Rightarrow> nat \<Rightarrow> bool \<Rightarrow> (u8 \<times> char list) option" where
  "fat_format_loop out name 0 posn dot = Some (1, out)"
| "fat_format_loop out name (Suc namelen) posn dot =
     (let ch = cchar name in
      if (of_char ch :: int) < 0x21 \<or> (of_char ch :: int) > 0x7E then Some (0, out)
      else if ch = DOT \<and> dot then Some (0, out)
      else if ch \<noteq> DOT \<and> ch \<in> set invalid_chars then Some (0, out)
      else
        (let posn1 = (if ch = DOT then 8 else posn); dot1 = (ch = DOT \<or> dot);
             ch1 = (if is_lower ch then toggle_case ch else ch) in
         if dot1 \<and> posn1 \<ge> 11 then Some (0, out)
         else if \<not> dot1 \<and> posn1 \<ge> 8 then Some (0, out)
         else do { out1 \<leftarrow> arr_set out posn1 ch1;
                   fat_format_loop out1 (tl name) namelen (posn1 + 1) dot1 }))"

text \<open>
  The buffer is the result together with the return value. For the empty name the C function returns
  before it fills the buffer; the buffer of spaces given here for that case stands for an unchanged one.
\<close>

definition fat_format_name :: "char list \<Rightarrow> nat \<Rightarrow> (u8 \<times> char list) option" where
  "fat_format_name name namelen =
     (let out = replicate FAT_NAME_LEN CHR '' '' in
      if namelen = 0 then Some (0, out)
      else if cchar name = DOT then
        (if namelen = 1 then do { out1 \<leftarrow> arr_set out 0 DOT; Some (1, out1) }
         else if namelen = 2 \<and> cchar (tl name) = DOT then
           do { out1 \<leftarrow> arr_set out 0 DOT; out2 \<leftarrow> arr_set out1 1 DOT; Some (1, out2) }
         else Some (0, out))
      else fat_format_loop out name namelen 0 False)"

fun fat_convert_name :: "char list \<Rightarrow> nat \<Rightarrow> char list \<Rightarrow> nat \<Rightarrow> (nat \<times> char list) option" where
  "fat_convert_name outname posn inname 0 = Some (posn, outname)"
| "fat_convert_name outname posn inname (Suc len) =
     (let ch = cchar inname in
      if ch = CHR '' '' then Some (posn, outname)
      else do { o1 \<leftarrow> arr_set outname posn (if is_upper ch then toggle_case ch else ch);
                fat_convert_name o1 (posn + 1) (tl inname) len })"

definition fat_convert_time_to_unix :: "fat_dir_entry \<Rightarrow> time_t" where
  "fat_convert_time_to_unix entry = 0"

text \<open>The name part of \<^verbatim>\<open>fat_convert_dirent\<close>.\<close>

definition fat_convert_dirent_name :: "char list \<Rightarrow> char list \<Rightarrow> char list option" where
  "fat_convert_dirent_name outname name =
     (if cchar name \<noteq> DOT then
        do { (posn, n1) \<leftarrow> fat_convert_name outname 0 name 8;
             (posn2, n2) \<leftarrow>
               (if name ! 8 \<noteq> CHR '' '' then
                  do { n2 \<leftarrow> arr_set n1 posn DOT;
                       fat_convert_name n2 (posn + 1) (drop 8 name) 3 }
                else Some (posn, n1));
             arr_set n2 posn2 NUL }
      else
        do { n1 \<leftarrow> arr_set outname 0 DOT;
             if name ! 1 = DOT then
               do { n2 \<leftarrow> arr_set n1 1 DOT; arr_set n2 2 NUL }
             else arr_set n1 1 NUL })"

definition fat_convert_dirent :: "dirent \<Rightarrow> fat_dir_entry \<Rightarrow> (u8 \<times> dirent) option" where
  "fat_convert_dirent out entry =
     (let ch = cchar (fe_name entry) in
      if ch = FAT_DIR_END \<or> ch = FAT_DIR_DELETED then Some (0, out)
      else if fe_attrs entry AND FAT_ATTR_BLOCKED \<noteq> 0 then Some (0, out)
      else
        do { nm \<leftarrow> fat_convert_dirent_name (de_name out) (fe_name entry);
             let mode = (if fe_attrs entry AND FAT_ATTR_READ_ONLY \<noteq> 0 then 0x16D else 0x1ED);
             let isdir = (fe_attrs entry AND FAT_ATTR_DIRECTORY \<noteq> 0);
             Some (1, out\<lparr>de_ino := fe_size entry, de_mtime := fat_convert_time_to_unix entry,
                          de_mode := mode OR (if isdir then S_IFDIR else S_IFREG),
                          de_type := (if isdir then DT_DIR else DT_REG), de_name := nm\<rparr>) })"

section \<open>Cluster chains\<close>

definition fat_get :: "u32 \<Rightarrow> sdcard \<Rightarrow> u32 option \<times> sdcard" where
  "fat_get cluster s =
     (if cluster > sdi_cluster_count s + 1 then (None, s)
      else
        (let (r, s1) = sd_cache_read (sdi_fat1 s + drop_bit 7 cluster) s in
         if r \<noteq> 0 then (None, s1)
         else
           (let offset = cluster AND 0x7F in
            (Some (le32 (sdi_block s1) (unat offset * 4) AND 0x0FFFFFFF), s1))))"

definition fat_get_next_cluster :: "u32 \<Rightarrow> sdcard \<Rightarrow> u32 \<times> sdcard" where
  "fat_get_next_cluster cluster s =
     (case fat_get cluster s of
        (Some nxt, s1) \<Rightarrow> if nxt < FAT_END_CLUSTER then (nxt, s1) else (0, s1)
      | (None, s1) \<Rightarrow> (0, s1))"

section \<open>Correctness of the name conversion\<close>

lemma char_all:
  assumes "list_all (\<lambda>n. P (char_of (n :: int))) [0 .. 255]"
  shows "P c"
proof -
  have "(of_char c :: nat) < 256" by simp
  then have "(of_char c :: int) < 256" using of_nat_of_char [of c, where 'a = int] by (metis of_nat_less_numeral_iff)
  moreover have "0 \<le> (of_char c :: int)" using of_nat_of_char [of c, where 'a = int] by (metis of_nat_0_le_iff)
  ultimately have "(of_char c :: int) \<in> set [0 .. 255]" by simp
  then have "P (char_of (of_char c :: int))" using assms by (simp only: list_all_iff)
  then show ?thesis by simp
qed

text \<open>The characters of an 8.3 name, and the two case conversions.\<close>

definition ok83 :: "char \<Rightarrow> bool" where
  "ok83 c \<longleftrightarrow> 0x21 \<le> (of_char c :: int) \<and> (of_char c :: int) \<le> 0x7E \<and> c \<notin> set invalid_chars \<and> c \<noteq> DOT"

definition upcase :: "char \<Rightarrow> char" where
  "upcase c = (if is_lower c then toggle_case c else c)"

definition downcase :: "char \<Rightarrow> char" where
  "downcase c = (if is_upper c then toggle_case c else c)"

lemma case_facts:
  "ok83 c \<longrightarrow> upcase c \<noteq> CHR '' '' \<and> upcase c \<noteq> DOT \<and> upcase c \<noteq> NUL \<and> downcase (upcase c) = downcase c \<and>
     downcase c \<noteq> NUL"
proof (rule char_all [where P = "\<lambda>c. ok83 c \<longrightarrow> upcase c \<noteq> CHR '' '' \<and> upcase c \<noteq> DOT \<and>
    upcase c \<noteq> NUL \<and> downcase (upcase c) = downcase c \<and> downcase c \<noteq> NUL"])
  show "list_all (\<lambda>n. ok83 (char_of (n :: int)) \<longrightarrow> upcase (char_of n) \<noteq> CHR '' '' \<and>
      upcase (char_of n) \<noteq> DOT \<and> upcase (char_of n) \<noteq> NUL \<and>
      downcase (upcase (char_of n)) = downcase (char_of n) \<and> downcase (char_of n) \<noteq> NUL) [0 .. 255]"
    by code_simp
qed

lemma fat_format_loop_base:
  assumes "\<forall>c \<in> set name. ok83 c" and "length pre + length name \<le> 8" and "length (pre @ rest) = 11"
  shows "fat_format_loop (pre @ rest) (name @ tail) (length name + n) (length pre) False =
    fat_format_loop (pre @ map upcase name @ drop (length name) rest) tail n (length pre + length name) False"
  using assms
proof (induction name arbitrary: pre rest)
  case (Cons c name)
  obtain r rest' where rest: "rest = r # rest'" using Cons.prems by (cases rest) auto
  have c: "ok83 c" using Cons.prems by simp
  have "fat_format_loop (pre @ rest) ((c # name) @ tail) (length (c # name) + n) (length pre) False =
      fat_format_loop ((pre @ [upcase c]) @ rest') (name @ tail) (length name + n) (length (pre @ [upcase c])) False"
    using Cons.prems c rest by (simp add: Let_def ok83_def upcase_def arr_set_def not_less)
  also have "\<dots> = fat_format_loop (pre @ map upcase (c # name) @ drop (length (c # name)) rest) tail n
      (length pre + length (c # name)) False"
    using Cons.IH [of "pre @ [upcase c]" rest'] Cons.prems rest by simp
  finally show ?case .
qed simp

lemma fat_convert_name_run:
  assumes "\<forall>c \<in> set w. c \<noteq> CHR '' ''" and "length w \<le> n" and "length pre + length w \<le> length (pre @ rest)"
    and "length w < n \<longrightarrow> cchar tail = CHR '' ''"
  shows "fat_convert_name (pre @ rest) (length pre) (w @ tail) n =
    Some (length pre + length w, pre @ map downcase w @ drop (length w) rest)"
  using assms
proof (induction w arbitrary: pre rest n)
  case Nil
  then show ?case by (cases n) auto
next
  case (Cons c w)
  obtain r rest' where rest: "rest = r # rest'" using Cons.prems by (cases rest) auto
  obtain k where n: "n = Suc k" using Cons.prems(2) by (cases n) auto
  show ?case
    using Cons.IH [of k "pre @ [downcase c]" rest'] Cons.prems rest n
    by (simp add: arr_set_def downcase_def Let_def)
qed

text \<open>
  C11. Names without an extension survive the conversion to the 8.3 form and back. A name of
  one to eight valid characters is formatted as its upper-case letters padded with
  spaces, and converting a directory entry of that name gives back the name in lower case,
  within the 16 bytes of \<^verbatim>\<open>d_name\<close>.
\<close>

theorem fat_name_roundtrip:
  assumes "\<forall>c \<in> set name. ok83 c" and "0 < length name" and "length name \<le> 8"
    and "length d = DIRENT_NAME_MAX"
  shows "fat_format_name name (length name) =
      Some (1, map upcase name @ replicate (FAT_NAME_LEN - length name) CHR '' '') \<and>
    (\<exists>d'. fat_convert_dirent_name d (map upcase name @ replicate (FAT_NAME_LEN - length name) CHR '' '') = Some d' \<and>
       length d' = DIRENT_NAME_MAX \<and> cstr d' = map downcase name)"
proof -
  let ?sp = "\<lambda>n. replicate n CHR '' ''"
  let ?w = "map upcase name"
  have up: "c \<in> set ?w \<Longrightarrow> c \<noteq> CHR '' '' \<and> c \<noteq> DOT" for c using assms(1) case_facts by auto
  have fmt: "fat_format_name name (length name) = Some (1, ?w @ ?sp (11 - length name))"
  proof -
    have "cchar name \<noteq> DOT" using assms(1,2) by (cases name) (auto simp: ok83_def)
    then show ?thesis
      using assms(2) fat_format_loop_base [OF assms(1), of "[]" "?sp 11" "[]" 0] assms(3)
      by (simp add: fat_format_name_def)
  qed
  have conv: "fat_convert_name d 0 (?w @ ?sp (11 - length name)) 8 =
      Some (length name, map downcase name @ drop (length name) d)"
    using fat_convert_name_run [of ?w 8 "[]" d "?sp (11 - length name)"] assms up case_facts
    by (auto simp: cchar_conv_nth)
  have "cchar (?w @ ?sp (11 - length name)) \<noteq> DOT" using up assms(2) by (cases name) auto
  moreover have "(?w @ ?sp (11 - length name)) ! 8 = CHR '' ''"
    using assms(3) by (simp add: nth_append)
  ultimately have "fat_convert_dirent_name d (?w @ ?sp (11 - length name)) =
      Some ((map downcase name @ drop (length name) d)[length name := NUL])"
    using conv assms(3,4) by (simp add: fat_convert_dirent_name_def arr_set_def)
  moreover have "(map downcase name @ drop (length name) d)[length name := NUL] =
      map downcase name @ NUL # drop (Suc (length name)) d"
    using assms(3,4) by (simp add: list_update_append Cons_nth_drop_Suc [symmetric] upd_conv_take_nth_drop)
  moreover have "NUL \<notin> set (map downcase name)" using assms(1) case_facts by (auto simp: image_iff) metis
  ultimately show ?thesis using fmt assms(3,4) cstr_append_NUL [of "map downcase name"] by simp
qed

theorem fat_name_roundtrip_witness:
  "fat_format_name ''Notes'' 5 = Some (1, ''NOTES      '') \<and>
   (\<exists>d'. fat_convert_dirent_name (replicate 16 NUL) ''NOTES      '' = Some d' \<and> cstr d' = ''notes'')"
proof -
  have ok: "\<forall>c \<in> set ''Notes''. ok83 c" unfolding list_all_iff [symmetric] by code_simp
  have up: "map upcase ''Notes'' @ replicate (FAT_NAME_LEN - length ''Notes'') CHR '' '' = ''NOTES      ''"
    "map downcase ''Notes'' = ''notes''" by code_simp+
  have len: "length ''Notes'' = 5" "0 < length ''Notes''" "length ''Notes'' \<le> 8"
    "length (replicate 16 NUL) = DIRENT_NAME_MAX" by simp_all
  show ?thesis
    using fat_name_roundtrip [OF ok len(2-4), unfolded up, unfolded len(1)] by blast
qed

lemma fat_format_loop_ext:
  assumes "\<forall>c \<in> set ext. ok83 c" and "length out = FAT_NAME_LEN" and "8 < posn" and "posn \<le> 11"
  shows "\<exists>out'. fat_format_loop out ext (length ext) posn True =
      Some (if posn + length ext \<le> 11 then 1 else 0, out') \<and> out' ! 8 = out ! 8"
  using assms
proof (induction ext arbitrary: out posn)
  case (Cons c ext)
  have c: "ok83 c" using Cons.prems by simp
  show ?case
  proof (cases "posn = 11")
    case True
    then show ?thesis using c by (simp add: Let_def ok83_def)
  next
    case False
    then have "fat_format_loop out (c # ext) (length (c # ext)) posn True =
        fat_format_loop (out[posn := upcase c]) ext (length ext) (posn + 1) True"
      using c Cons.prems by (simp add: Let_def ok83_def arr_set_def upcase_def)
    then show ?thesis
      using Cons.IH [of "out[posn := upcase c]" "posn + 1"] Cons.prems False by simp
  qed
qed simp

text \<open>
  C34. Names with an extension are not converted to the 8.3 form. The separating dot is itself
  stored as the first character of the extension, so a name with an extension of three or more
  characters is refused, and one with a shorter extension gives a name with a dot at
  position 8, which no 8.3 directory entry has: such files cannot be looked up.
\<close>

theorem fat_format_name_extension:
  assumes "\<forall>c \<in> set (base @ ext). ok83 c" and "0 < length base" and "length base \<le> 8"
  shows "\<exists>out. fat_format_name (base @ DOT # ext) (length (base @ DOT # ext)) =
      Some (if length ext \<le> 2 then 1 else 0, out) \<and> out ! 8 = DOT"
proof -
  let ?out = "map upcase base @ replicate (11 - length base) CHR '' ''"
  have "cchar (base @ DOT # ext) \<noteq> DOT" using assms(1,2) by (cases base) (auto simp: ok83_def)
  then have "fat_format_name (base @ DOT # ext) (length (base @ DOT # ext)) =
      fat_format_loop ?out (DOT # ext) (Suc (length ext)) (length base) False"
    using fat_format_loop_base [of base "[]" "replicate 11 CHR '' ''" "DOT # ext" "Suc (length ext)"] assms
    by (simp add: fat_format_name_def)
  also have "\<dots> = fat_format_loop (?out[8 := DOT]) ext (length ext) 9 True"
    using assms(3) by (simp add: Let_def arr_set_def is_lower_def)
  finally show ?thesis
    using fat_format_loop_ext [of ext "?out[8 := DOT]" 9] assms by auto
qed

theorem fat_format_name_extension_witness:
  "\<exists>out. fat_format_name ''readme.txt'' 10 = Some (0, out) \<and> out ! 8 = DOT"
proof -
  have "list_all ok83 (''readme'' @ ''txt'')" by code_simp
  then show ?thesis using fat_format_name_extension [of "''readme''" "''txt''"]
    by (simp add: list_all_iff eval_nat_numeral)
qed

end
