(* ===== verification/Kdev.thy ===== *)
theory Kdev
  imports Kbuf
begin

unbundle bit_operations_syntax

text \<open>
  The character devices: the device table \<^verbatim>\<open>os/drivers/devices.c\<close>, the memory devices
  \<^verbatim>\<open>os/drivers/misc/null.c\<close> and the console \<^verbatim>\<open>os/drivers/tty/basictty.c\<close>, for both
  targets. A read returns the result, the bytes it stored from the start of the caller's buffer,
  and the new state. What a client may rely on is the locale \<open>char_device\<close>, which every
  operation table of this theory satisfies.
\<close>

section \<open>Device numbers\<close>

definition makedev :: "u8 \<Rightarrow> u8 \<Rightarrow> dev_t" where
  "makedev maj mnr = push_bit 8 (ucast maj) OR ucast mnr"

definition DEV_NULL :: dev_t where "DEV_NULL = makedev 1 3"
definition DEV_ZERO :: dev_t where "DEV_ZERO = makedev 1 5"
definition DEV_FULL :: dev_t where "DEV_FULL = makedev 1 7"
definition DEV_TTY0 :: dev_t where "DEV_TTY0 = makedev 4 0"
definition DEV_TTY :: dev_t where "DEV_TTY = makedev 5 0"
definition DEV_CONSOLE :: dev_t where "DEV_CONSOLE = makedev 5 1"
definition DEV_MMCBLK0 :: dev_t where "DEV_MMCBLK0 = makedev 179 0"

section \<open>Opening\<close>

definition set_file_op :: "file_operations \<Rightarrow> fptr \<Rightarrow> kstate \<Rightarrow> (int \<times> kstate) option" where
  "set_file_op ops f s =
     do { v \<leftarrow> get_file f s; Some (0, put_file f (v\<lparr>f_op := Some ops\<rparr>) s) }"

definition open_dev_null :: "fptr \<Rightarrow> kstate \<Rightarrow> (int \<times> kstate) option" where
  "open_dev_null = set_file_op Dev_null_operations"

definition open_dev_zero :: "fptr \<Rightarrow> kstate \<Rightarrow> (int \<times> kstate) option" where
  "open_dev_zero = set_file_op Dev_zero_operations"

definition open_dev_full :: "fptr \<Rightarrow> kstate \<Rightarrow> (int \<times> kstate) option" where
  "open_dev_full = set_file_op Dev_full_operations"

definition open_dev_tty0 :: "fptr \<Rightarrow> kstate \<Rightarrow> (int \<times> kstate) option" where
  "open_dev_tty0 = set_file_op Basic_tty_operations"

definition open_dev_console :: "fptr \<Rightarrow> kstate \<Rightarrow> (int \<times> kstate) option" where
  "open_dev_console = set_file_op Raw_tty_operations"

type_synonym device_info = "dev_t \<times> (fptr \<Rightarrow> kstate \<Rightarrow> (int \<times> kstate) option)"

definition char_devices :: "device_info list" where
  "char_devices =
     [(DEV_NULL, open_dev_null), (DEV_ZERO, open_dev_zero), (DEV_FULL, open_dev_full),
      (DEV_TTY, open_dev_tty0), (DEV_TTY0, open_dev_tty0), (DEV_CONSOLE, open_dev_console),
      (0, \<lambda>f s. None)]"

definition block_devices :: "device_info list" where
  "block_devices = [(0, \<lambda>f s. None)]"

text \<open>The walk over a table up to its zero entry.\<close>

fun device_open :: "dev_t \<Rightarrow> fptr \<Rightarrow> device_info list \<Rightarrow> kstate \<Rightarrow> (int \<times> kstate) option" where
  "device_open dev f [] s = None"
| "device_open dev f ((d, opn) # infos) s =
     (if d = 0 then Some (- ENXIO, s)
      else if d = dev then opn f s
      else device_open dev f infos s)"

definition char_device_open :: "dev_t \<Rightarrow> fptr \<Rightarrow> kstate \<Rightarrow> (int \<times> kstate) option" where
  "char_device_open dev f s = device_open dev f char_devices s"

definition block_device_open :: "dev_t \<Rightarrow> fptr \<Rightarrow> kstate \<Rightarrow> (int \<times> kstate) option" where
  "block_device_open dev f s = device_open dev f block_devices s"

section \<open>Memory devices\<close>

text \<open>\<^verbatim>\<open>return size\<close> converts a \<^verbatim>\<open>size_t\<close> to a 16-bit signed \<^verbatim>\<open>ssize_t\<close>.\<close>

definition dev_null_read :: "kfile \<Rightarrow> u16 \<Rightarrow> kstate \<Rightarrow> int \<times> char list \<times> kstate" where
  "dev_null_read f sz s = (0, [], s)"

definition dev_zero_read :: "kfile \<Rightarrow> u16 \<Rightarrow> kstate \<Rightarrow> int \<times> char list \<times> kstate" where
  "dev_zero_read f sz s = (sint sz, replicate (unat sz) NUL, s)"

definition dev_null_write :: "kfile \<Rightarrow> char list \<Rightarrow> u16 \<Rightarrow> kstate \<Rightarrow> int \<times> kstate" where
  "dev_null_write f data sz s = (sint sz, s)"

definition dev_full_write :: "kfile \<Rightarrow> char list \<Rightarrow> u16 \<Rightarrow> kstate \<Rightarrow> int \<times> kstate" where
  "dev_full_write f data sz s = (- ENOSPC, s)"

section \<open>Console\<close>

abbreviation (input) CR :: char where "CR \<equiv> CHR 0x0D"
abbreviation (input) LF :: char where "LF \<equiv> CHR 0x0A"
abbreviation (input) BS :: char where "BS \<equiv> CHR 0x08"

definition chrin :: "kstate \<Rightarrow> int \<times> kstate" where
  "chrin s = (con_in s (con_pos s), s\<lparr>con_pos := Suc (con_pos s)\<rparr>)"

definition chrin_no_wait :: "kstate \<Rightarrow> int \<times> kstate" where
  "chrin_no_wait s = (con_in s (con_pos s), s\<lparr>con_pos := Suc (con_pos s)\<rparr>)"

definition chrout :: "char \<Rightarrow> kstate \<Rightarrow> kstate" where
  "chrout c s = s\<lparr>con_out := con_out s @ [c]\<rparr>"

definition int_to_char :: "int \<Rightarrow> char" where
  "int_to_char c = char_of (c mod 256)"

definition echo_newline :: "kstate \<Rightarrow> kstate" where
  "echo_newline s =
     (if CHRIN_ECHO (target s) then s
      else if CHROUT_LF_HANDLING (target s) then chrout LF s
      else chrout LF (chrout CR s))"

definition echo_char :: "int \<Rightarrow> kstate \<Rightarrow> kstate" where
  "echo_char c s =
     (if CHRIN_ECHO (target s) then s
      else if c = 8 \<or> c = 0x7F then chrout BS (chrout CHR '' '' (chrout BS s))
      else chrout (int_to_char c) s)"

text \<open>The argument \<open>n\<close> is the \<^verbatim>\<open>size\<close> that counts down; \<open>d\<close> are the bytes stored.\<close>

fun basic_tty_read_loop :: "nat \<Rightarrow> char list \<Rightarrow> kstate \<Rightarrow> char list \<times> kstate" where
  "basic_tty_read_loop 0 d s = (d, s)"
| "basic_tty_read_loop (Suc n) d s =
     (let (c, s1) = chrin s in
      if c < 0 then (d, s1)
      else if c = 13 \<or> c = 10 then (d @ [LF], echo_newline s1)
      else basic_tty_read_loop n (d @ [int_to_char c]) (echo_char c s1))"

definition basic_tty_read :: "kfile \<Rightarrow> u16 \<Rightarrow> kstate \<Rightarrow> int \<times> char list \<times> kstate" where
  "basic_tty_read f sz s =
     (let (d, s1) = basic_tty_read_loop (unat sz) [] s in
      (sint (of_nat (length d) :: u16), d, s1))"

fun basic_tty_write_loop :: "nat \<Rightarrow> char list \<Rightarrow> u16 \<Rightarrow> kstate \<Rightarrow> u16 \<times> kstate" where
  "basic_tty_write_loop 0 d result s = (result, s)"
| "basic_tty_write_loop (Suc n) d result s =
     (let c = cchar d;
          s1 = (if CHROUT_LF_HANDLING (target s) then chrout c s
                else if c \<noteq> LF then chrout c s
                else chrout LF (chrout CR s)) in
      basic_tty_write_loop n (tl d) (result + 1) s1)"

definition basic_tty_write :: "kfile \<Rightarrow> char list \<Rightarrow> u16 \<Rightarrow> kstate \<Rightarrow> int \<times> kstate" where
  "basic_tty_write f data sz s =
     (let (r, s1) = basic_tty_write_loop (unat sz) data 0 s in (sint r, s1))"

definition raw_tty_read :: "kfile \<Rightarrow> u16 \<Rightarrow> kstate \<Rightarrow> int \<times> char list \<times> kstate" where
  "raw_tty_read f sz s =
     (if sz = 0 then (0, [], s)
      else if CHROUT_NO_WAIT (target s) \<and> f_flags f AND O_NONBLOCK \<noteq> 0 then
        (let (ch, s1) = chrin_no_wait s in
         if ch < 0 then (0, [], s1) else (1, [int_to_char ch], s1))
      else (let (ch, s1) = chrin s in (1, [int_to_char ch], s1)))"

fun raw_tty_write_loop :: "nat \<Rightarrow> char list \<Rightarrow> kstate \<Rightarrow> kstate" where
  "raw_tty_write_loop 0 d s = s"
| "raw_tty_write_loop (Suc n) d s = raw_tty_write_loop n (tl d) (chrout (cchar d) s)"

definition raw_tty_write :: "kfile \<Rightarrow> char list \<Rightarrow> u16 \<Rightarrow> kstate \<Rightarrow> int \<times> kstate" where
  "raw_tty_write f data sz s = (sint sz, raw_tty_write_loop (unat sz) data s)"

section \<open>What a client of a device relies on\<close>

text \<open>Two states that differ at most in the console.\<close>

definition same_but_console :: "kstate \<Rightarrow> kstate \<Rightarrow> bool" where
  "same_but_console s s' \<longleftrightarrow> s' = s\<lparr>con_pos := con_pos s', con_out := con_out s'\<rparr>"

lemma sbc_refl [simp]: "same_but_console s s"
  by (simp add: same_but_console_def)

lemma sbc_trans: "same_but_console s t \<Longrightarrow> same_but_console t u \<Longrightarrow> same_but_console s u"
  by (cases s, cases t, cases u) (simp add: same_but_console_def)

lemma sbc_chr [simp]: "same_but_console s (chrout c s)" "same_but_console s (snd (chrin s))"
  "same_but_console s (snd (chrin_no_wait s))"
  by (simp_all add: same_but_console_def chrout_def chrin_def chrin_no_wait_def)

lemma sbc_target: "same_but_console s s' \<Longrightarrow> target s' = target s"
  by (cases s, cases s') (simp add: same_but_console_def)

lemma sbc_echo: "same_but_console s (echo_newline s)" "same_but_console s (echo_char c s)"
  by (auto simp: echo_newline_def echo_char_def same_but_console_def chrout_def)

locale char_device =
  fixes dread :: "kfile \<Rightarrow> u16 \<Rightarrow> kstate \<Rightarrow> int \<times> char list \<times> kstate"
    and dwrite :: "kfile \<Rightarrow> char list \<Rightarrow> u16 \<Rightarrow> kstate \<Rightarrow> int \<times> kstate"
  assumes read_fits: "dread f sz s = (r, d, s') \<Longrightarrow> length d \<le> unat sz"
    and read_count: "dread f sz s = (r, d, s') \<Longrightarrow> r = sint (of_nat (length d) :: u16)"
    and read_frame: "dread f sz s = (r, d, s') \<Longrightarrow> same_but_console s s'"
    and write_result: "dwrite f data sz s = (r, s') \<Longrightarrow> r = sint sz \<or> r = - ENOSPC"
    and write_frame: "dwrite f data sz s = (r, s') \<Longrightarrow> same_but_console s s'"
begin

text \<open>A client that reads with the buffer sizes \<open>szs\<close>, one after the other.\<close>

fun read_all :: "kfile \<Rightarrow> u16 list \<Rightarrow> kstate \<Rightarrow> char list \<times> kstate" where
  "read_all f [] s = ([], s)"
| "read_all f (sz # szs) s =
     (let (r, d, s1) = dread f sz s; (ds, s2) = read_all f szs s1 in (d @ ds, s2))"

lemma read_all_ok:
  "read_all f szs s = (d, s') \<Longrightarrow> length d \<le> sum_list (map unat szs) \<and> same_but_console s s'"
proof (induction szs arbitrary: s d s')
  case (Cons sz szs)
  obtain r d1 s1 where 1: "dread f sz s = (r, d1, s1)" by (metis prod.exhaust)
  obtain d2 s2 where 2: "read_all f szs s1 = (d2, s2)" by (metis prod.exhaust)
  show ?case
    using Cons.prems 1 2 Cons.IH [OF 2] read_fits [OF 1] read_frame [OF 1]
    by (auto intro: sbc_trans)
qed simp

end

lemma basic_tty_read_loop_ok:
  "basic_tty_read_loop n d s = (d', s') \<Longrightarrow>
   length d' \<le> length d + n \<and> same_but_console s s' \<and> (\<exists>e. d' = d @ e)"
proof (induction n arbitrary: d s)
  case (Suc n)
  obtain c s1 where c: "chrin s = (c, s1)" by (metis prod.exhaust)
  have s1: "same_but_console s s1" using sbc_chr(2) [of s] c by simp
  show ?case
    using Suc.prems c s1 Suc.IH [of "d @ [int_to_char c]" "echo_char c s1"]
      sbc_trans [OF s1 sbc_echo(1)] sbc_trans [OF s1 sbc_echo(2)]
    by (auto split: if_splits dest: sbc_trans)
qed simp

lemma basic_tty_write_loop_ok:
  "basic_tty_write_loop n d r s = (r', s') \<Longrightarrow> r' = r + of_nat n \<and> same_but_console s s'"
proof (induction n arbitrary: d r s)
  case (Suc n)
  let ?s1 = "if CHROUT_LF_HANDLING (target s) then chrout (cchar d) s
    else if cchar d \<noteq> LF then chrout (cchar d) s else chrout LF (chrout CR s)"
  have "basic_tty_write_loop n (tl d) (r + 1) ?s1 = (r', s')" using Suc.prems by (simp add: Let_def)
  from Suc.IH [OF this] have "r' = r + of_nat (Suc n)" "same_but_console ?s1 s'"
    by (simp_all add: algebra_simps)
  moreover have "same_but_console s ?s1"
    using sbc_trans [OF sbc_chr(1) sbc_chr(1)] by simp
  ultimately show ?case using sbc_trans by blast
qed simp

lemma raw_tty_write_loop_ok: "same_but_console s (raw_tty_write_loop n d s)"
  by (induction n arbitrary: d s) (auto intro: sbc_trans [OF sbc_chr(1)])

interpretation dev_null: char_device dev_null_read dev_null_write
  by unfold_locales (auto simp: dev_null_read_def dev_null_write_def)

interpretation dev_zero: char_device dev_zero_read dev_null_write
  by unfold_locales (auto simp: dev_zero_read_def dev_null_write_def)

interpretation dev_full: char_device dev_zero_read dev_full_write
  by unfold_locales (auto simp: dev_zero_read_def dev_full_write_def)

interpretation basic_tty: char_device basic_tty_read basic_tty_write
  by unfold_locales
    (auto simp: basic_tty_read_def basic_tty_write_def split: prod.splits
      dest!: basic_tty_read_loop_ok basic_tty_write_loop_ok)

interpretation raw_tty: char_device raw_tty_read raw_tty_write
proof unfold_locales
  fix f sz s r d s'
  assume "raw_tty_read f sz s = (r, d, s')"
  then have *: "same_but_console s s'" "length d \<le> 1" "sz = 0 \<longrightarrow> d = []" "r = int (length d)"
    by (auto simp: raw_tty_read_def chrin_def chrin_no_wait_def same_but_console_def
        split: if_splits prod.splits)
  then show "same_but_console s s'" by simp
  have "0 < unat sz" if "sz \<noteq> 0" using that by (simp add: unat_gt_0)
  then show "length d \<le> unat sz" using * by (cases "sz = 0") auto
  have "length d = 0 \<or> length d = 1" using *(2) by linarith
  then show "r = sint (of_nat (length d) :: u16)" using *(4) by auto
qed (auto simp: raw_tty_write_def raw_tty_write_loop_ok)

section \<open>The line discipline of the console\<close>

text \<open>What the terminal receives for the bytes that are written.\<close>

definition tty_expand :: "target_config \<Rightarrow> char list \<Rightarrow> char list" where
  "tty_expand t cs =
     (if CHROUT_LF_HANDLING t then cs else concat (map (\<lambda>c. if c = LF then [CR, LF] else [c]) cs))"

lemma tty_expand_simps [simp]:
  "tty_expand t [] = []"
  "tty_expand t (c # cs) =
     (if CHROUT_LF_HANDLING t \<or> c \<noteq> LF then [c] else [CR, LF]) @ tty_expand t cs"
  by (auto simp: tty_expand_def)

lemma chrout_simps [simp]: "target (chrout c s) = target s" "con_out (chrout c s) = con_out s @ [c]"
  by (simp_all add: chrout_def)

lemma basic_tty_write_loop_out:
  "n \<le> length d \<Longrightarrow>
   con_out (snd (basic_tty_write_loop n d r s)) = con_out s @ tty_expand (target s) (take n d)"
proof (induction n arbitrary: d r s)
  case (Suc n)
  then obtain c d' where d: "d = c # d'" by (cases d) auto
  show ?case using Suc d by (simp add: Let_def)
qed simp

text \<open>
  C23. Writing to the terminal. \<^verbatim>\<open>basic_tty_write\<close> sends the bytes of the buffer in order, each
  line feed as a carriage return and a line feed unless the target converts line feeds itself,
  reports the whole size as written and changes nothing but the console.
\<close>

theorem basic_tty_write_output:
  assumes "unat sz \<le> length data"
  shows "\<exists>s'. basic_tty_write f data sz s = (sint sz, s') \<and> same_but_console s s' \<and>
    con_out s' = con_out s @ tty_expand (target s) (take (unat sz) data)"
proof -
  obtain r s' where l: "basic_tty_write_loop (unat sz) data 0 s = (r, s')" by (metis prod.exhaust)
  then have "r = sz" "same_but_console s s'" using basic_tty_write_loop_ok [OF l] by simp_all
  then show ?thesis using basic_tty_write_loop_out [OF assms, of 0 s] l by (simp add: basic_tty_write_def)
qed

theorem basic_tty_write_output_witness:
  "\<exists>s'. basic_tty_write blank_file (''ab'' @ [LF]) 3 blank_state = (3, s') \<and>
     con_out s' = ''ab'' @ [CR, LF]"
proof -
  have w: "unat (3 :: u16) = 3" "sint (3 :: u16) = 3" by code_simp+
  have "con_out blank_state = []" "target blank_state = eater_target"
    by (simp_all add: blank_state_def)
  then have out: "con_out blank_state @ tty_expand (target blank_state) (take 3 (''ab'' @ [LF])) =
      ''ab'' @ [CR, LF]"
    by (simp add: eater_target_def)
  have "unat (3 :: u16) \<le> length (''ab'' @ [LF])" using w by simp
  from basic_tty_write_output [OF this, of blank_file blank_state] show ?thesis
    unfolding w out by blast
qed

text \<open>A character that a line may contain.\<close>

definition line_char :: "int \<Rightarrow> bool" where
  "line_char c \<longleftrightarrow> 0 \<le> c \<and> c \<noteq> 13 \<and> c \<noteq> 10"

text \<open>What the terminal shows for a character of a line and for the end of the line.\<close>

definition tty_echo :: "target_config \<Rightarrow> int \<Rightarrow> char list" where
  "tty_echo t c = (if CHRIN_ECHO t then [] else if c \<in> {8, 0x7F} then [BS, CHR '' '', BS] else [int_to_char c])"

definition tty_echo_end :: "target_config \<Rightarrow> char list" where
  "tty_echo_end t = (if CHRIN_ECHO t then [] else if CHROUT_LF_HANDLING t then [LF] else [CR, LF])"

lemma echo_char_out: "echo_char c s = s\<lparr>con_out := con_out s @ tty_echo (target s) c\<rparr>"
  by (simp add: echo_char_def tty_echo_def chrout_def)

lemma echo_newline_out: "echo_newline s = s\<lparr>con_out := con_out s @ tty_echo_end (target s)\<rparr>"
  by (simp add: echo_newline_def tty_echo_end_def chrout_def)

lemma chrin_simps: "chrin s = (con_in s (con_pos s), s\<lparr>con_pos := Suc (con_pos s)\<rparr>)"
  by (simp add: chrin_def)

text \<open>The characters of the input from the current position on.\<close>

definition pending :: "nat \<Rightarrow> kstate \<Rightarrow> int list" where
  "pending k s = map (\<lambda>i. con_in s (con_pos s + i)) [0 ..< k]"

lemma pending_Suc:
  "pending (Suc k) s = con_in s (con_pos s) # pending k (s\<lparr>con_pos := Suc (con_pos s)\<rparr>)"
  unfolding pending_def upt_conv_Cons [OF zero_less_Suc] map_Suc_upt [symmetric] by (simp add: comp_def)

lemma pending_out [simp]: "pending k (s\<lparr>con_out := x\<rparr>) = pending k s"
  by (simp add: pending_def)

lemma basic_tty_read_loop_line:
  assumes "list_all line_char (pending k s)" and "k \<le> n"
    and "k < n \<longrightarrow> con_in s (con_pos s + k) \<in> {13, 10}"
  shows "basic_tty_read_loop n d s =
    (d @ map int_to_char (pending k s) @ (if k < n then [LF] else []),
     s\<lparr>con_pos := con_pos s + min (Suc k) n,
       con_out := con_out s @ concat (map (tty_echo (target s)) (pending k s)) @
         (if k < n then tty_echo_end (target s) else [])\<rparr>)"
  using assms
proof (induction n arbitrary: k d s)
  case (Suc n)
  show ?case
  proof (cases k)
    case 0
    then show ?thesis using Suc.prems(3) by (auto simp: chrin_simps echo_newline_out pending_def)
  next
    case (Suc k')
    let ?c = "con_in s (con_pos s)"
    let ?s1 = "echo_char ?c (s\<lparr>con_pos := Suc (con_pos s)\<rparr>)"
    have lc: "line_char ?c" and rest: "list_all line_char (pending k' ?s1)"
      using Suc.prems(1) Suc by (simp_all add: pending_Suc echo_char_out)
    have "basic_tty_read_loop (Suc n) d s = basic_tty_read_loop n (d @ [int_to_char ?c]) ?s1"
      using lc by (simp add: chrin_simps line_char_def)
    also have "\<dots> = (d @ map int_to_char (pending k s) @ (if k < Suc n then [LF] else []),
        s\<lparr>con_pos := con_pos s + min (Suc k) (Suc n),
          con_out := con_out s @ concat (map (tty_echo (target s)) (pending k s)) @
            (if k < Suc n then tty_echo_end (target s) else [])\<rparr>)"
      using Suc.IH [OF rest, of "d @ [int_to_char ?c]"] Suc.prems(2,3) Suc
      by (simp add: pending_Suc echo_char_out)
    finally show ?thesis .
  qed
qed (simp add: pending_def)

text \<open>
  C24. Reading from the terminal returns one line and echoes it. When the next \<open>k\<close> characters of the
  input are not line ends and \<open>k\<close> is smaller than the buffer, with a carriage return or line feed after
  them, \<^verbatim>\<open>basic_tty_read\<close> stores exactly these characters and a line feed; when the buffer is
  filled first it stores as many characters as the buffer holds and no more. The result is the number of
  bytes stored, and as many characters are taken from the input. What is sent to the terminal is the
  echo of these characters in order: nothing on a target whose input echoes by itself, otherwise the
  character, or a backspace, a space and a backspace for the two erase characters, and at the line end
  a line feed, after a carriage return where the target needs one. Nothing else changes.
\<close>

theorem basic_tty_read_line:
  assumes "list_all line_char (pending k s)" and "k \<le> unat sz"
    and "k < unat sz \<longrightarrow> con_in s (con_pos s + k) \<in> {13, 10}"
  shows "basic_tty_read f sz s =
    (sint (of_nat (min (Suc k) (unat sz)) :: u16),
     map int_to_char (pending k s) @ (if k < unat sz then [LF] else []),
     s\<lparr>con_pos := con_pos s + min (Suc k) (unat sz),
       con_out := con_out s @ concat (map (tty_echo (target s)) (pending k s)) @
         (if k < unat sz then tty_echo_end (target s) else [])\<rparr>)"
proof -
  have "length (pending k s) = k" by (simp add: pending_def)
  then show ?thesis using assms(2) by (simp add: add.commute basic_tty_read_def basic_tty_read_loop_line [OF assms])
qed

theorem basic_tty_read_line_witness:
  "\<exists>s'. basic_tty_read blank_file 80 (blank_state\<lparr>con_in := (\<lambda>i. [108, 115, 13] ! i)\<rparr>) =
     (3, ''ls'' @ [LF], s') \<and> con_out s' = ''ls'' @ [CR, LF]"
proof -
  let ?s = "blank_state\<lparr>con_in := (\<lambda>i. [108, 115, 13] ! i)\<rparr>"
  have w: "unat (80 :: u16) = 80" by code_simp
  have ch: "int_to_char 108 = CHR ''l''" "int_to_char 115 = CHR ''s''" by code_simp+
  have pos: "con_pos ?s = 0" "con_out ?s = []" "target ?s = eater_target" by (simp_all add: blank_state_def)
  have p: "pending 2 ?s = [108, 115]" by (simp add: pending_def pos(1) upt_rec numeral_2_eq_2)
  have 1: "list_all line_char (pending 2 ?s)" by (simp add: p line_char_def)
  have 2: "con_in ?s (con_pos ?s + 2) \<in> {13, 10}" unfolding pos by simp
  show ?thesis
    using basic_tty_read_line [OF 1, of 80 blank_file] 2 unfolding w p pos
    by (simp add: ch tty_echo_def tty_echo_end_def eater_target_def)
qed

end
