(* ===== verification/Fatfs.thy ===== *)
theory Fatfs
  imports Kinode Fatutils Kdev
begin

unbundle bit_operations_syntax

text \<open>
  The FAT file system, \<^verbatim>\<open>os/fs/fat/fatfs.c\<close>: reading along a chain of clusters, directory and
  file reads, lookup of a name in a directory, opening and mounting. The block that a read
  makes available is the SD card's cache, so a pointer into it is an offset. A read function
  gets the caller's buffer and returns its new contents; a store past its end is undefined.
\<close>

section \<open>Walking a file or directory\<close>

definition fatfs_info_new ::
  "fatfs_inode_info \<Rightarrow> u32 \<Rightarrow> u32 \<Rightarrow> sdcard \<Rightarrow> u8 \<times> fatfs_inode_info" where
  "fatfs_info_new info cluster sz d =
     (let info1 = info\<lparr>fi_first_cluster := cluster, fi_cluster := cluster, fi_size := sz,
                        fi_block := sd_cluster_to_block cluster d\<rparr> in
      if fi_block info1 = 0 then (0, info1)
      else (1, info1\<lparr>fi_offset := 0, fi_blocks_left := ucast (sdi_cluster_size d)\<rparr>))"

text \<open>The step to the next block or cluster: \<^const>\<open>None\<close> in the first component to go on.\<close>

definition fatfs_info_advance ::
  "fatfs_inode_info \<Rightarrow> sdcard \<Rightarrow> int option \<times> u32 \<times> fatfs_inode_info \<times> sdcard" where
  "fatfs_info_advance info d =
     (let blocks_left = (ucast (fi_blocks_left info) :: u8) - 1 in
      if blocks_left = 0 then
        (let (cluster, d1) = fat_get_next_cluster (fi_cluster info) d;
             info1 = info\<lparr>fi_cluster := cluster\<rparr> in
         if cluster = 0 then (Some 0, 0, info1\<lparr>fi_block := 0\<rparr>, d1)
         else
           (let block = sd_cluster_to_block cluster d1 in
            if block = 0 then (Some (- EIO), 0, info1, d1)
            else (None, block, info1\<lparr>fi_block := block,
                    fi_blocks_left := ucast (sdi_cluster_size d1), fi_offset := 0\<rparr>, d1)))
      else
        (let block = fi_block info + 1 in
         (None, block, info\<lparr>fi_block := block, fi_blocks_left := ucast blocks_left,
                            fi_offset := 0\<rparr>, d)))"

text \<open>The result and, when it is positive, the offset of the data in the cached block.\<close>

definition fatfs_info_read_prepare ::
  "fatfs_inode_info \<Rightarrow> sdcard \<Rightarrow> int \<times> nat \<times> fatfs_inode_info \<times> sdcard" where
  "fatfs_info_read_prepare info d =
     (if fi_block info = 0 then (0, 0, info, d)
      else
        (let (stop, block, info1, d1) =
           (if unat (fi_offset info) \<ge> SD_BLKSIZE then fatfs_info_advance info d
            else (None, fi_block info, info, d)) in
         case stop of
           Some r \<Rightarrow> (r, 0, info1, d1)
         | None \<Rightarrow>
             (let (st, d2) = sd_cache_read block d1 in
              if st \<noteq> 0 then (- EIO, 0, info1, d2)
              else
                (let offset = unat (fi_offset info1) in
                 (int SD_BLKSIZE - int offset, offset, info1, d2)))))"

abbreviation (input) sizeof_fat_dir_entry :: int where "sizeof_fat_dir_entry \<equiv> 32"

definition fatfs_info_read_dirent ::
  "fatfs_inode_info \<Rightarrow> sdcard \<Rightarrow> int \<times> fat_dir_entry option \<times> fatfs_inode_info \<times> sdcard" where
  "fatfs_info_read_dirent info d =
     (let (sz, off, info1, d1) = fatfs_info_read_prepare info d in
      if sz \<le> 0 then (sz, None, info1, d1)
      else if sz \<le> sizeof_fat_dir_entry then (- EINVAL, None, info1, d1)
      else (1, Some (fat_entry_at (sdi_block d1) off),
            info1\<lparr>fi_offset := fi_offset info1 + 32\<rparr>, d1))"

section \<open>Reading\<close>

text \<open>
  The loop of \<^verbatim>\<open>fatfs_dir_read\<close>: \<open>sz\<close> bytes of the caller's buffer are left and \<open>off\<close> is where
  \<open>out\<close> points in it.
\<close>

partial_function (option) fatfs_dir_read_loop ::
  "fptr \<Rightarrow> u16 \<Rightarrow> nat \<Rightarrow> int \<Rightarrow> char list \<Rightarrow> kstate \<Rightarrow> (int \<times> char list \<times> kstate) option" where [code]:
  "fatfs_dir_read_loop f sz off result data s =
     (if unat sz < sizeof_dirent then Some (result, data, s)
      else
        do { v \<leftarrow> get_file f s;
             info \<leftarrow> get_fatinfo (f_fatfs_info v) s;
             let (error, entry, info1, d1) = fatfs_info_read_dirent info (sd s);
             let s1 = put_fatinfo (f_fatfs_info v) info1 (s\<lparr>sd := d1\<rparr>);
             if error < 0 then Some (error, data, s1)
             else case entry of
               None \<Rightarrow> Some (result, data, s1)
             | Some e \<Rightarrow>
                 if cchar (fe_name e) = FAT_DIR_END then Some (result, data, s1)
                 else
                   do { (ok, out) \<leftarrow> fat_convert_dirent (dirent_at data off) e;
                        let s2 = put_file f (v\<lparr>f_posn := f_posn v + of_nat sizeof_dirent\<rparr>) s1;
                        if ok \<noteq> 0 then
                          do { data1 \<leftarrow> arr_blit data off (dirent_bytes out);
                               fatfs_dir_read_loop f (sz - of_nat sizeof_dirent) (off + sizeof_dirent)
                                 (result + int sizeof_dirent) data1 s2 }
                        else fatfs_dir_read_loop f sz off result data s2 } })"

definition fatfs_dir_read ::
  "fptr \<Rightarrow> u16 \<Rightarrow> char list \<Rightarrow> kstate \<Rightarrow> (int \<times> char list \<times> kstate) option" where
  "fatfs_dir_read f sz data s = fatfs_dir_read_loop f sz 0 0 data s"

partial_function (option) fatfs_file_read_loop ::
  "fptr \<Rightarrow> u16 \<Rightarrow> nat \<Rightarrow> int \<Rightarrow> char list \<Rightarrow> kstate \<Rightarrow> (int \<times> char list \<times> kstate) option" where [code]:
  "fatfs_file_read_loop f sz off result data s =
     (if sz = 0 then Some (result, data, s)
      else
        do { v \<leftarrow> get_file f s;
             info \<leftarrow> get_fatinfo (f_fatfs_info v) s;
             let remaining = fi_size info - f_posn v;
             let sz1 = (if remaining < ucast sz then ucast remaining else sz);
             if sz1 = 0 then Some (result, data, s)
             else
               (let (read_size, boff, info1, d1) = fatfs_info_read_prepare info (sd s);
                    s1 = put_fatinfo (f_fatfs_info v) info1 (s\<lparr>sd := d1\<rparr>) in
                if read_size < 0 then Some (read_size, data, s1)
                else if read_size = 0 then Some (result, data, s1)
                else
                  do { data1 \<leftarrow> arr_blit data off
                         (map b2c (take (nat read_size) (drop boff (sdi_block d1))));
                       fatfs_file_read_loop f (sz1 - word_of_int read_size) (off + nat read_size)
                         (result + read_size) data1 s1 }) })"

definition fatfs_file_read ::
  "fptr \<Rightarrow> u16 \<Rightarrow> char list \<Rightarrow> kstate \<Rightarrow> (int \<times> char list \<times> kstate) option" where
  "fatfs_file_read f sz data s = fatfs_file_read_loop f sz 0 0 data s"

section \<open>Closing\<close>

definition file_close_default :: "fptr \<Rightarrow> kstate \<Rightarrow> (int \<times> kstate) option" where
  "file_close_default f s =
     do { v \<leftarrow> get_file f s;
          if f_inode v \<noteq> 0 then do { s1 \<leftarrow> inode_drop (f_inode v) s; Some (0, s1) }
          else Some (0, s) }"

definition fatfs_close :: "fptr \<Rightarrow> kstate \<Rightarrow> (int \<times> kstate) option" where
  "fatfs_close f s =
     do { v \<leftarrow> get_file f s;
          s1 \<leftarrow> kmalloc_buf_free (f_fatfs_info v) s;
          file_close_default f s1 }"

section \<open>Lookup\<close>

definition fatfs_create_inode ::
  "fat_dir_entry \<Rightarrow> bptr \<Rightarrow> kstate \<Rightarrow> (bptr \<times> kstate) option" where
  "fatfs_create_inode entry parent s =
     do { (node, s1) \<leftarrow> inode_alloc Fatfs_operations s;
          if node = 0 then Some (0, s1)
          else
            do { (info, s2) \<leftarrow> kmalloc_buf_alloc s1;
                 if info = 0 then do { s3 \<leftarrow> inode_drop node s2; Some (0, s3) }
                 else
                   do { v \<leftarrow> get_fatinfo info s2;
                        let cluster = push_bit 16 (ucast (fe_cluster_high entry)) OR
                                      ucast (fe_cluster_low entry);
                        let s3 = put_fatinfo info (v\<lparr>fi_first_cluster := cluster,
                                   fi_size := fe_size entry\<rparr>) s2;
                        let mode = (if fe_attrs entry AND FAT_ATTR_READ_ONLY \<noteq> 0 then 0x16D else 0x1ED);
                        let kind = (if fe_attrs entry AND FAT_ATTR_DIRECTORY \<noteq> 0 then S_IFDIR else S_IFREG);
                        s4 \<leftarrow> upd_inode node (\<lambda>i. i\<lparr>i_u0 := info,
                                i_mtime := fat_convert_time_to_unix entry, i_mode := mode OR kind\<rparr>) s3;
                        Some (node, s4) } } }"

text \<open>The \<^verbatim>\<open>do ... while\<close> of \<^verbatim>\<open>fatfs_lookup\<close>; \<open>n\<close> is \<^verbatim>\<open>max_entries\<close>.\<close>

fun fatfs_lookup_loop ::
  "nat \<Rightarrow> fatfs_inode_info \<Rightarrow> char list \<Rightarrow> bptr \<Rightarrow> kstate \<Rightarrow> (int \<times> bptr \<times> kstate) option" where
  "fatfs_lookup_loop 0 reader name83 dir s = Some (- ENOENT, 0, s)"
| "fatfs_lookup_loop (Suc n) reader name83 dir s =
     (let (result, entry, reader1, d1) = fatfs_info_read_dirent reader (sd s);
          s1 = s\<lparr>sd := d1\<rparr> in
      if result < 0 then Some (result, 0, s1)
      else case entry of
        None \<Rightarrow> Some (- ENOENT, 0, s1)
      | Some e \<Rightarrow>
          if cchar (fe_name e) = FAT_DIR_END then Some (- ENOENT, 0, s1)
          else if cchar (fe_name e) = FAT_DIR_DELETED then
            fatfs_lookup_loop n reader1 name83 dir s1
          else if fe_attrs e AND FAT_ATTR_BLOCKED \<noteq> 0 then
            fatfs_lookup_loop n reader1 name83 dir s1
          else if fe_name e = name83 then
            do { (new_inode, s2) \<leftarrow> fatfs_create_inode e dir s1;
                 if new_inode \<noteq> 0 then Some (0, new_inode, s2) else Some (- ENOMEM, 0, s2) }
          else fatfs_lookup_loop n reader1 name83 dir s1)"

definition fatfs_lookup ::
  "bptr \<Rightarrow> char list \<Rightarrow> nat \<Rightarrow> kstate \<Rightarrow> (int \<times> bptr \<times> kstate) option" where
  "fatfs_lookup dir name namelen s =
     do { di \<leftarrow> get_inode dir s;
          if \<not> S_ISDIR (i_mode di) then Some (- ENOTDIR, 0, s)
          else
            do { (ok, name83) \<leftarrow> fat_format_name name namelen;
                 if ok = 0 then Some (- EINVAL, 0, s)
                 else
                   do { info \<leftarrow> get_fatinfo (i_fatfs_info di) s;
                        (det, s1) \<leftarrow>
                          (if fi_first_cluster info = FAT_END_CLUSTER then
                             do { (r, d1) \<leftarrow> sd_detect (sd s);
                                  Some (if r = SD_DETECT_NONE then None else Some (sdi_root d1), s\<lparr>sd := d1\<rparr>) }
                           else Some (Some (fi_first_cluster info), s));
                        case det of
                          None \<Rightarrow> Some (- ENOENT, 0, s1)
                        | Some cluster \<Rightarrow>
                            (let (ok, reader) = fatfs_info_new zero_fatinfo cluster 0 (sd s1) in
                             if ok = 0 then Some (- EIO, 0, s1)
                             else fatfs_lookup_loop 65535 reader name83 dir s1) } } }"

section \<open>Opening and mounting\<close>

text \<open>The common end of the two branches: a block for the position in the file, with the size
  read from the new block or given.\<close>

definition fatfs_open_info ::
  "fptr \<Rightarrow> u32 \<Rightarrow> (fatfs_inode_info \<Rightarrow> u32) \<Rightarrow> file_operations \<Rightarrow> kstate \<Rightarrow> (int \<times> kstate) option" where
  "fatfs_open_info f cluster sz ops s =
     do { (info, s1) \<leftarrow> kmalloc_buf_alloc s;
          if info = 0 then Some (- ENOMEM, s1)
          else
            do { v \<leftarrow> get_file f s1;
                 let s2 = put_file f (v\<lparr>f_fatfs_info := info\<rparr>) s1;
                 old \<leftarrow> get_fatinfo info s2;
                 let (ok, new) = fatfs_info_new old cluster (sz old) (sd s2);
                 let s3 = put_fatinfo info new s2;
                 if ok = 0 then do { s4 \<leftarrow> kmalloc_buf_free info s3; Some (- EIO, s4) }
                 else
                   do { v3 \<leftarrow> get_file f s3;
                        Some (0, put_file f (v3\<lparr>f_op := Some ops\<rparr>) s3) } } }"

definition fatfs_open :: "fptr \<Rightarrow> kstate \<Rightarrow> (int \<times> kstate) option" where
  "fatfs_open f s =
     do { v \<leftarrow> get_file f s;
          i \<leftarrow> get_inode (f_inode v) s;
          if S_ISDIR (f_mode v) then
            do { info \<leftarrow> get_fatinfo (i_fatfs_info i) s;
                 if fi_first_cluster info = FAT_END_CLUSTER then
                   do { (r, d1) \<leftarrow> sd_detect (sd s);
                        if r = SD_DETECT_NONE then Some (- EIO, s\<lparr>sd := d1\<rparr>)
                        else fatfs_open_info f (sdi_root d1) (\<lambda>_. 0) Fatfs_dir_operations (s\<lparr>sd := d1\<rparr>) }
                 else fatfs_open_info f (fi_first_cluster info) (\<lambda>_. 0) Fatfs_dir_operations s }
          else if S_ISREG (f_mode v) then
            do { info \<leftarrow> get_fatinfo (i_fatfs_info i) s;
                 fatfs_open_info f (fi_first_cluster info) fi_size Fatfs_file_operations s }
          else Some (- EPERM, s) }"

definition fatfs_init :: "kstate \<Rightarrow> kstate" where
  "fatfs_init s = (if HAVE_SD (target s) then s\<lparr>sd := sd_init (sd s)\<rparr> else s)"

definition fatfs_have_sd :: "kstate \<Rightarrow> bool" where
  "fatfs_have_sd s = HAVE_SD (target s)"

definition fatfs_mount_sd :: "bptr \<Rightarrow> kstate \<Rightarrow> (int \<times> kstate) option" where
  "fatfs_mount_sd dir s =
     (if \<not> HAVE_SD (target s) then Some (- ENODEV, s)
      else
        do { (rt, s1) \<leftarrow> inode_alloc Fatfs_operations s;
             if rt = 0 then Some (- ENOMEM, s1)
             else
               do { (info, s2) \<leftarrow> kmalloc_buf_alloc s1;
                    if info = 0 then do { s3 \<leftarrow> inode_drop rt s2; Some (- ENOMEM, s3) }
                    else
                      do { v \<leftarrow> get_fatinfo info s2;
                           let s3 = put_fatinfo info (v\<lparr>fi_first_cluster := FAT_END_CLUSTER\<rparr>) s2;
                           let (t, s4) = inode_get_mtime s3;
                           s5 \<leftarrow> upd_inode rt (\<lambda>i. i\<lparr>i_mode := S_IFDIR OR 0x1ED, i_mtime := t,
                                   i_u0 := info\<rparr>) s4;
                           (result, d6) \<leftarrow> sd_detect (sd s5);
                           s7 \<leftarrow> upd_inode dir (\<lambda>i. i\<lparr>i_mode := i_mode i OR S_ISVTX, i_u1 := rt\<rparr>)
                                  (s5\<lparr>sd := d6\<rparr>);
                           Some (if result = SD_DETECT_NONE then 1 else 0, s7) } } })"

end
