(* ===== verification/Ramfs.thy ===== *)
theory Ramfs
  imports Fatfs
begin

unbundle bit_operations_syntax

text \<open>
  The RAM file system, \<^verbatim>\<open>os/fs/ram/ramfs.c\<close>, and the calls through the operation tables of
  inodes. A directory is a chain of entries in buffers. A directory that is a mount point passes
  lookups and opens on to the inode mounted there.
\<close>

section \<open>Lookup\<close>

partial_function (option) ramfs_search ::
  "bptr \<Rightarrow> char list \<Rightarrow> nat \<Rightarrow> kstate \<Rightarrow> (int \<times> bptr \<times> kstate) option" where [code]:
  "ramfs_search entry name namelen s =
     (if entry = 0 then Some (- ENOENT, 0, s)
      else
        do { d \<leftarrow> get_dirent entry s;
             if unat (d_namelen d) = namelen then
               (if length (d_name d) < namelen then None
                else if take namelen (d_name d) = take namelen name then
                  (if d_inode d \<noteq> 0 then
                     do { s1 \<leftarrow> inode_ref (d_inode d) s; Some (0, d_inode d, s1) }
                   else Some (- EPERM, 0, s))
                else ramfs_search (d_next d) name namelen s)
             else ramfs_search (d_next d) name namelen s })"

text \<open>\<^verbatim>\<open>node->op->lookup\<close>, and through it \<^verbatim>\<open>ramfs_lookup\<close>.\<close>

partial_function (option) op_lookup ::
  "bptr \<Rightarrow> char list \<Rightarrow> nat \<Rightarrow> kstate \<Rightarrow> (int \<times> bptr \<times> kstate) option" where [code]:
  "op_lookup dir name namelen s =
     do { di \<leftarrow> get_inode dir s;
          case i_op di of
            None \<Rightarrow> None
          | Some Fatfs_operations \<Rightarrow> fatfs_lookup dir name namelen s
          | Some Ramfs_operations \<Rightarrow>
              if \<not> S_ISDIR (i_mode di) then Some (- ENOTDIR, 0, s)
              else if i_mode di AND S_ISVTX \<noteq> 0 then
                (if ramfs_mount di \<noteq> 0 then op_lookup (ramfs_mount di) name namelen s
                 else Some (- ENOENT, 0, s))
              else ramfs_search (ramfs_dir di) name namelen s }"

definition ramfs_lookup ::
  "bptr \<Rightarrow> char list \<Rightarrow> nat \<Rightarrow> kstate \<Rightarrow> (int \<times> bptr \<times> kstate) option" where
  "ramfs_lookup dir name namelen s =
     do { di \<leftarrow> get_inode dir s;
          if \<not> S_ISDIR (i_mode di) then Some (- ENOTDIR, 0, s)
          else if i_mode di AND S_ISVTX \<noteq> 0 then
            (if ramfs_mount di \<noteq> 0 then op_lookup (ramfs_mount di) name namelen s
             else Some (- ENOENT, 0, s))
          else ramfs_search (ramfs_dir di) name namelen s }"

section \<open>Reading a directory\<close>

partial_function (option) ramfs_seek :: "bptr \<Rightarrow> u16 \<Rightarrow> kstate \<Rightarrow> bptr option" where [code]:
  "ramfs_seek entry posn s =
     (if entry \<noteq> 0 \<and> posn > 0 then
        do { d \<leftarrow> get_dirent entry s; ramfs_seek (d_next d) (posn - 1) s }
      else Some entry)"

definition ramfs_dirent_out :: "ramfs_dirent \<Rightarrow> inode \<Rightarrow> dirent option" where
  "ramfs_dirent_out d i =
     (let mode = i_mode i; fmt = mode AND S_IFMT; n = unat (d_namelen d) in
      if n \<le> length (d_name d) \<and> n \<le> DIRENT_NAME_MAX then
        Some \<lparr>de_ino = (if fmt = S_IFREG \<or> fmt = S_IFLNK then of_nat (ramfs_file_size i)
                        else if fmt = S_IFCHR \<or> fmt = S_IFBLK then of_nat (i_device i) else 0),
              de_mtime = i_mtime i, de_mode = mode, de_type = ucast (drop_bit 12 mode),
              de_name = take n (d_name d) @ replicate (DIRENT_NAME_MAX - n) NUL\<rparr>
      else None)"

partial_function (option) ramfs_dir_read_loop ::
  "bptr \<Rightarrow> u16 \<Rightarrow> nat \<Rightarrow> int \<Rightarrow> u16 \<Rightarrow> char list \<Rightarrow> kstate \<Rightarrow> (int \<times> u16 \<times> char list) option" where [code]:
  "ramfs_dir_read_loop entry sz off result cnt data s =
     (if entry \<noteq> 0 \<and> unat sz \<ge> sizeof_dirent then
        do { d \<leftarrow> get_dirent entry s;
             i \<leftarrow> get_inode (d_inode d) s;
             out \<leftarrow> ramfs_dirent_out d i;
             data1 \<leftarrow> arr_blit data off (dirent_bytes out);
             ramfs_dir_read_loop (d_next d) (sz - of_nat sizeof_dirent) (off + sizeof_dirent)
               (result + int sizeof_dirent) (cnt + 1) data1 s }
      else Some (result, cnt, data))"

definition ramfs_dir_read ::
  "fptr \<Rightarrow> u16 \<Rightarrow> char list \<Rightarrow> kstate \<Rightarrow> (int \<times> char list \<times> kstate) option" where
  "ramfs_dir_read f sz data s =
     do { v \<leftarrow> get_file f s;
          i \<leftarrow> get_inode (f_inode v) s;
          entry \<leftarrow> ramfs_seek (ramfs_dir i) (ucast (f_posn v)) s;
          (result, cnt, data1) \<leftarrow> ramfs_dir_read_loop entry sz 0 0 0 data s;
          Some (result, data1, put_file f (v\<lparr>f_posn := f_posn v + ucast cnt\<rparr>) s) }"

section \<open>Opening\<close>

text \<open>\<^verbatim>\<open>inode->op->open\<close> of the file's inode, and through it \<^verbatim>\<open>ramfs_open\<close>.\<close>

partial_function (option) op_open :: "inode_operations \<Rightarrow> fptr \<Rightarrow> kstate \<Rightarrow> (int \<times> kstate) option" where [code]:
  "op_open ops f s =
     (case ops of
        Fatfs_operations \<Rightarrow> fatfs_open f s
      | Ramfs_operations \<Rightarrow>
          do { v \<leftarrow> get_file f s;
               if f_mode v AND S_IFMT = S_IFDIR then
                 (if f_mode v AND S_ISVTX \<noteq> 0 then
                    do { old \<leftarrow> get_inode (f_inode v) s;
                         let node = ramfs_mount old;
                         s1 \<leftarrow> inode_ref node s;
                         s2 \<leftarrow> inode_drop (f_inode v) s1;
                         i \<leftarrow> get_inode node s2;
                         let s3 = put_file f (v\<lparr>f_inode := node, f_mode := i_mode i\<rparr>) s2;
                         ops1 \<leftarrow> i_op i;
                         op_open ops1 f s3 }
                  else Some (0, put_file f (v\<lparr>f_op := Some Ramfs_dir_operations\<rparr>) s))
               else if f_mode v AND S_IFMT = S_IFREG then Some (0, s)
               else if f_mode v AND S_IFMT = S_IFCHR then
                 do { let node = f_inode v;
                      let s1 = put_file f (v\<lparr>f_inode := 0\<rparr>) s;
                      i \<leftarrow> get_inode node s1;
                      (result, s2) \<leftarrow> char_device_open (of_nat (i_device i)) f s1;
                      s3 \<leftarrow> inode_drop node s2;
                      Some (result, s3) }
               else Some (- EACCES, s) })"

definition ramfs_open :: "fptr \<Rightarrow> kstate \<Rightarrow> (int \<times> kstate) option" where
  "ramfs_open f s = op_open Ramfs_operations f s"

section \<open>Creating a node\<close>

text \<open>The last entry of a chain that is not empty.\<close>

partial_function (option) ramfs_last :: "bptr \<Rightarrow> kstate \<Rightarrow> bptr option" where [code]:
  "ramfs_last entry s =
     do { d \<leftarrow> get_dirent entry s;
          if d_next d = 0 then Some entry else ramfs_last (d_next d) s }"

definition ramfs_append :: "bptr \<Rightarrow> bptr \<Rightarrow> kstate \<Rightarrow> kstate option" where
  "ramfs_append dir entry s =
     do { di \<leftarrow> get_inode dir s;
          if ramfs_dir di = 0 then Some (put_inode dir (di\<lparr>i_u0 := entry\<rparr>) s)
          else
            do { lst \<leftarrow> ramfs_last (ramfs_dir di) s;
                 d \<leftarrow> get_dirent lst s;
                 Some (put_dirent lst (d\<lparr>d_next := entry\<rparr>) s) } }"

definition ramfs_mknod ::
  "bptr \<Rightarrow> char list \<Rightarrow> nat \<Rightarrow> mode_t \<Rightarrow> kstate \<Rightarrow> (int \<times> bptr \<times> kstate) option" where
  "ramfs_mknod dir name namelen mode s =
     do { di \<leftarrow> get_inode dir s;
          if \<not> S_ISDIR (i_mode di) then Some (- ENOTDIR, 0, s)
          else if namelen > RAMFS_MAX_NAME then Some (- ENAMETOOLONG, 0, s)
          else
            do { (entry, s1) \<leftarrow> kmalloc_buf_alloc s;
                 if entry = 0 then Some (- ENOMEM, 0, s1)
                 else
                   do { (child, s2) \<leftarrow> inode_alloc Ramfs_operations s1;
                        if child = 0 then
                          do { s3 \<leftarrow> kmalloc_buf_free entry s2; Some (- ENOMEM, 0, s3) }
                        else
                          do { let (t, s3) = inode_get_mtime s2;
                               s4 \<leftarrow> upd_inode child (\<lambda>i. i\<lparr>i_mode := mode, i_mtime := t\<rparr>) s3;
                               d \<leftarrow> get_dirent entry s4;
                               nm \<leftarrow> arr_blit (d_name d) 0 (take namelen name);
                               let s5 = put_dirent entry (d\<lparr>d_namelen := of_nat namelen,
                                          d_name := nm, d_inode := child\<rparr>) s4;
                               s6 \<leftarrow> ramfs_append dir entry s5;
                               s7 \<leftarrow> inode_ref child s6;
                               Some (0, child, s7) } } } }"

section \<open>Reading a symbolic link\<close>

text \<open>
  \<^verbatim>\<open>ramfs_readlink\<close>, which the default configuration leaves out. The buffer is \<open>buf\<close>; \<^const>\<open>None\<close>
  for it is NULL.
\<close>

partial_function (option) ramfs_readlink_loop ::
  "bptr \<Rightarrow> nat \<Rightarrow> nat \<Rightarrow> char list \<Rightarrow> kstate \<Rightarrow> (nat \<times> char list) option" where [code]:
  "ramfs_readlink_loop p result sz buf s =
     (if result < sz \<and> p \<noteq> 0 then
        do { d \<leftarrow> get_data p s;
             let len = sz - result;
             if len \<ge> RAMFS_MAX_DATA then
               do { b1 \<leftarrow> arr_blit buf result (rd_data d);
                    ramfs_readlink_loop (rd_next d) (result + RAMFS_MAX_DATA) sz b1 s }
             else
               do { b1 \<leftarrow> arr_blit buf result (take len (rd_data d));
                    Some (result + len, b1) } }
      else Some (result, buf))"

definition ramfs_readlink ::
  "bptr \<Rightarrow> char list option \<Rightarrow> nat \<Rightarrow> kstate \<Rightarrow> (int \<times> char list) option" where
  "ramfs_readlink node buf sz s =
     (case buf of
        None \<Rightarrow> Some (- EFAULT, [])
      | Some b \<Rightarrow>
          if sz = 0 then Some (- EINVAL, b)
          else
            do { i \<leftarrow> get_inode node s;
                 if \<not> S_ISLNK (i_mode i) then Some (- EINVAL, b)
                 else
                   do { let sz1 = (if sz > ramfs_file_size i then ramfs_file_size i else sz);
                        (r, b1) \<leftarrow> ramfs_readlink_loop (ramfs_file_data i) 0 sz1 b s;
                        Some (int r, b1) } })"

text \<open>The \<^verbatim>\<open>mknod\<close> entry of the operation tables; \<^const>\<open>None\<close> is a NULL entry.\<close>

fun op_mknod ::
  "inode_operations \<Rightarrow> (bptr \<Rightarrow> char list \<Rightarrow> nat \<Rightarrow> mode_t \<Rightarrow> kstate \<Rightarrow> (int \<times> bptr \<times> kstate) option) option" where
  "op_mknod Ramfs_operations = Some ramfs_mknod"
| "op_mknod Fatfs_operations = None"

lemma op_lookup_ramfs:
  assumes "get_inode dir s = Some di" and "i_op di = Some Ramfs_operations"
  shows "op_lookup dir name namelen s = ramfs_lookup dir name namelen s"
  using assms by (subst op_lookup.simps) (simp add: ramfs_lookup_def)

end
