(* ===== verification/Klookup.thy ===== *)
theory Klookup
  imports Kpath Ramfs
begin

unbundle bit_operations_syntax

text \<open>
  Walking a pathname through the file systems: \<^verbatim>\<open>inode_lookup\<close> and \<^verbatim>\<open>inode_lookup_path\<close> of
  \<^verbatim>\<open>os/inode.c\<close>, in the default configuration without symbolic links. The result is the
  return value and the pointer stored through \<^verbatim>\<open>inode\<close>; \<open>want\<close> says whether that argument is
  not NULL.
\<close>

text \<open>The checks on the node that the walk ends at.\<close>

definition inode_lookup_final ::
  "bool \<Rightarrow> bptr \<Rightarrow> flags_t \<Rightarrow> mode_t \<Rightarrow> kstate \<Rightarrow> (int \<times> bptr \<times> kstate) option" where
  "inode_lookup_final want node oflag mode s =
     do { i \<leftarrow> get_inode node s;
          let error = inode_access i (oflag_to_access_mode oflag);
          let failed = (\<lambda>e. do { s1 \<leftarrow> inode_drop node s; Some (e, 0, s1) });
          if error < 0 then failed error
          else if (mode XOR i_mode i) AND S_IFMT \<noteq> 0 then
            (if S_ISDIR mode then failed (- ENOTDIR)
             else if S_ISDIR (i_mode i) then failed (- EISDIR)
             else failed (- EACCES))
          else if oflag AND O_CREAT \<noteq> 0 \<and> oflag AND O_EXCL \<noteq> 0 then failed (- EEXIST)
          else if want then Some (0, node, s)
          else failed 0 }"

text \<open>Creating the last component.\<close>

definition inode_lookup_create ::
  "bool \<Rightarrow> bptr \<Rightarrow> char list \<Rightarrow> nat \<Rightarrow> mode_t \<Rightarrow> kstate \<Rightarrow> (int \<times> bptr \<times> kstate) option" where
  "inode_lookup_create want node name namelen mode s =
     do { i \<leftarrow> get_inode node s;
          let error = inode_access i W_OK;
          if error < 0 then do { s1 \<leftarrow> inode_drop node s; Some (error, 0, s1) }
          else
            do { ops \<leftarrow> i_op i;
                 case op_mknod ops of
                   None \<Rightarrow> do { s1 \<leftarrow> inode_drop node s; Some (- EROFS, 0, s1) }
                 | Some mknod \<Rightarrow>
                     do { (error, child, s1) \<leftarrow> mknod node name namelen mode s;
                          s2 \<leftarrow> inode_drop node s1;
                          if error < 0 then Some (error, 0, s2)
                          else if want then Some (1, child, s2)
                          else do { s3 \<leftarrow> inode_drop child s2; Some (1, 0, s3) } } } }"

partial_function (option) inode_lookup_loop ::
  "bool \<Rightarrow> bptr \<Rightarrow> nat \<Rightarrow> char list \<Rightarrow> flags_t \<Rightarrow> mode_t \<Rightarrow> kstate \<Rightarrow> (int \<times> bptr \<times> kstate) option" where [code]:
  "inode_lookup_loop want node posn pathname oflag mode s =
     do { ch \<leftarrow> arr_get pathname posn;
          if ch = NUL then inode_lookup_final want node oflag mode s
          else
            do { i \<leftarrow> get_inode node s;
                 if \<not> S_ISDIR (i_mode i) then
                   do { s1 \<leftarrow> inode_drop node s; Some (- ENOTDIR, 0, s1) }
                 else if inode_access i X_OK < 0 then
                   do { s1 \<leftarrow> inode_drop node s; Some (inode_access i X_OK, 0, s1) }
                 else
                   do { let name = drop posn pathname;
                        let namelen = strlen_path_component name CONFIG_PATH_MAX;
                        c \<leftarrow> arr_get pathname (posn + namelen);
                        let is_last = (c = NUL);
                        (error, child, s1) \<leftarrow> op_lookup node name namelen s;
                        if error = - ENOENT \<and> is_last \<and> oflag AND O_CREAT \<noteq> 0 then
                          inode_lookup_create want node name namelen mode s1
                        else if error < 0 then
                          do { s2 \<leftarrow> inode_drop node s1; Some (error, 0, s2) }
                        else
                          do { s2 \<leftarrow> inode_drop node s1;
                               ci \<leftarrow> get_inode child s2;
                               if S_ISLNK (i_mode ci) then
                                 do { s3 \<leftarrow> inode_drop child s2; Some (- EINVAL, 0, s3) }
                               else if is_last then inode_lookup_final want child oflag mode s2
                               else inode_lookup_loop want child (posn + namelen + 1) pathname
                                      oflag mode s2 } } } }"

definition inode_lookup ::
  "bool \<Rightarrow> char list \<Rightarrow> flags_t \<Rightarrow> mode_t \<Rightarrow> kstate \<Rightarrow> (int \<times> bptr \<times> kstate) option" where
  "inode_lookup want pathname oflag mode s =
     do { (node, s1) \<leftarrow> inode_get_root s;
          inode_lookup_loop want node 1 pathname oflag mode s1 }"

definition inode_lookup_path ::
  "bool \<Rightarrow> char list option \<Rightarrow> flags_t \<Rightarrow> mode_t \<Rightarrow> kstate \<Rightarrow> (int \<times> bptr \<times> kstate) option" where
  "inode_lookup_path want pathname oflag mode s =
     do { p \<leftarrow> cur s;
          (error, out) \<leftarrow> inode_path_to_abs (p_cwd p) (temp_path s) CONFIG_PATH_MAX pathname;
          let s1 = s\<lparr>temp_path := out\<rparr>;
          if error < 0 then Some (error, 0, s1)
          else
            do { (error, node, s2) \<leftarrow> inode_lookup want (temp_path s1) oflag mode s1;
                 if error < 0 then Some (error, 0, s2) else Some (0, node, s2) } }"

end
