(* ===== verification/Kfile.thy ===== *)
theory Kfile
  imports Klookup
begin

unbundle bit_operations_syntax

text \<open>
  Open files and file descriptors, \<^verbatim>\<open>os/file.c\<close>, with the calls through the operation tables
  of files. A system call's structure of arguments is its list of arguments; a buffer
  argument is its contents, with \<^const>\<open>None\<close> for NULL.
\<close>

section \<open>Operation tables\<close>

definition file_read_default :: "fptr \<Rightarrow> u16 \<Rightarrow> char list \<Rightarrow> kstate \<Rightarrow> (int \<times> char list \<times> kstate) option" where
  "file_read_default f sz data s = Some (- EINVAL, data, s)"

definition file_write_default :: "fptr \<Rightarrow> u16 \<Rightarrow> char list \<Rightarrow> kstate \<Rightarrow> (int \<times> kstate) option" where
  "file_write_default f sz data s = Some (- EINVAL, s)"

definition file_lseek_default :: "fptr \<Rightarrow> u32 \<Rightarrow> int \<Rightarrow> kstate \<Rightarrow> int \<times> kstate" where
  "file_lseek_default f offset whence s = (- ESPIPE, s)"

text \<open>A device's read stores its bytes at the start of the buffer.\<close>

definition device_read ::
  "(kfile \<Rightarrow> u16 \<Rightarrow> kstate \<Rightarrow> int \<times> char list \<times> kstate) \<Rightarrow>
   fptr \<Rightarrow> u16 \<Rightarrow> char list \<Rightarrow> kstate \<Rightarrow> (int \<times> char list \<times> kstate) option" where
  "device_read rd f sz data s =
     do { v \<leftarrow> get_file f s;
          let (r, bytes, s1) = rd v sz s;
          data1 \<leftarrow> arr_blit data 0 bytes;
          Some (r, data1, s1) }"

definition device_write ::
  "(kfile \<Rightarrow> char list \<Rightarrow> u16 \<Rightarrow> kstate \<Rightarrow> int \<times> kstate) \<Rightarrow>
   fptr \<Rightarrow> u16 \<Rightarrow> char list \<Rightarrow> kstate \<Rightarrow> (int \<times> kstate) option" where
  "device_write wr f sz data s = do { v \<leftarrow> get_file f s; Some (wr v data sz s) }"

fun op_close :: "file_operations \<Rightarrow> fptr \<Rightarrow> kstate \<Rightarrow> (int \<times> kstate) option" where
  "op_close Ramfs_dir_operations = file_close_default"
| "op_close Fatfs_dir_operations = fatfs_close"
| "op_close Fatfs_file_operations = fatfs_close"
| "op_close Dev_null_operations = file_close_default"
| "op_close Dev_zero_operations = file_close_default"
| "op_close Dev_full_operations = file_close_default"
| "op_close Basic_tty_operations = file_close_default"
| "op_close Raw_tty_operations = file_close_default"

fun op_read ::
  "file_operations \<Rightarrow> fptr \<Rightarrow> u16 \<Rightarrow> char list \<Rightarrow> kstate \<Rightarrow> (int \<times> char list \<times> kstate) option" where
  "op_read Ramfs_dir_operations = ramfs_dir_read"
| "op_read Fatfs_dir_operations = fatfs_dir_read"
| "op_read Fatfs_file_operations = fatfs_file_read"
| "op_read Dev_null_operations = device_read dev_null_read"
| "op_read Dev_zero_operations = device_read dev_zero_read"
| "op_read Dev_full_operations = device_read dev_zero_read"
| "op_read Basic_tty_operations = device_read basic_tty_read"
| "op_read Raw_tty_operations = device_read raw_tty_read"

fun op_write :: "file_operations \<Rightarrow> fptr \<Rightarrow> u16 \<Rightarrow> char list \<Rightarrow> kstate \<Rightarrow> (int \<times> kstate) option" where
  "op_write Ramfs_dir_operations = file_write_default"
| "op_write Fatfs_dir_operations = file_write_default"
| "op_write Fatfs_file_operations = file_write_default"
| "op_write Dev_null_operations = device_write dev_null_write"
| "op_write Dev_zero_operations = device_write dev_null_write"
| "op_write Dev_full_operations = device_write dev_full_write"
| "op_write Basic_tty_operations = device_write basic_tty_write"
| "op_write Raw_tty_operations = device_write raw_tty_write"

section \<open>Files\<close>

fun file_init_loop :: "nat \<Rightarrow> kstate \<Rightarrow> kstate" where
  "file_init_loop 0 s = s"
| "file_init_loop (Suc n) s =
     (let s1 = file_init_loop n s in put_file (Suc n) ((global_fd s1 (Suc n))\<lparr>f_count := 0\<rparr>) s1)"

definition file_init :: "kstate \<Rightarrow> kstate" where
  "file_init s = file_init_loop CONFIG_FD_MAX s"

definition file_ref :: "fptr \<Rightarrow> kstate \<Rightarrow> kstate option" where
  "file_ref f s =
     do { v \<leftarrow> get_file f s; Some (put_file f (v\<lparr>f_count := schar (f_count v + 1)\<rparr>) s) }"

definition file_deref :: "fptr \<Rightarrow> kstate \<Rightarrow> (int \<times> kstate) option" where
  "file_deref f s =
     do { v \<leftarrow> get_file f s;
          let cnt = schar (f_count v - 1);
          let s1 = put_file f (v\<lparr>f_count := cnt\<rparr>) s;
          if cnt \<le> 0 then do { ops \<leftarrow> f_op v; op_close ops f s1 }
          else Some (0, s1) }"

definition file_get :: "int \<Rightarrow> kstate \<Rightarrow> fptr option" where
  "file_get fd s =
     (if fd < 0 \<or> fd \<ge> int CONFIG_PROC_FD_MAX then Some 0
      else do { p \<leftarrow> cur s; arr_get (p_fd p) (nat fd) })"

text \<open>The first index from \<open>fd\<close> on with a free slot.\<close>

fun fd_scan :: "fptr list \<Rightarrow> nat \<Rightarrow> nat option" where
  "fd_scan [] fd = None"
| "fd_scan (x # xs) fd = (if x = 0 then Some fd else fd_scan xs (Suc fd))"

definition file_put :: "fptr \<Rightarrow> kstate \<Rightarrow> (int \<times> kstate) option" where
  "file_put f s =
     do { p \<leftarrow> cur s;
          case fd_scan (p_fd p) 0 of
            Some fd \<Rightarrow> Some (int fd, put_cur (p\<lparr>p_fd := (p_fd p)[fd := f]\<rparr>) s)
          | None \<Rightarrow> Some (- EMFILE, s) }"

fun file_new_loop :: "nat \<Rightarrow> fptr \<Rightarrow> flags_t \<Rightarrow> mode_t \<Rightarrow> kstate \<Rightarrow> fptr \<times> kstate" where
  "file_new_loop 0 f flags mode s = (0, s)"
| "file_new_loop (Suc n) f flags mode s =
     (if f_count (global_fd s f) = 0 then
        (f, put_file f \<lparr>f_count = 1, f_flags = flags, f_mode = mode, f_op = None, f_inode = 0,
              f_fatfs_info = 0, f_posn = 0\<rparr> s)
      else file_new_loop n (Suc f) flags mode s)"

definition file_new :: "flags_t \<Rightarrow> mode_t \<Rightarrow> kstate \<Rightarrow> fptr \<times> kstate" where
  "file_new flags mode s = file_new_loop CONFIG_FD_MAX 1 flags mode s"

definition file_open :: "char list option \<Rightarrow> flags_t \<Rightarrow> mode_t \<Rightarrow> kstate \<Rightarrow> (int \<times> kstate) option" where
  "file_open path flags mode s =
     do { (error, node, s1) \<leftarrow> inode_lookup_path True path flags mode s;
          if error < 0 then Some (error, s1)
          else
            do { i \<leftarrow> get_inode node s1;
                 let (f, s2) = file_new flags (i_mode i) s1;
                 if f = 0 then do { s3 \<leftarrow> inode_drop node s2; Some (- ENFILE, s3) }
                 else
                   do { v \<leftarrow> get_file f s2;
                        let s3 = put_file f (v\<lparr>f_inode := node\<rparr>) s2;
                        ops \<leftarrow> i_op i;
                        (error, s4) \<leftarrow> op_open ops f s3;
                        if error < 0 then
                          do { (r, s5) \<leftarrow> file_deref f s4; Some (error, s5) }
                        else
                          do { (fd, s5) \<leftarrow> file_put f s4;
                               if fd < 0 then do { (r, s6) \<leftarrow> file_deref f s5; Some (fd, s6) }
                               else Some (fd, s5) } } } }"

section \<open>System calls\<close>

definition sys_open :: "char list option \<Rightarrow> flags_t \<Rightarrow> u16 \<Rightarrow> kstate \<Rightarrow> (int \<times> kstate) option" where
  "sys_open path flags mode s =
     do { p \<leftarrow> cur s; file_open path flags (mode AND NOT (p_umask p) AND 0x1FF) s }"

definition sys_close :: "int \<Rightarrow> kstate \<Rightarrow> (int \<times> kstate) option" where
  "sys_close fd s =
     do { f \<leftarrow> file_get fd s;
          if f = 0 then Some (- EBADF, s)
          else
            do { p \<leftarrow> cur s;
                 let s1 = put_cur (p\<lparr>p_fd := (p_fd p)[nat fd := 0]\<rparr>) s;
                 file_deref f s1 } }"

definition sys_read ::
  "int \<Rightarrow> char list option \<Rightarrow> u16 \<Rightarrow> kstate \<Rightarrow> (int \<times> char list \<times> kstate) option" where
  "sys_read fd data sz s =
     do { f \<leftarrow> file_get fd s;
          let buf = (case data of None \<Rightarrow> [] | Some d \<Rightarrow> d);
          if f = 0 then Some (- EBADF, buf, s)
          else if data = None \<and> sz > 0 then Some (- EFAULT, buf, s)
          else
            do { s1 \<leftarrow> file_ref f s;
                 v \<leftarrow> get_file f s1;
                 ops \<leftarrow> f_op v;
                 (result, buf1, s2) \<leftarrow> op_read ops f sz buf s1;
                 (r, s3) \<leftarrow> file_deref f s2;
                 Some (result, buf1, s3) } }"

definition sys_write :: "int \<Rightarrow> char list option \<Rightarrow> u16 \<Rightarrow> kstate \<Rightarrow> (int \<times> kstate) option" where
  "sys_write fd data sz s =
     do { f \<leftarrow> file_get fd s;
          if f = 0 then Some (- EBADF, s)
          else if data = None \<and> sz > 0 then Some (- EFAULT, s)
          else
            do { s1 \<leftarrow> file_ref f s;
                 v \<leftarrow> get_file f s1;
                 ops \<leftarrow> f_op v;
                 (result, s2) \<leftarrow> op_write ops f sz (case data of None \<Rightarrow> [] | Some d \<Rightarrow> d) s1;
                 (r, s3) \<leftarrow> file_deref f s2;
                 Some (result, s3) } }"

definition sys_lseek :: "int \<Rightarrow> u32 \<Rightarrow> int \<Rightarrow> kstate \<Rightarrow> int \<times> kstate" where
  "sys_lseek fd offset whence s = (- ESPIPE, s)"

definition sys_dup_scan :: "int \<Rightarrow> int \<Rightarrow> kstate \<Rightarrow> (int \<times> kstate) option" where
  "sys_dup_scan oldfd newfd s =
     do { f \<leftarrow> file_get oldfd s;
          if f = 0 then Some (- EBADF, s)
          else if newfd < 0 \<or> newfd \<ge> int CONFIG_PROC_FD_MAX then Some (- EBADF, s)
          else
            do { p \<leftarrow> cur s;
                 case fd_scan (drop (nat newfd) (p_fd p)) (nat newfd) of
                   None \<Rightarrow> Some (- EMFILE, s)
                 | Some fd \<Rightarrow>
                     do { s1 \<leftarrow> file_ref f s;
                          Some (int fd, put_cur (p\<lparr>p_fd := (p_fd p)[fd := f],
                                                   p_cloexec := (p_cloexec p)[fd := 0]\<rparr>) s1) } } }"

definition sys_dup :: "int \<Rightarrow> kstate \<Rightarrow> (int \<times> kstate) option" where
  "sys_dup oldfd s = sys_dup_scan oldfd 0 s"

definition sys_dup2 :: "int \<Rightarrow> int \<Rightarrow> kstate \<Rightarrow> (int \<times> kstate) option" where
  "sys_dup2 oldfd newfd s =
     do { f \<leftarrow> file_get oldfd s;
          if f = 0 then Some (- EBADF, s)
          else if newfd < 0 \<or> newfd \<ge> int CONFIG_PROC_FD_MAX then Some (- EBADF, s)
          else if newfd = oldfd then Some (newfd, s)
          else
            do { s1 \<leftarrow> file_ref f s;
                 f2 \<leftarrow> file_get newfd s1;
                 s2 \<leftarrow> (if f2 \<noteq> 0 then map_option snd (file_deref f2 s1) else Some s1);
                 p \<leftarrow> cur s2;
                 Some (newfd, put_cur (p\<lparr>p_fd := (p_fd p)[nat newfd := f],
                                         p_cloexec := (p_cloexec p)[nat newfd := 0]\<rparr>) s2) } }"

abbreviation (input) F_DUPFD :: int where "F_DUPFD \<equiv> 0"
abbreviation (input) F_GETFD :: int where "F_GETFD \<equiv> 1"
abbreviation (input) F_SETFD :: int where "F_SETFD \<equiv> 2"
abbreviation (input) F_GETFL :: int where "F_GETFL \<equiv> 3"
abbreviation (input) F_SETFL :: int where "F_SETFL \<equiv> 4"

definition sys_fcntl :: "int \<Rightarrow> int \<Rightarrow> u16 \<Rightarrow> kstate \<Rightarrow> (int \<times> kstate) option" where
  "sys_fcntl fd cmd val s =
     do { f \<leftarrow> file_get fd s;
          if f = 0 then Some (- EBADF, s)
          else if cmd = F_DUPFD then sys_dup_scan fd (sint val) s
          else if cmd = F_GETFD then
            do { p \<leftarrow> cur s; c \<leftarrow> arr_get (p_cloexec p) (nat fd); Some (uint c, s) }
          else if cmd = F_SETFD then
            do { p \<leftarrow> cur s;
                 Some (- EINVAL, put_cur (p\<lparr>p_cloexec :=
                         (p_cloexec p)[nat fd := ucast (val AND 1)]\<rparr>) s) }
          else if cmd = F_GETFL then
            do { v \<leftarrow> get_file f s; Some (sint (f_flags v), s) }
          else if cmd = F_SETFL then
            do { v \<leftarrow> get_file f s;
                 Some (- EINVAL, put_file f (v\<lparr>f_flags :=
                         (if val AND O_NONBLOCK \<noteq> 0 then f_flags v OR O_NONBLOCK
                          else f_flags v AND NOT O_NONBLOCK)\<rparr>) s) }
          else Some (- EINVAL, s) }"

end
