(* ===== verification/Kdir.thy ===== *)
theory Kdir
  imports Kfile
begin

unbundle bit_operations_syntax

text \<open>
  The directory system calls \<^verbatim>\<open>os/dir.c\<close> and mounting, \<^verbatim>\<open>os/mount.c\<close>.
\<close>

definition sys_notimp :: "kstate \<Rightarrow> int \<times> kstate" where
  "sys_notimp s = (- ENOSYS, s)"

text \<open>The buffer is \<open>buf\<close>; \<open>result\<close> says whether the pointer for the result is not NULL.\<close>

definition sys_getcwd ::
  "char list option \<Rightarrow> nat \<Rightarrow> bool \<Rightarrow> kstate \<Rightarrow> (int \<times> char list \<times> kstate) option" where
  "sys_getcwd buf sz result s =
     (case buf of
        None \<Rightarrow> Some (- EFAULT, [], s)
      | Some b \<Rightarrow>
          if \<not> result then Some (- EFAULT, b, s)
          else if sz = 0 then Some (- EINVAL, b, s)
          else do { p \<leftarrow> cur s; b1 \<leftarrow> strcpy_constrained b (Some (p_cwd p)) sz; Some (0, b1, s) })"

definition sys_chdir :: "char list option \<Rightarrow> kstate \<Rightarrow> (int \<times> kstate) option" where
  "sys_chdir path s =
     do { (error, node, s1) \<leftarrow> inode_lookup_path False path O_EXEC S_IFDIR s;
          if error \<ge> 0 then
            do { p \<leftarrow> cur s1;
                 cwd \<leftarrow> strcpy_constrained (p_cwd p) (Some (temp_path s1)) (length (p_cwd p));
                 Some (error, put_cur (p\<lparr>p_cwd := cwd\<rparr>) s1) }
          else Some (error, s1) }"

definition sys_mkdir :: "char list option \<Rightarrow> mode_t \<Rightarrow> kstate \<Rightarrow> (int \<times> kstate) option" where
  "sys_mkdir path mode s =
     do { p \<leftarrow> cur s;
          let mode1 = S_IFDIR OR (mode AND NOT (p_umask p) AND 0x1FF);
          (error, node, s1) \<leftarrow> inode_lookup_path True path (O_CREAT OR O_EXCL) mode1 s;
          if error \<ge> 0 then do { s2 \<leftarrow> inode_drop node s1; Some (error, s2) }
          else Some (error, s1) }"

definition sys_rmdir :: "char list option \<Rightarrow> kstate \<Rightarrow> int \<times> kstate" where
  "sys_rmdir path s = (- ENOSYS, s)"

definition sys_symlink :: "char list option \<Rightarrow> char list option \<Rightarrow> kstate \<Rightarrow> int \<times> kstate" where
  "sys_symlink to from s = (- ENOSYS, s)"

definition sys_readlink :: "char list option \<Rightarrow> kstate \<Rightarrow> int \<times> kstate" where
  "sys_readlink path s = (- ENOSYS, s)"

definition sys_mknod :: "char list option \<Rightarrow> mode_t \<Rightarrow> dev_t \<Rightarrow> kstate \<Rightarrow> (int \<times> kstate) option" where
  "sys_mknod path mode dev s =
     do { p \<leftarrow> cur s;
          let mode1 = mode AND NOT (p_umask p);
          if \<not> S_ISCHR mode1 \<and> \<not> S_ISBLK mode1 then Some (- EINVAL, s)
          else if mode1 AND (S_ISUID OR S_ISGID OR S_ISVTX) \<noteq> 0 then Some (- EINVAL, s)
          else
            do { (error, node, s1) \<leftarrow> inode_lookup_path True path (O_CREAT OR O_EXCL) mode1 s;
                 if error \<ge> 0 then
                   do { s2 \<leftarrow> upd_inode node (\<lambda>i. i\<lparr>i_u0 := unat dev\<rparr>) s1;
                        s3 \<leftarrow> inode_drop node s2;
                        Some (error, s3) }
                 else Some (error, s1) } }"

definition sys_unlink :: "char list option \<Rightarrow> kstate \<Rightarrow> int \<times> kstate" where
  "sys_unlink path s = (- ENOSYS, s)"

definition sys_stat :: "char list option \<Rightarrow> kstate \<Rightarrow> int \<times> kstate" where
  "sys_stat path s = (- ENOSYS, s)"

definition sys_lstat :: "char list option \<Rightarrow> kstate \<Rightarrow> int \<times> kstate" where
  "sys_lstat path s = sys_notimp s"

definition sys_opendir :: "char list option \<Rightarrow> kstate \<Rightarrow> (int \<times> kstate) option" where
  "sys_opendir path s = file_open path O_RDONLY S_IFDIR s"

definition sys_umask :: "mode_t \<Rightarrow> kstate \<Rightarrow> (int \<times> kstate) option" where
  "sys_umask msk s =
     do { p \<leftarrow> cur s; Some (uint (p_umask p), put_cur (p\<lparr>p_umask := msk AND 0x1FF\<rparr>) s) }"

section \<open>Mounting\<close>

abbreviation (input) MS_REMOUNT :: u32 where "MS_REMOUNT \<equiv> 0x00000020"

definition sys_mount ::
  "char list option \<Rightarrow> char list option \<Rightarrow> char list option \<Rightarrow> u32 \<Rightarrow> kstate \<Rightarrow> (int \<times> kstate) option" where
  "sys_mount source tgt filesystemtype mountflags s =
     (case source of None \<Rightarrow> Some (- EFAULT, s) | Some src \<Rightarrow>
      (case filesystemtype of None \<Rightarrow> Some (- EFAULT, s) | Some fstype \<Rightarrow>
       if cstr src \<noteq> ''/dev/mmcblk0'' \<or> \<not> fatfs_have_sd s then Some (- ENOTBLK, s)
       else if cstr fstype \<noteq> ''vfat'' then Some (- ENODEV, s)
       else if tgt = None then Some (0, s)
       else
         do { (error, dir, s1) \<leftarrow> inode_lookup_path True tgt O_EXEC S_IFDIR s;
              if error < 0 then Some (error, s1)
              else
                do { i \<leftarrow> get_inode dir s1;
                     if i_op i \<noteq> Some Ramfs_operations then
                       do { s2 \<leftarrow> inode_drop dir s1; Some (- EINVAL, s2) }
                     else if \<not> S_ISDIR (i_mode i) then
                       do { s2 \<leftarrow> inode_drop dir s1; Some (- ENOTDIR, s2) }
                     else if i_mode i AND S_ISVTX \<noteq> 0 then
                       do { s2 \<leftarrow> inode_drop dir s1;
                            if mountflags AND MS_REMOUNT \<noteq> 0 then Some (0, s2) else Some (- EBUSY, s2) }
                     else
                       do { (error, s2) \<leftarrow> fatfs_mount_sd dir s1;
                            s3 \<leftarrow> inode_drop dir s2;
                            Some (error, s3) } } }))"

definition sys_umount :: "char list option \<Rightarrow> kstate \<Rightarrow> int \<times> kstate" where
  "sys_umount tgt s = (- EPERM, s)"

end
