(* ===== verification/Kproc.thy ===== *)
theory Kproc
  imports Ksched Kdir
begin

unbundle bit_operations_syntax

text \<open>
  Processes, \<^verbatim>\<open>os/proc.c\<close>, and the start of the kernel, \<^verbatim>\<open>os/main.c\<close>. The addresses of
  \<^verbatim>\<open>proc_stop\<close> and of the shell's entry point are arguments, as the linker decides them.
\<close>

text \<open>\<^verbatim>\<open>sizeof(struct proc)\<close> on the target, where nothing is aligned: 81 bytes of context and 103 more.\<close>

abbreviation (input) sizeof_proc :: u16 where "sizeof_proc \<equiv> 184"

definition proc_init :: "kstate \<Rightarrow> kstate" where
  "proc_init s = s\<lparr>current_proc := 0\<rparr>"

text \<open>The search for a free slot of the process table.\<close>

fun find_free :: "pptr list \<Rightarrow> nat \<Rightarrow> nat option" where
  "find_free [] pid = None"
| "find_free (p # ps) pid = (if p = 0 then Some pid else find_free ps (Suc pid))"

definition clear_zp :: "u16 \<Rightarrow> kstate \<Rightarrow> kstate" where
  "clear_zp zp s =
     s\<lparr>zero_page := (\<lambda>a. if unat zp \<le> unat a \<and> unat a < unat zp + PROC_ZP_SIZE then 0 else zero_page s a)\<rparr>"

definition proc_create ::
  "int \<Rightarrow> int \<Rightarrow> char list option list option \<Rightarrow> kstate \<Rightarrow> (int \<times> pptr \<times> kstate) option" where
  "proc_create ppid argc argv s =
     (case argv of None \<Rightarrow> Some (- EFAULT, 0, s) | Some args \<Rightarrow>
      if argc < 1 then Some (- EINVAL, 0, s)
      else if argc > int CONFIG_ARGC_MAX then Some (- E2BIG, 0, s)
      else
        do { (argv_copy, h1) \<leftarrow> kmalloc_copy_argv argc args (uheap s);
             let s1 = s\<lparr>uheap := h1\<rparr>;
             if argv_copy = 0 then Some (- ENOMEM, 0, s1)
             else case find_free (process_table s1) 0 of
               None \<Rightarrow> do { h2 \<leftarrow> kmalloc_user_free argv_copy (uheap s1); Some (- ENOMEM, 0, s1\<lparr>uheap := h2\<rparr>) }
             | Some pid \<Rightarrow>
                 do { (p, h2) \<leftarrow> kmalloc_user_alloc sizeof_proc (uheap s1);
                      let s2 = s1\<lparr>uheap := h2\<rparr>;
                      if p = 0 then
                        do { h3 \<leftarrow> kmalloc_user_free argv_copy (uheap s2); Some (- ENOMEM, 0, s2\<lparr>uheap := h3\<rparr>) }
                      else
                        do { let s3 = s2\<lparr>process_table := (process_table s2)[pid := p]\<rparr>;
                             let zp = of_nat ((pid + 2) * PROC_ZP_SIZE);
                             let v = zero_proc\<lparr>p_pid := of_nat (pid + 1), p_ppid := word_of_int ppid,
                                               p_argv := argv_copy, p_zp := zp\<rparr>;
                             let s4 = clear_zp zp (put_proc p v s3);
                             v2 \<leftarrow> (if ppid \<noteq> 0 then
                                      do { pp \<leftarrow> (if ppid < 0 then None
                                                  else arr_get (process_table s4) (nat (ppid - 1)));
                                           parent \<leftarrow> get_proc pp s4;
                                           Some (v\<lparr>p_cwd := p_cwd parent, p_umask := p_umask parent\<rparr>) }
                                    else
                                      do { cwd \<leftarrow> arr_blit (p_cwd v) 0 (''/root'' @ [NUL]);
                                           Some (v\<lparr>p_cwd := cwd, p_umask := 0x0010 OR 0x0002\<rparr>) });
                             Some (0, p, put_proc p v2 s4) } } })"

definition proc_free :: "pptr \<Rightarrow> kstate \<Rightarrow> kstate option" where
  "proc_free p s =
     do { v \<leftarrow> get_proc p s;
          tab \<leftarrow> arr_set (process_table s) (unat (p_pid v) - 1) 0;
          let s1 = s\<lparr>process_table := tab\<rparr>;
          h1 \<leftarrow> kmalloc_user_free (p_argv v) (uheap s1);
          let s2 = put_proc p (v\<lparr>p_state := PROC_UNUSED\<rparr>) (s1\<lparr>uheap := h1\<rparr>);
          h2 \<leftarrow> kmalloc_user_free p (uheap s2);
          Some (s2\<lparr>uheap := h2\<rparr>) }"

definition proc_push_return_stack :: "u16 \<Rightarrow> proc_context \<Rightarrow> proc_context option" where
  "proc_push_return_stack val c =
     (let S = ctx_S c - 2; val = val - 1 in
      do { st1 \<leftarrow> arr_set (ctx_stack c) (unat S + 1) (ucast val);
           st2 \<leftarrow> arr_set st1 (unat S + 2) (ucast (drop_bit 8 val));
           Some (c\<lparr>ctx_stack := st2, ctx_S := S\<rparr>) })"

definition proc_push_byte :: "u8 \<Rightarrow> proc_context \<Rightarrow> proc_context option" where
  "proc_push_byte val c =
     (let S = ctx_S c in
      do { st \<leftarrow> arr_set (ctx_stack c) (unat S) val;
           Some (c\<lparr>ctx_stack := st, ctx_S := S - 1\<rparr>) })"

definition proc_set_arg2 :: "pptr \<Rightarrow> u16 \<Rightarrow> kstate \<Rightarrow> kstate option" where
  "proc_set_arg2 p val s =
     do { v \<leftarrow> get_proc p s;
          Some (s\<lparr>zero_page := (zero_page s)(p_zp v + 2 := ucast val,
                                             p_zp v + 3 := ucast (drop_bit 8 val))\<rparr>) }"

definition proc_stop :: "int \<Rightarrow> kstate \<Rightarrow> outcome \<times> kstate" where
  "proc_stop status s = (Halted, s)"

definition proc_create_internal ::
  "u16 \<Rightarrow> int \<Rightarrow> u16 \<Rightarrow> int \<Rightarrow> char list option list option \<Rightarrow> kstate \<Rightarrow> (int \<times> pptr \<times> kstate) option" where
  "proc_create_internal proc_stop_addr ppid func argc argv s =
     do { (err, p, s1) \<leftarrow> proc_create ppid argc argv s;
          if err \<noteq> 0 then Some (err, p, s1)
          else
            do { v \<leftarrow> get_proc p s1;
                 c1 \<leftarrow> proc_push_return_stack proc_stop_addr
                        ((p_context v)\<lparr>ctx_S := of_nat (CONFIG_RETURN_STACK_SIZE - 1)\<rparr>);
                 c2 \<leftarrow> proc_push_return_stack (func + 1) c1;
                 c3 \<leftarrow> proc_push_byte 0 c2;
                 let v1 = v\<lparr>p_context := c3\<lparr>ctx_AX := word_of_int argc\<rparr>\<rparr>;
                 s2 \<leftarrow> proc_set_arg2 p (p_argv v1) (put_proc p v1 s1);
                 s3 \<leftarrow> sched_set_runnable p s2;
                 v3 \<leftarrow> get_proc p s3;
                 Some (uint (p_pid v3), p, s3) } }"

definition proc_start_shell :: "u16 \<Rightarrow> u16 \<Rightarrow> kstate \<Rightarrow> kstate option" where
  "proc_start_shell proc_stop_addr shell_start s =
     do { (pid, p, s1) \<leftarrow> proc_create_internal proc_stop_addr 0 shell_start 1 (Some [Some ''/bin/sh'', None]) s;
          let (console, s2) = file_new O_RDWR 0x1B0 s1;
          (r, s3) \<leftarrow> open_dev_tty0 console s2;
          v \<leftarrow> get_proc p s3;
          fd1 \<leftarrow> arr_set (p_fd v) 0 console;
          s4 \<leftarrow> file_ref console (put_proc p (v\<lparr>p_fd := fd1\<rparr>) s3);
          fd2 \<leftarrow> arr_set fd1 1 console;
          s5 \<leftarrow> file_ref console (put_proc p (v\<lparr>p_fd := fd2\<rparr>) s4);
          fd3 \<leftarrow> arr_set fd2 2 console;
          Some (put_proc p (v\<lparr>p_fd := fd3\<rparr>) s5) }"

definition sys_getpid :: "kstate \<Rightarrow> (int \<times> kstate) option" where
  "sys_getpid s = do { p \<leftarrow> cur s; Some (uint (p_pid p), s) }"

definition sys_getppid :: "kstate \<Rightarrow> (int \<times> kstate) option" where
  "sys_getppid s = do { p \<leftarrow> cur s; Some (uint (p_ppid p), s) }"

definition sys_exit :: "int \<Rightarrow> kstate \<Rightarrow> outcome \<times> kstate" where
  "sys_exit status s = proc_stop status s"

section \<open>Starting the kernel\<close>

text \<open>\<^verbatim>\<open>main\<close> up to the first pass of the scheduler's loop.\<close>

definition kernel_main ::
  "u16 \<Rightarrow> u16 \<Rightarrow> u16 \<Rightarrow> u16 \<Rightarrow> kstate \<Rightarrow> (outcome \<times> kstate) option" where
  "kernel_main user_space_ram_start user_space_ram_end proc_stop_addr shell_start s =
     do { let s1 = kmalloc_init user_space_ram_start user_space_ram_end s;
          let s2 = sched_init s1;
          s3 \<leftarrow> ramfs_init s2;
          let s4 = fatfs_init s3;
          let s5 = file_init s4;
          let s6 = proc_init s5;
          s7 \<leftarrow> proc_start_shell proc_stop_addr shell_start s6;
          Some (schedule s7) }"

end
