(* ===== verification/Kmisc.thy ===== *)
theory Kmisc
  imports Kproc
begin

unbundle bit_operations_syntax

text \<open>
  The small parts of the kernel: user identities \<^verbatim>\<open>os/ident.c\<close> (the configuration without
  access control), \<^verbatim>\<open>os/uname.c\<close>, \<^verbatim>\<open>os/strerror.c\<close>, the debug output \<^verbatim>\<open>os/printk.c\<close> and
  the system call table \<^verbatim>\<open>os/dispatch.c\<close> with its use in \<^verbatim>\<open>os/switcher.S\<close>.
\<close>

section \<open>Identities\<close>

definition sys_getid :: "kstate \<Rightarrow> int \<times> kstate" where
  "sys_getid s = (0, s)"

definition sys_setid :: "kstate \<Rightarrow> int \<times> kstate" where
  "sys_setid s = (- ENOSYS, s)"

definition sys_getuid :: "kstate \<Rightarrow> int \<times> kstate" where "sys_getuid = sys_getid"
definition sys_geteuid :: "kstate \<Rightarrow> int \<times> kstate" where "sys_geteuid = sys_getid"
definition sys_getgid :: "kstate \<Rightarrow> int \<times> kstate" where "sys_getgid = sys_getid"
definition sys_getegid :: "kstate \<Rightarrow> int \<times> kstate" where "sys_getegid = sys_getid"
definition sys_setuid :: "u16 \<Rightarrow> kstate \<Rightarrow> int \<times> kstate" where "sys_setuid uid = sys_setid"
definition sys_seteuid :: "u16 \<Rightarrow> kstate \<Rightarrow> int \<times> kstate" where "sys_seteuid uid = sys_setid"
definition sys_setgid :: "u16 \<Rightarrow> kstate \<Rightarrow> int \<times> kstate" where "sys_setgid gid = sys_setid"
definition sys_setegid :: "u16 \<Rightarrow> kstate \<Rightarrow> int \<times> kstate" where "sys_setegid gid = sys_setid"

section \<open>System identification\<close>

record utsname =
  uts_sysname :: "char list"
  uts_nodename :: "char list"
  uts_release :: "char list"
  uts_version :: "char list"
  uts_machine :: "char list"

text \<open>The version, the target's name and the processor are set by the build.\<close>

definition uname_data :: "char list \<Rightarrow> char list \<Rightarrow> bool \<Rightarrow> utsname" where
  "uname_data version target_name cpu_65c02 =
     \<lparr>uts_sysname = ''MOSnix'', uts_nodename = ''mosnix'', uts_release = version,
      uts_version = target_name, uts_machine = (if cpu_65c02 then ''mos65c02'' else ''mos6502'')\<rparr>"

definition sys_getuname :: "utsname \<Rightarrow> kstate \<Rightarrow> int \<times> utsname \<times> kstate" where
  "sys_getuname data s = (0, data, s)"

section \<open>Error messages\<close>

definition errlist :: "char list list" where
  "errlist =
    [''No error'',
     ''Not permitted'',
     ''No such file or directory'',
     ''No such process'',
     ''EINTR'',
     ''I/O error'',
     ''No such device'',
     ''Arg list too long'',
     ''Exec format error'',
     ''Bad file number'',
     ''No child processes'',
     ''Try again'',
     ''Out of memory'',
     ''Permission denied'',
     ''Bad address'',
     ''Block device required'',
     ''Busy'',
     ''File exists'',
     ''EXDEV'',
     ''No such device'',
     ''Not a directory'',
     ''Is a directory'',
     ''Invalid argument'',
     ''File table overflow'',
     ''Too many open files'',
     ''ENOTTY'',
     ''ETXTBSY'',
     ''File too large'',
     ''No space left'',
     ''ESPIPE'',
     ''Read-only'',
     ''EMLINK'',
     ''EPIPE'',
     ''EDOM'',
     ''ERANGE'',
     ''EDEADLK'',
     ''Name too long'',
     ''ENOLCK'',
     ''Bad syscall'',
     ''Directory not empty'',
     ''ELOOP'']"

definition sys_strerror :: "int \<Rightarrow> (int \<times> char list) option" where
  "sys_strerror errnum =
     (if errnum \<ge> 0 \<and> errnum < int (length errlist)
      then do { m \<leftarrow> arr_get errlist (nat errnum); Some (0, m) }
      else Some (0, ''Error''))"

section \<open>Debug output\<close>

definition hexchars :: "char list" where "hexchars = ''0123456789abcdef''"

text \<open>The digit for the low four bits of a number.\<close>

definition hexdigit :: "u32 \<Rightarrow> char" where
  "hexdigit v = hexchars ! unat (v AND 0x0F)"

fun kputstr_loop :: "char list \<Rightarrow> kstate \<Rightarrow> kstate" where
  "kputstr_loop [] s = s"
| "kputstr_loop (c # cs) s = (if c = NUL then s else kputstr_loop cs (chrout c s))"

definition kputstr :: "char list option \<Rightarrow> kstate \<Rightarrow> kstate" where
  "kputstr str s = (case str of None \<Rightarrow> s | Some cs \<Rightarrow> kputstr_loop cs s)"

text \<open>The quoting loop; it returns what is left of the limit and of the string.\<close>

fun kputquoted_loop :: "char list \<Rightarrow> nat \<Rightarrow> kstate \<Rightarrow> nat \<times> char list \<times> kstate" where
  "kputquoted_loop [] limit s = (limit, [], s)"
| "kputquoted_loop (c # cs) limit s =
     (if limit = 0 \<or> c = NUL then (limit, c # cs, s)
      else if 0x20 \<le> (of_char c :: int) \<and> (of_char c :: int) \<le> 0x7F then
        kputquoted_loop cs (limit - 1) (chrout c s)
      else if limit < 4 then (limit, c # cs, s)
      else kputquoted_loop cs (limit - 4)
        (chrout (hexdigit (word_of_int (of_char c)))
          (chrout (hexdigit (drop_bit 4 (word_of_int (of_char c))))
            (chrout CHR ''x'' (chrout CHR 0x5C s)))))"

definition kputquoted :: "char list option \<Rightarrow> nat \<Rightarrow> kstate \<Rightarrow> kstate" where
  "kputquoted str limit s =
     (case str of
        None \<Rightarrow> kputstr (Some ''<null>'') s
      | Some cs \<Rightarrow>
          (let (limit1, rest, s1) = kputquoted_loop cs limit (chrout CHR 0x22 s);
               s2 = (if limit1 > 0 \<and> cchar rest \<noteq> NUL then chrout DOT (chrout DOT s1) else s1) in
           chrout CHR 0x22 s2))"

definition kputhexbyte :: "u8 \<Rightarrow> kstate \<Rightarrow> kstate" where
  "kputhexbyte val s =
     chrout CHR '' '' (chrout (hexdigit (ucast val)) (chrout (hexdigit (drop_bit 4 (ucast val))) s))"

definition kputhex :: "u32 \<Rightarrow> kstate \<Rightarrow> kstate" where
  "kputhex val s =
     fold (\<lambda>sh. chrout (hexdigit (drop_bit sh val))) [28, 24, 20, 16, 12, 8, 4, 0]
       (chrout CHR ''x'' (chrout CHR ''0'' s))"

definition kputptr :: "u16 \<Rightarrow> kstate \<Rightarrow> kstate" where
  "kputptr val s = kputhex (ucast val) s"

section \<open>System call table\<close>

datatype sys_handler =
    H_read | H_write | H_open | H_close | H_lseek | H_fcntl | H_dup | H_dup2
  | H_getcwd | H_chdir | H_mkdir | H_rmdir | H_mknod | H_unlink | H_stat | H_lstat | H_opendir
  | H_umask | H_mount | H_umount | H_getpid | H_getppid | H_exit | H_sched_yield
  | H_getuid | H_geteuid | H_setuid | H_seteuid | H_getgid | H_getegid | H_setgid | H_setegid
  | H_getmonotime | H_getrealtime | H_setrealtime | H_getuname | H_strerror | H_notimp

definition SYSCALL_TABLE :: "sys_handler list" where
  "SYSCALL_TABLE =
    [H_read, H_write, H_open, H_close, H_lseek, H_fcntl, H_dup, H_dup2,
     H_notimp, H_notimp, H_notimp, H_notimp, H_notimp, H_notimp, H_notimp, H_notimp,
     H_notimp, H_notimp, H_notimp, H_notimp,
     H_getcwd, H_chdir, H_mkdir, H_rmdir, H_notimp, H_notimp, H_mknod, H_notimp, H_notimp,
     H_unlink, H_stat, H_lstat, H_opendir, H_umask, H_mount, H_umount,
     H_notimp, H_notimp, H_notimp, H_notimp, H_notimp, H_notimp, H_notimp, H_notimp,
     H_notimp, H_notimp, H_notimp, H_notimp, H_notimp, H_notimp,
     H_getpid, H_getppid, H_exit, H_sched_yield,
     H_notimp, H_notimp, H_notimp, H_notimp, H_notimp, H_notimp,
     H_getuid, H_geteuid, H_setuid, H_seteuid, H_getgid, H_getegid, H_setgid, H_setegid,
     H_notimp, H_notimp, H_notimp, H_notimp, H_notimp, H_notimp, H_notimp, H_notimp,
     H_notimp, H_notimp, H_notimp, H_notimp,
     H_getmonotime, H_getrealtime, H_setrealtime,
     H_notimp, H_notimp, H_notimp, H_notimp, H_notimp, H_notimp, H_notimp, H_notimp,
     H_notimp, H_notimp, H_notimp, H_notimp, H_notimp, H_notimp, H_notimp, H_notimp, H_notimp,
     H_getuname, H_strerror,
     H_notimp, H_notimp, H_notimp, H_notimp, H_notimp, H_notimp, H_notimp, H_notimp,
     H_notimp, H_notimp, H_notimp, H_notimp, H_notimp, H_notimp, H_notimp, H_notimp,
     H_notimp, H_notimp, H_notimp, H_notimp, H_notimp, H_notimp, H_notimp, H_notimp,
     H_notimp, H_notimp]"

text \<open>The numbers of \<^verbatim>\<open>bits/syscall.h\<close>.\<close>

definition syscall_numbers :: "(nat \<times> sys_handler) list" where
  "syscall_numbers =
    [(0, H_read), (1, H_write), (2, H_open), (3, H_close), (4, H_lseek), (5, H_fcntl), (6, H_dup),
     (7, H_dup2), (20, H_getcwd), (21, H_chdir), (22, H_mkdir), (23, H_rmdir), (26, H_mknod),
     (29, H_unlink), (30, H_stat), (31, H_lstat), (32, H_opendir), (33, H_umask), (34, H_mount),
     (35, H_umount), (50, H_getpid), (51, H_getppid), (52, H_exit), (53, H_sched_yield),
     (60, H_getuid), (61, H_geteuid), (62, H_setuid), (63, H_seteuid), (64, H_getgid),
     (65, H_getegid), (66, H_setgid), (67, H_setegid), (80, H_getmonotime), (81, H_getrealtime),
     (82, H_setrealtime), (100, H_getuname), (101, H_strerror)]"

text \<open>
  \<^verbatim>\<open>SYSCALL\<close> in libc's \<^verbatim>\<open>syscall.S\<close> doubles the number into Y; \<^verbatim>\<open>brk_syscall\<close>
  loads the two bytes of the table at that index.
\<close>

definition brk_dispatch :: "u8 \<Rightarrow> sys_handler" where
  "brk_dispatch y = SYSCALL_TABLE ! (unat y div 2)"

end
