(* ===== verification/Libc.thy ===== *)
theory Libc
  imports Kmisc Asm6502
begin

unbundle bit_operations_syntax

text \<open>
  The C library \<^verbatim>\<open>libc-mosnix\<close>: the system call stub \<^verbatim>\<open>syscall.S\<close> and the functions that
  call it. A user program's state is the kernel's state, the library's variables, and the results
  of \<^verbatim>\<open>malloc\<close>, which is not part of the library's sources: it is an arbitrary stream of
  successes and failures with arbitrary contents. Programs extend the record by their own variables.
  A pointer argument that may be NULL is an option.
\<close>

section \<open>State\<close>

record ustate =
  kern :: kstate
  errno :: u16
  uts_data :: utsname
  malloc_ok :: "nat \<Rightarrow> bool"
  malloc_byte :: "nat \<Rightarrow> nat \<Rightarrow> char"
  malloc_pos :: nat
  optarg :: "char list option"
  optind :: int
  nextind :: int
  nextchar :: "char list option"

text \<open>A program at its start in a machine at reset, for concrete runs.\<close>

definition blank_ustate :: ustate where
  "blank_ustate =
     \<lparr>kern = blank_state, errno = 0, uts_data = uname_data ''0.1'' ''eater'' False,
      malloc_ok = (\<lambda>_. True), malloc_byte = (\<lambda>_ _. NUL), malloc_pos = 0,
      optarg = None, optind = 0, nextind = 1, nextchar = None\<rparr>"

section \<open>System calls\<close>

text \<open>
  The instructions of \<^verbatim>\<open>syscall\<close> after the trap: the result of the kernel in A and X, and the
  two bytes of \<^verbatim>\<open>errno\<close>.
\<close>

definition syscall_tail :: "u8 \<Rightarrow> u8 \<Rightarrow> u8 \<times> u8 \<Rightarrow> (u8 \<times> u8) \<times> (u8 \<times> u8)" where
  "syscall_tail a x err =
     (if x < 0x80 then ((a, x), err)
      else
        (let (e0, c) = adc (a XOR 0xFF) 1 False;
             (e1, c1) = adc (x XOR 0xFF) 0 c in
         ((0xFF, 0xFF), (e0, e1))))"

text \<open>A 16-bit value as its two bytes.\<close>

definition lo8 :: "u16 \<Rightarrow> u8" where "lo8 w = ucast w"
definition hi8 :: "u16 \<Rightarrow> u8" where "hi8 w = ucast (drop_bit 8 w)"
definition join2 :: "u8 \<times> u8 \<Rightarrow> u16" where
  "join2 b = of_nat (unat (fst b) + 256 * unat (snd b))"

text \<open>What the caller of \<^verbatim>\<open>syscall\<close> sees of the kernel's result.\<close>

definition sysret :: "int \<Rightarrow> 'a ustate_scheme \<Rightarrow> int \<times> 'a ustate_scheme" where
  "sysret r u =
     (let w = word_of_int r :: u16;
          (ax, err) = syscall_tail (lo8 w) (hi8 w) (lo8 (errno u), hi8 (errno u)) in
      (sint (join2 ax), u\<lparr>errno := join2 err\<rparr>))"

definition ucall ::
  "(kstate \<Rightarrow> (int \<times> kstate) option) \<Rightarrow> 'a ustate_scheme \<Rightarrow> (int \<times> 'a ustate_scheme) option" where
  "ucall f u = do { (r, k) \<leftarrow> f (kern u); Some (sysret r (u\<lparr>kern := k\<rparr>)) }"

section \<open>File functions\<close>

definition libc_read ::
  "int \<Rightarrow> char list option \<Rightarrow> u16 \<Rightarrow> 'a ustate_scheme \<Rightarrow> (int \<times> char list \<times> 'a ustate_scheme) option" where
  "libc_read fd data sz u =
     do { (r, buf, k) \<leftarrow> sys_read fd data sz (kern u);
          let (r1, u1) = sysret r (u\<lparr>kern := k\<rparr>);
          Some (r1, buf, u1) }"

definition libc_write ::
  "int \<Rightarrow> char list option \<Rightarrow> u16 \<Rightarrow> 'a ustate_scheme \<Rightarrow> (int \<times> 'a ustate_scheme) option" where
  "libc_write fd data sz = ucall (sys_write fd data sz)"

definition libc_close :: "int \<Rightarrow> 'a ustate_scheme \<Rightarrow> (int \<times> 'a ustate_scheme) option" where
  "libc_close fd = ucall (sys_close fd)"

definition libc_lseek :: "int \<Rightarrow> u32 \<Rightarrow> int \<Rightarrow> 'a ustate_scheme \<Rightarrow> (int \<times> 'a ustate_scheme) option" where
  "libc_lseek fd offset whence u =
     do { (r, u1) \<leftarrow> ucall (\<lambda>s. Some (sys_lseek fd offset whence s)) u;
          if r = 0 then None else Some (- 1, u1) }"

definition libc_dup :: "int \<Rightarrow> 'a ustate_scheme \<Rightarrow> (int \<times> 'a ustate_scheme) option" where
  "libc_dup oldfd = ucall (sys_dup oldfd)"

definition libc_dup2 :: "int \<Rightarrow> int \<Rightarrow> 'a ustate_scheme \<Rightarrow> (int \<times> 'a ustate_scheme) option" where
  "libc_dup2 oldfd newfd = ucall (sys_dup2 oldfd newfd)"

text \<open>The optional argument is \<open>arg\<close>; without one, reading it is undefined.\<close>

definition libc_open ::
  "char list option \<Rightarrow> flags_t \<Rightarrow> u16 option \<Rightarrow> 'a ustate_scheme \<Rightarrow> (int \<times> 'a ustate_scheme) option" where
  "libc_open path oflag arg u =
     do { mode \<leftarrow> (if oflag AND O_CREAT \<noteq> 0 then arg else Some 0x1A4);
          ucall (sys_open path oflag mode) u }"

definition libc_creat :: "char list option \<Rightarrow> mode_t \<Rightarrow> 'a ustate_scheme \<Rightarrow> (int \<times> 'a ustate_scheme) option" where
  "libc_creat path mode = ucall (sys_open path (O_WRONLY OR O_CREAT OR 0x0200) mode)"

definition libc_fcntl ::
  "int \<Rightarrow> int \<Rightarrow> u16 option \<Rightarrow> 'a ustate_scheme \<Rightarrow> (int \<times> 'a ustate_scheme) option" where
  "libc_fcntl fd cmd arg u =
     do { val \<leftarrow> (if even cmd then arg else Some 0);
          ucall (sys_fcntl fd cmd val) u }"

definition libc_getchar :: "'a ustate_scheme \<Rightarrow> (int \<times> 'a ustate_scheme) option" where
  "libc_getchar u =
     do { (r, buf, u1) \<leftarrow> libc_read 0 (Some [NUL]) 1 u;
          Some (if r < 1 then - 1 else of_char (cchar buf), u1) }"

definition libc_putchar :: "char \<Rightarrow> 'a ustate_scheme \<Rightarrow> 'a ustate_scheme option" where
  "libc_putchar c u = map_option snd (libc_write 1 (Some [c]) 1 u)"

section \<open>Directories and nodes\<close>

definition libc_getcwd ::
  "char list option \<Rightarrow> nat \<Rightarrow> 'a ustate_scheme \<Rightarrow> (bool \<times> char list \<times> 'a ustate_scheme) option" where
  "libc_getcwd buf sz u =
     do { (r, b, k) \<leftarrow> sys_getcwd buf sz True (kern u);
          let (r1, u1) = sysret r (u\<lparr>kern := k\<rparr>);
          Some (r1 = 0, b, u1) }"

definition libc_chdir :: "char list option \<Rightarrow> 'a ustate_scheme \<Rightarrow> (int \<times> 'a ustate_scheme) option" where
  "libc_chdir path = ucall (sys_chdir path)"

definition libc_mkdir :: "char list option \<Rightarrow> mode_t \<Rightarrow> 'a ustate_scheme \<Rightarrow> (int \<times> 'a ustate_scheme) option" where
  "libc_mkdir path mode = ucall (sys_mkdir path mode)"

definition libc_rmdir :: "char list option \<Rightarrow> 'a ustate_scheme \<Rightarrow> (int \<times> 'a ustate_scheme) option" where
  "libc_rmdir path = ucall (\<lambda>s. Some (sys_rmdir path s))"

definition libc_mknod ::
  "char list option \<Rightarrow> mode_t \<Rightarrow> dev_t \<Rightarrow> 'a ustate_scheme \<Rightarrow> (int \<times> 'a ustate_scheme) option" where
  "libc_mknod path mode dev = ucall (sys_mknod path mode dev)"

definition libc_unlink :: "char list option \<Rightarrow> 'a ustate_scheme \<Rightarrow> (int \<times> 'a ustate_scheme) option" where
  "libc_unlink path = ucall (\<lambda>s. Some (sys_unlink path s))"

definition libc_stat :: "char list option \<Rightarrow> 'a ustate_scheme \<Rightarrow> (int \<times> 'a ustate_scheme) option" where
  "libc_stat path = ucall (\<lambda>s. Some (sys_stat path s))"

definition libc_lstat :: "char list option \<Rightarrow> 'a ustate_scheme \<Rightarrow> (int \<times> 'a ustate_scheme) option" where
  "libc_lstat path = ucall (\<lambda>s. Some (sys_lstat path s))"

definition libc_umask :: "mode_t \<Rightarrow> 'a ustate_scheme \<Rightarrow> (mode_t \<times> 'a ustate_scheme) option" where
  "libc_umask msk u = do { (r, u1) \<leftarrow> ucall (sys_umask msk) u; Some (word_of_int r, u1) }"

definition libc_mount ::
  "char list option \<Rightarrow> char list option \<Rightarrow> char list option \<Rightarrow> u32 \<Rightarrow> 'a ustate_scheme \<Rightarrow>
   (int \<times> 'a ustate_scheme) option" where
  "libc_mount source tgt filesystemtype mountflags =
     ucall (sys_mount source tgt filesystemtype mountflags)"

definition libc_umount :: "char list option \<Rightarrow> 'a ustate_scheme \<Rightarrow> (int \<times> 'a ustate_scheme) option" where
  "libc_umount tgt = ucall (\<lambda>s. Some (sys_umount tgt s))"

text \<open>Directory streams. \<^const>\<open>None\<close> for a stream is NULL.\<close>

record DIR_s =
  dir_fd :: int
  dir_entry :: "char list"

definition libc_opendir ::
  "char list option \<Rightarrow> 'a ustate_scheme \<Rightarrow> (DIR_s option \<times> 'a ustate_scheme) option" where
  "libc_opendir path u =
     do { (fd, u1) \<leftarrow> ucall (sys_opendir path) u;
          if fd < 0 then Some (None, u1)
          else
            (let n = malloc_pos u1; u2 = u1\<lparr>malloc_pos := Suc n\<rparr> in
             if \<not> malloc_ok u2 n then
               do { (r, u3) \<leftarrow> ucall (sys_close fd) u2;
                    Some (None, u3\<lparr>errno := word_of_int ENOMEM\<rparr>) }
             else Some (Some \<lparr>dir_fd = fd, dir_entry = map (malloc_byte u2 n) [0 ..< sizeof_dirent]\<rparr>, u2)) }"

definition libc_closedir :: "DIR_s option \<Rightarrow> 'a ustate_scheme \<Rightarrow> (int \<times> 'a ustate_scheme) option" where
  "libc_closedir dir u =
     (case dir of
        Some d \<Rightarrow> libc_close (dir_fd d) u
      | None \<Rightarrow> Some (- 1, u\<lparr>errno := word_of_int EBADF\<rparr>))"

text \<open>The stream with its new contents, and whether an entry was read.\<close>

definition libc_readdir ::
  "DIR_s option \<Rightarrow> 'a ustate_scheme \<Rightarrow> (bool \<times> DIR_s option \<times> 'a ustate_scheme) option" where
  "libc_readdir dir u =
     (case dir of
        Some d \<Rightarrow>
          do { (sz, buf, u1) \<leftarrow> libc_read (dir_fd d) (Some (dir_entry d)) (of_nat sizeof_dirent) u;
               Some (sz > 0, Some (d\<lparr>dir_entry := buf\<rparr>), u1) }
      | None \<Rightarrow> Some (False, None, u\<lparr>errno := word_of_int EBADF\<rparr>))"

section \<open>Processes, identities, names\<close>

definition libc_getpid :: "'a ustate_scheme \<Rightarrow> (int \<times> 'a ustate_scheme) option" where
  "libc_getpid = ucall sys_getpid"

definition libc_getppid :: "'a ustate_scheme \<Rightarrow> (int \<times> 'a ustate_scheme) option" where
  "libc_getppid = ucall sys_getppid"

text \<open>\<^verbatim>\<open>_exit\<close> does not return.\<close>

definition libc_exit :: "int \<Rightarrow> 'a ustate_scheme \<Rightarrow> outcome \<times> 'a ustate_scheme" where
  "libc_exit status u = (let (oc, k) = sys_exit status (kern u) in (oc, u\<lparr>kern := k\<rparr>))"

definition libc_sched_yield :: "'a ustate_scheme \<Rightarrow> (int \<times> 'a ustate_scheme) option" where
  "libc_sched_yield = ucall (\<lambda>s. Some (sys_sched_yield s))"

definition libc_getuid :: "'a ustate_scheme \<Rightarrow> (int \<times> 'a ustate_scheme) option" where
  "libc_getuid = ucall (\<lambda>s. Some (sys_getuid s))"

definition libc_geteuid :: "'a ustate_scheme \<Rightarrow> (int \<times> 'a ustate_scheme) option" where
  "libc_geteuid = ucall (\<lambda>s. Some (sys_geteuid s))"

definition libc_setuid :: "u16 \<Rightarrow> 'a ustate_scheme \<Rightarrow> (int \<times> 'a ustate_scheme) option" where
  "libc_setuid uid = ucall (\<lambda>s. Some (sys_setuid uid s))"

definition libc_seteuid :: "u16 \<Rightarrow> 'a ustate_scheme \<Rightarrow> (int \<times> 'a ustate_scheme) option" where
  "libc_seteuid uid = ucall (\<lambda>s. Some (sys_seteuid uid s))"

definition libc_getgid :: "'a ustate_scheme \<Rightarrow> (int \<times> 'a ustate_scheme) option" where
  "libc_getgid = ucall (\<lambda>s. Some (sys_getgid s))"

definition libc_getegid :: "'a ustate_scheme \<Rightarrow> (int \<times> 'a ustate_scheme) option" where
  "libc_getegid = ucall (\<lambda>s. Some (sys_getegid s))"

definition libc_setgid :: "u16 \<Rightarrow> 'a ustate_scheme \<Rightarrow> (int \<times> 'a ustate_scheme) option" where
  "libc_setgid gid = ucall (\<lambda>s. Some (sys_setgid gid s))"

definition libc_setegid :: "u16 \<Rightarrow> 'a ustate_scheme \<Rightarrow> (int \<times> 'a ustate_scheme) option" where
  "libc_setegid gid = ucall (\<lambda>s. Some (sys_setegid gid s))"

text \<open>\<open>buf\<close> says whether the pointer is not NULL.\<close>

definition libc_uname :: "bool \<Rightarrow> 'a ustate_scheme \<Rightarrow> int \<times> utsname option \<times> 'a ustate_scheme" where
  "libc_uname buf u =
     (if \<not> buf then (- 1, None, u\<lparr>errno := word_of_int EFAULT\<rparr>)
      else
        (let (r, data, k) = sys_getuname (uts_data u) (kern u);
             (r1, u1) = sysret r (u\<lparr>kern := k\<rparr>) in
         if r1 = 0 then (0, Some data, u1) else (- 1, None, u1)))"

definition libc_strerror :: "int \<Rightarrow> 'a ustate_scheme \<Rightarrow> (char list \<times> 'a ustate_scheme) option" where
  "libc_strerror errnum u =
     do { (r, m) \<leftarrow> sys_strerror errnum;
          let (r1, u1) = sysret r u;
          Some (m, u1) }"

section \<open>Time\<close>

record timespec =
  tv_sec :: u32
  tv_nsec :: u32

abbreviation (input) CLOCK_REALTIME :: u8 where "CLOCK_REALTIME \<equiv> 0"
abbreviation (input) CLOCK_MONOTONIC :: u8 where "CLOCK_MONOTONIC \<equiv> 1"

definition libc_monotime :: "'a ustate_scheme \<Rightarrow> 64 word \<times> 'a ustate_scheme" where
  "libc_monotime u =
     (let (r, t, k) = sys_getmonotime (kern u) in (t, snd (sysret r (u\<lparr>kern := k\<rparr>))))"

definition libc_realtime :: "'a ustate_scheme \<Rightarrow> 64 word \<times> 'a ustate_scheme" where
  "libc_realtime u =
     (let (r, t, k) = sys_getrealtime (kern u) in (t, snd (sysret r (u\<lparr>kern := k\<rparr>))))"

definition libc_time :: "'a ustate_scheme \<Rightarrow> u32 \<times> 'a ustate_scheme" where
  "libc_time u =
     (let (t1, u1) = libc_monotime u; (t2, u2) = libc_realtime u1 in
      (ucast (signed_drop_bit 8 (t1 + t2)), u2))"

definition ticks_to_timespec :: "64 word \<Rightarrow> timespec" where
  "ticks_to_timespec t1 =
     \<lparr>tv_sec = ucast (signed_drop_bit 8 t1),
      tv_nsec = ucast (signed_drop_bit 8 ((t1 AND 0xFF) * 1000000000))\<rparr>"

text \<open>\<open>ts\<close> says whether the pointer is not NULL.\<close>

definition libc_clock_gettime :: "u8 \<Rightarrow> bool \<Rightarrow> 'a ustate_scheme \<Rightarrow> int \<times> timespec option \<times> 'a ustate_scheme" where
  "libc_clock_gettime clockid ts u =
     (if \<not> ts then (- 1, None, u\<lparr>errno := word_of_int EFAULT\<rparr>)
      else if clockid = CLOCK_MONOTONIC then
        (let (t1, u1) = libc_monotime u in (0, Some (ticks_to_timespec t1), u1))
      else if clockid = CLOCK_REALTIME then
        (let (t1, u1) = libc_monotime u; (t2, u2) = libc_realtime u1; t = t1 + t2 in
         (0, Some (ticks_to_timespec (if sint t < 0 then 0 else t)), u2))
      else (- 1, None, u\<lparr>errno := word_of_int EINVAL\<rparr>))"

definition libc_clock_settime :: "u8 \<Rightarrow> timespec option \<Rightarrow> 'a ustate_scheme \<Rightarrow> int \<times> 'a ustate_scheme" where
  "libc_clock_settime clockid ts u =
     (case ts of
        None \<Rightarrow> (- 1, u\<lparr>errno := word_of_int EFAULT\<rparr>)
      | Some t \<Rightarrow>
          if clockid = CLOCK_REALTIME \<and> sint (tv_sec t) \<ge> 0 \<and> sint (tv_nsec t) \<ge> 0 then
            (let t2 = push_bit 8 (scast (tv_sec t)) + push_bit 8 (scast (tv_nsec t)) div 1000000000;
                 (t1, u1) = libc_monotime u;
                 (r, k) = sys_setrealtime (t2 - t1) (kern u1) in
             sysret r (u1\<lparr>kern := k\<rparr>))
          else (- 1, u\<lparr>errno := word_of_int EINVAL\<rparr>))"

definition libc_tzset :: "'a ustate_scheme \<Rightarrow> 'a ustate_scheme" where
  "libc_tzset u = u"

section \<open>The result of a system call\<close>

lemma unat_lo8: "unat (lo8 w) = unat w mod 256"
  by (simp add: lo8_def unsigned_ucast_eq take_bit_eq_mod)

lemma unat_hi8: "unat (hi8 w) = unat w div 256"
proof -
  have "unat w div 256 < 256" using u16_bound [of w] by (simp add: less_mult_imp_div_less)
  then show ?thesis
    by (simp add: hi8_def drop_bit_eq_div unsigned_ucast_eq take_bit_eq_mod unat_div)
qed

lemma unat_join2: "unat (join2 (a, b)) = unat a + 256 * unat b"
proof -
  have "unat a + 256 * unat b < 65536" using u8_bound [of a] u8_bound [of b] by simp
  then show ?thesis unfolding join2_def fst_conv snd_conv unat_of_nat by (subst mod_less) simp_all
qed

lemma join2_bytes [simp]: "join2 (lo8 w, hi8 w) = w"
  by (simp add: word_unat_eq_iff unat_join2 unat_lo8 unat_hi8)

lemma unat_flip8: "unat ((x :: u8) XOR 0xFF) = 255 - unat x"
proof -
  have top: "(0xFF :: u8) = - 1" by simp
  have "x XOR 0xFF = - 1 - x" unfolding top by (simp add: not_eq_complement)
  moreover have "unat (- 1 - x) = unat (- 1 :: u8) - unat x"
    by (rule unat_sub) (rule word_order.extremum)
  moreover have "unat (- 1 :: u8) = 255" unfolding top [symmetric] by simp
  ultimately show ?thesis by simp
qed

lemma sint_nonneg_u16: "0 \<le> sint (w :: u16) \<longleftrightarrow> unat w < 32768"
proof -
  have "0 \<le> sint w \<longleftrightarrow> \<not> bit w 15"
    by (simp add: sint_uint signed_take_bit_nonnegative_iff bit_uint_iff)
  also have "\<dots> \<longleftrightarrow> even (unat w div 32768)"
    using bit_unsigned_iff [where 'a = nat, of w 15] by (simp add: bit_iff_odd)
  also have "\<dots> \<longleftrightarrow> unat w < 32768"
  proof -
    have "unat w div 32768 < 2" using u16_bound [of w] by (simp add: less_mult_imp_div_less)
    then have "unat w div 32768 = 0 \<or> unat w div 32768 = 1" by linarith
    then show ?thesis by (auto simp: div_eq_0_iff)
  qed
  finally show ?thesis .
qed

text \<open>The two branches of the stub, over 16-bit values.\<close>

lemma syscall_tail_ok: "unat w < 32768 \<Longrightarrow> syscall_tail (lo8 w) (hi8 w) err = ((lo8 w, hi8 w), err)"
  by (simp add: syscall_tail_def word_less_nat_alt unat_hi8 less_mult_imp_div_less)

lemma syscall_tail_error:
  assumes "32768 \<le> unat w"
  shows "\<exists>e. syscall_tail (lo8 w) (hi8 w) err = ((0xFF, 0xFF), e) \<and> join2 e = - w"
proof -
  obtain e0 c where e0: "adc (lo8 w XOR 0xFF) 1 False = (e0, c)" by (cases "adc (lo8 w XOR 0xFF) 1 False")
  obtain e1 c1 where e1: "adc (hi8 w XOR 0xFF) 0 c = (e1, c1)" by (cases "adc (hi8 w XOR 0xFF) 0 c")
  have "\<not> hi8 w < 0x80" using assms by (simp add: word_less_nat_alt unat_hi8)
  then have tail: "syscall_tail (lo8 w) (hi8 w) err = ((0xFF, 0xFF), (e0, e1))"
    by (simp add: syscall_tail_def e0 e1)
  have w: "unat w = unat w mod 256 + 256 * (unat w div 256)" by simp
  have b: "unat w mod 256 < 256" "unat w div 256 < 256"
    using u16_bound [of w] by (simp_all add: less_mult_imp_div_less)
  have "unat e0 + 256 * unat e1 + 65536 * of_bool c1 + unat w = 65536"
  proof -
    have "unat e0 + 256 * of_bool c = (255 - unat w mod 256) + 1"
      using adc_carry [OF e0] by (simp add: unat_flip8 unat_lo8)
    moreover have "unat e1 + 256 * of_bool c1 = (255 - unat w div 256) + of_bool c"
      using adc_carry [OF e1] by (simp add: unat_flip8 unat_hi8)
    ultimately show ?thesis using w b by linarith
  qed
  moreover have "unat w \<noteq> 0" using assms by simp
  ultimately have "unat (join2 (e0, e1)) = 65536 - unat w"
    using u8_bound [of e0] u8_bound [of e1] by (cases c1) (simp_all add: unat_join2)
  then have "unat (join2 (e0, e1) + w) = 0"
    using u16_bound [of w] by (simp add: unat_word_ariths)
  then have "join2 (e0, e1) + w = 0"
    using word_unat_eq_iff [of "join2 (e0, e1) + w" 0] by simp
  then have "join2 (e0, e1) = - w" by (simp only: eq_neg_iff_add_eq_0)
  then show ?thesis using tail by blast
qed

lemma sysret_ok:
  assumes "0 \<le> r" and "r < 32768"
  shows "sysret r u = (r, u)"
proof -
  let ?w = "word_of_int r :: u16"
  have "unat ?w = nat r"
    using assms by (simp add: unat_eq_nat_uint uint_word_of_int)
  then have "unat ?w < 32768" using assms by simp
  moreover have "sint ?w = r" using assms by (simp add: sint_sbintrunc' signed_take_bit_int_eq_self)
  ultimately show ?thesis by (simp add: sysret_def syscall_tail_ok Let_def)
qed

lemma sysret_error:
  assumes "0 < e" and "e \<le> 32768"
  shows "sysret (- e) u = (- 1, u\<lparr>errno := word_of_int e\<rparr>)"
proof -
  let ?w = "word_of_int (- e) :: u16"
  have "sint ?w = signed_take_bit 15 (- e)" by (simp only: sint_sbintrunc') simp
  then have "sint ?w = - e" using assms by (simp add: signed_take_bit_int_eq_self)
  then have "32768 \<le> unat ?w" using sint_nonneg_u16 [of ?w] assms by simp
  from syscall_tail_error [OF this, of "(lo8 (errno u), hi8 (errno u))"]
  obtain err where "syscall_tail (lo8 ?w) (hi8 ?w) (lo8 (errno u), hi8 (errno u)) = ((0xFF, 0xFF), err)"
    and "join2 err = - ?w" by blast
  moreover have "sint (join2 (0xFF, 0xFF)) = - 1"
  proof -
    have "unat (join2 (0xFF, 0xFF)) = 65535" by (simp add: unat_join2)
    moreover have "unat (- 1 :: u16) = 65535"
    proof -
      have top: "(- 1 :: u16) = 0xFFFF" by simp
      show ?thesis unfolding top by simp
    qed
    ultimately have "join2 (0xFF, 0xFF) = - 1" by (simp only: word_unat_eq_iff)
    then show ?thesis by simp
  qed
  ultimately show ?thesis by (simp add: sysret_def Let_def)
qed

text \<open>
  C16. The system call stub: the instructions after the trap turn a negative result of the kernel
  into the result -1 with the negated code in \<^verbatim>\<open>errno\<close>, computed byte by byte with its
  carry, and pass every other result on with \<^verbatim>\<open>errno\<close> unchanged.
\<close>

theorem syscall_errno:
  assumes "f (kern u) = Some (r, k)" and "- 32768 \<le> r" and "r < 32768"
  shows "ucall f u =
    Some (if r < 0 then (- 1, u\<lparr>kern := k, errno := word_of_int (- r)\<rparr>) else (r, u\<lparr>kern := k\<rparr>))"
  using assms sysret_error [of "- r" "u\<lparr>kern := k\<rparr>"] sysret_ok [of r "u\<lparr>kern := k\<rparr>"]
  by (simp add: ucall_def)

theorem syscall_errno_witness:
  "ucall (\<lambda>s. Some (sys_rmdir None s)) blank_ustate =
     Some (- 1, blank_ustate\<lparr>kern := blank_state, errno := 38\<rparr>)"
  using syscall_errno [of "\<lambda>s. Some (sys_rmdir None s)" blank_ustate "- 38" blank_state]
  by (simp add: sys_rmdir_def blank_ustate_def)

section \<open>Setting and reading the clock\<close>

lemma small_no_sign:
  fixes w :: "'a::len word"
  assumes "unat w < 2 ^ n" and "n \<le> m"
  shows "\<not> bit w m"
proof
  assume "bit w m"
  then have "bit (unat w) m" by (simp add: bit_unsigned_iff)
  then have "\<not> unat w < 2 ^ m" by (auto simp: bit_iff_odd div_eq_0_iff)
  moreover have "(2 :: nat) ^ n \<le> 2 ^ m" using assms by simp
  ultimately show False using assms by linarith
qed

lemma signed_drop_bit_small:
  fixes w :: "'a::len word"
  assumes "unat w < 2 ^ n" and "n < LENGTH('a)"
  shows "unat (signed_drop_bit k w) = unat w div 2 ^ k"
proof -
  have "\<not> bit w (LENGTH('a) - 1)" using assms small_no_sign [of w n "LENGTH('a) - 1"] by simp
  then have "signed_drop_bit k w = drop_bit k w"
    by (intro bit_word_eqI) (auto simp: bit_simps bit_signed_drop_bit_iff dest: bit_imp_le_length)
  then show ?thesis by (simp only: unat_drop_bit_eq) (rule drop_bit_eq_div)
qed

lemma ticks_to_timespec_unat:
  assumes "unat t < 2 ^ 39"
  shows "unat (tv_sec (ticks_to_timespec t)) = unat t div 256"
    and "unat (tv_nsec (ticks_to_timespec t)) = unat t mod 256 * 1000000000 div 256"
proof -
  show "unat (tv_sec (ticks_to_timespec t)) = unat t div 256"
    using assms signed_drop_bit_small [of t 39 8]
    by (simp add: ticks_to_timespec_def unsigned_ucast_eq take_bit_eq_mod less_mult_imp_div_less)
  let ?p = "(t AND 0xFF) * 1000000000"
  have "(0xFF :: 64 word) = mask 8" by code_simp
  then have "unat (t AND 0xFF) = unat t mod 256" by (simp only: unat_and_mask) simp
  moreover have "unat t mod 256 < 256" by simp
  ultimately have p: "unat ?p = unat t mod 256 * 1000000000"
    by (simp add: unat_mult_lem [THEN iffD1])
  then have "unat ?p < 2 ^ 38" using \<open>unat t mod 256 < 256\<close> by simp
  then have "unat (signed_drop_bit 8 ?p) = unat t mod 256 * 1000000000 div 256"
    using signed_drop_bit_small [of ?p 38 8] p by simp
  moreover have "unat t mod 256 * 1000000000 div 256 < 2 ^ 32" using \<open>unat t mod 256 < 256\<close> by simp
  ultimately show "unat (tv_nsec (ticks_to_timespec t)) = unat t mod 256 * 1000000000 div 256"
    by (simp add: ticks_to_timespec_def unsigned_ucast_eq take_bit_eq_mod)
qed

lemma libc_monotime_eq:
  "libc_monotime u = (let k = kern u in (mono k (mono_pos k), u\<lparr>kern := k\<lparr>mono_pos := Suc (mono_pos k)\<rparr>\<rparr>))"
  by (simp add: libc_monotime_def sys_getmonotime_def sys_monoclock_def sysret_ok Let_def)

lemma libc_realtime_eq: "libc_realtime u = (realtime (kern u), u)"
  by (simp add: libc_realtime_def sys_getrealtime_def sysret_ok)

lemma libc_time_call_eq:
  assumes "0 \<le> sint (tv_sec ts)" and "0 \<le> sint (tv_nsec ts)"
  defines "t2 \<equiv> push_bit 8 (scast (tv_sec ts)) + push_bit 8 (scast (tv_nsec ts)) div 1000000000"
  shows "libc_clock_settime CLOCK_REALTIME (Some ts) u =
    (let k = kern u in (0, u\<lparr>kern := k\<lparr>mono_pos := Suc (mono_pos k),
       realtime := t2 - mono k (mono_pos k)\<rparr>\<rparr>))"
  using assms
  by (simp add: libc_clock_settime_def libc_monotime_eq sys_setrealtime_def sysret_ok Let_def)

lemma scast_ticks:
  fixes w :: u32
  assumes "0 \<le> sint w"
  shows "unat (push_bit 8 (scast w :: 64 word)) = 256 * unat w" and "unat w < 2147483648"
proof -
  have "\<not> bit w 31" using assms by (simp add: sint_uint signed_take_bit_nonnegative_iff bit_uint_iff)
  then have lt: "n < 31" if "bit w n" for n
    using that bit_imp_le_length [OF that] by (cases "n = 31") auto
  then have "take_bit 31 w = w" by (intro bit_word_eqI) (auto simp: bit_simps)
  then have "unat w = unat w mod 2 ^ 31" by (metis unsigned_take_bit_eq take_bit_eq_mod)
  then show b: "unat w < 2147483648" by (simp add: mod_eq_self_iff_div_eq_0 div_eq_0_iff)
  have "scast w = (ucast w :: 64 word)"
    by (intro bit_word_eqI) (auto simp: bit_simps min_def split: if_splits dest: lt)
  then have "push_bit 8 (scast w :: 64 word) = of_nat (256 * unat w)"
    by (simp add: push_bit_eq_mult)
  then show "unat (push_bit 8 (scast w :: 64 word)) = 256 * unat w"
    using b by (simp only: unat_of_nat) simp
qed

text \<open>
  C17. Setting the real time clock and reading it back gives the time that was set plus the ticks
  of 1/256 second that the monotonic clock advanced in between, also when that
  clock wraps around: \<^verbatim>\<open>clock_settime\<close> stores the offset to the monotonic clock and
  \<^verbatim>\<open>clock_gettime\<close> adds it again.
\<close>

theorem clock_settime_gettime:
  assumes "0 \<le> sint (tv_sec ts)" and "0 \<le> sint (tv_nsec ts)"
    and "elapsed = unat (mono (kern u) (Suc (mono_pos (kern u))) - mono (kern u) (mono_pos (kern u)))"
    and "ticks = 256 * unat (tv_sec ts) + 256 * unat (tv_nsec ts) div 1000000000 + elapsed"
    and "ticks < 2 ^ 39"
  shows "\<exists>u1 u2 res. libc_clock_settime CLOCK_REALTIME (Some ts) u = (0, u1) \<and>
    libc_clock_gettime CLOCK_REALTIME True u1 = (0, Some res, u2) \<and>
    unat (tv_sec res) = ticks div 256 \<and> unat (tv_nsec res) = ticks mod 256 * 1000000000 div 256"
proof -
  define k where "k = kern u"
  let ?m = "mono k (mono_pos k)" and ?m1 = "mono k (Suc (mono_pos k))"
  define t2 :: "64 word" where
    "t2 = push_bit 8 (scast (tv_sec ts)) + push_bit 8 (scast (tv_nsec ts)) div 1000000000"
  define t where "t = ?m1 + (t2 - ?m)"
  have "unat (push_bit 8 (scast (tv_nsec ts)) div (1000000000 :: 64 word)) =
    256 * unat (tv_nsec ts) div 1000000000"
    using scast_ticks [OF assms(2)] by (simp add: unat_div)
  then have "unat t2 = 256 * unat (tv_sec ts) + 256 * unat (tv_nsec ts) div 1000000000"
    unfolding t2_def using scast_ticks [OF assms(1)] scast_ticks [OF assms(2)]
    by (subst unat_add_lem [THEN iffD1]) simp_all
  moreover have "t = t2 + (?m1 - ?m)" by (simp add: t_def)
  ultimately have t: "unat t = ticks"
    using assms(3-5) by (subst (asm) k_def [symmetric], simp only:)
      (subst unat_add_lem [THEN iffD1], simp_all add: k_def)
  then have pos: "\<not> sint t < 0"
    using assms(5) small_no_sign [of t 39 63]
    by (simp add: sint_uint signed_take_bit_nonnegative_iff bit_uint_iff not_less)
  let ?u1 = "u\<lparr>kern := k\<lparr>mono_pos := Suc (mono_pos k), realtime := t2 - ?m\<rparr>\<rparr>"
  have "libc_clock_settime CLOCK_REALTIME (Some ts) u = (0, ?u1)"
    using libc_time_call_eq [OF assms(1,2)] by (simp add: k_def t2_def Let_def)
  moreover have "\<exists>u2. libc_clock_gettime CLOCK_REALTIME True ?u1 = (0, Some (ticks_to_timespec t), u2)"
    using pos by (simp add: libc_clock_gettime_def libc_monotime_eq libc_realtime_eq Let_def t_def)
  ultimately show ?thesis
    using ticks_to_timespec_unat [of t] assms(5) unfolding t by blast
qed

theorem clock_settime_gettime_witness:
  "\<exists>u1 u2 res. libc_clock_settime CLOCK_REALTIME (Some \<lparr>tv_sec = 5, tv_nsec = 500000000\<rparr>) blank_ustate = (0, u1) \<and>
    libc_clock_gettime CLOCK_REALTIME True u1 = (0, Some res, u2) \<and>
    unat (tv_sec res) = 5 \<and> unat (tv_nsec res) = 500000000"
  using clock_settime_gettime [of "\<lparr>tv_sec = 5, tv_nsec = 500000000\<rparr>" 0 blank_ustate 1408]
  by (simp add: blank_ustate_def blank_state_def)

end
