(* ===== verification/Getopt.thy ===== *)
theory Getopt
  imports Libc
begin

text \<open>
  Option parsing, \<^verbatim>\<open>libc-mosnix/getopt.c\<close>. \<^verbatim>\<open>nextchar\<close> points into an argument and is
  the rest of that argument. The pointer that \<^verbatim>\<open>strchr\<close> returns into the
  string of options is the rest of that string.
\<close>

fun strchr :: "char list \<Rightarrow> char \<Rightarrow> char list option" where
  "strchr [] c = (if c = NUL then Some [] else None)"
| "strchr (x # xs) c =
     (if x = c then Some (x # xs) else if x = NUL then None else strchr xs c)"

text \<open>\<^verbatim>\<open>opt[1]\<close>, which lies past the end of the string when \<^verbatim>\<open>opt\<close> points to its NUL.\<close>

definition opt_next :: "char list \<Rightarrow> char option" where
  "opt_next opt = (if cchar opt = NUL then None else Some (cchar (tl opt)))"

abbreviation (input) DASH :: char where "DASH \<equiv> CHR ''-''"

definition unknown_option :: "char list option \<Rightarrow> char \<Rightarrow> 'a ustate_scheme \<Rightarrow> 'a ustate_scheme option" where
  "unknown_option name chname u =
     do { (r, u1) \<leftarrow> libc_write 2 (Some (''unknown option '' @ [CHR 0x60])) 16 u;
          (r, u2) \<leftarrow> (if chname \<noteq> NUL then libc_write 2 (Some [DASH, chname]) 2 u1
                     else do { n \<leftarrow> name; libc_write 2 (Some (cstr n)) (of_nat (length (cstr n))) u1 });
          (r, u3) \<leftarrow> libc_write 2 (Some [CHR 0x27, CHR 0x0A]) 2 u2;
          Some u3 }"

definition missing_argument :: "char \<Rightarrow> 'a ustate_scheme \<Rightarrow> 'a ustate_scheme option" where
  "missing_argument chname u =
     do { (r, u1) \<leftarrow> libc_write 2 (Some (''missing argument for '' @ [CHR 0x60, DASH])) 22 u;
          (r, u2) \<leftarrow> libc_write 2 (Some [chname]) 1 u1;
          (r, u3) \<leftarrow> libc_write 2 (Some [CHR 0x27, CHR 0x0A]) 2 u2;
          Some u3 }"

definition argv_at :: "char list option list \<Rightarrow> int \<Rightarrow> char list option option" where
  "argv_at argv i = (if i < 0 then None else arr_get argv (nat i))"

abbreviation (input) QUESTION :: int where "QUESTION \<equiv> 63"

text \<open>The processing of one option character.\<close>

definition getopt_char ::
  "int \<Rightarrow> char list option list \<Rightarrow> char list \<Rightarrow> char list \<Rightarrow> 'a ustate_scheme \<Rightarrow>
   (int \<times> 'a ustate_scheme) option" where
  "getopt_char argc argv options p u =
     do { let ch = cchar p;
          let u = u\<lparr>nextchar := Some (tl p)\<rparr>;
          case strchr options ch of
            None \<Rightarrow>
              do { u1 \<leftarrow> unknown_option None ch u;
                   Some (QUESTION, u1\<lparr>optind := nextind u1\<rparr>) }
          | Some opt \<Rightarrow>
              do { n \<leftarrow> opt_next opt;
                   if n = CHR '':'' then
                     (let u1 = u\<lparr>optind := nextind u, nextind := nextind u + 1\<rparr> in
                      if cchar (tl p) \<noteq> NUL then
                        Some (of_char ch, u1\<lparr>optarg := Some (tl p), nextchar := None\<rparr>)
                      else if nextind u1 < argc then
                        do { a \<leftarrow> argv_at argv (nextind u1);
                             Some (of_char ch, u1\<lparr>optarg := a, nextind := nextind u1 + 1,
                                                  optind := nextind u1 + 1\<rparr>) }
                      else
                        do { u2 \<leftarrow> missing_argument ch u1;
                             Some (QUESTION, u2\<lparr>optind := nextind u2, nextind := nextind u2 + 1\<rparr>) })
                   else if cchar (tl p) = NUL then
                     Some (of_char ch, u\<lparr>optind := nextind u, nextchar := None, nextind := nextind u + 1\<rparr>)
                   else Some (of_char ch, u\<lparr>optind := nextind u\<rparr>) } }"

definition getopt ::
  "int \<Rightarrow> char list option list \<Rightarrow> char list \<Rightarrow> 'a ustate_scheme \<Rightarrow> (int \<times> 'a ustate_scheme) option" where
  "getopt argc argv options u =
     (let u1 = (if optind u = 0 then u\<lparr>optind := 1, nextind := 1, nextchar := None\<rparr> else u);
          u2 = u1\<lparr>optarg := None\<rparr>;
          i = nextind u2 in
      case nextchar u2 of
        Some p \<Rightarrow> getopt_char argc argv options p u2
      | None \<Rightarrow>
          if i \<ge> argc then Some (- 1, u2\<lparr>optind := i, nextind := i + 1\<rparr>)
          else
            do { a \<leftarrow> argv_at argv i;
                 case a of
                   None \<Rightarrow> Some (- 1, u2\<lparr>optind := i, nextind := i + 1\<rparr>)
                 | Some w \<Rightarrow>
                     if cchar w = DASH \<and> cchar (tl w) = DASH then
                       (if cchar (tl (tl w)) \<noteq> NUL then
                          do { u3 \<leftarrow> unknown_option (Some w) NUL u2;
                               Some (QUESTION, u3\<lparr>optind := i\<rparr>) }
                        else Some (- 1, u2\<lparr>nextind := i + 1, optind := i + 1\<rparr>))
                     else if cchar w = DASH \<and> cchar (tl w) \<noteq> NUL then
                       getopt_char argc argv options (tl w) (u2\<lparr>nextchar := Some (tl w), optind := i\<rparr>)
                     else Some (- 1, u2\<lparr>optind := i\<rparr>) })"

end
