(* ===== verification/Print.thy ===== *)
theory Print
  imports Getopt
begin

unbundle bit_operations_syntax

text \<open>
  The shell's output functions, \<^verbatim>\<open>shell/print.c\<close>, and the division by ten, \<^verbatim>\<open>shell/div10.S\<close>.
\<close>

section \<open>Division by ten\<close>

text \<open>One round of the loop: the bytes of the 40-bit working register, the accumulator last.\<close>

fun div10_round :: "u8 \<times> u8 \<times> u8 \<times> u8 \<times> u8 \<Rightarrow> u8 \<times> u8 \<times> u8 \<times> u8 \<times> u8" where
  "div10_round (r4, r5, r6, r7, a) =
     (let (r4, c) = asl r4;
          (r5, c) = rol r5 c;
          (r6, c) = rol r6 c;
          (r7, c) = rol r7 c;
          (a, c) = rol a c in
      if a < 10 then (r4, r5, r6, r7, a)
      else (r4 + 1, r5, r6, r7, fst (sbc a 10 True)))"

text \<open>
  The \<^verbatim>\<open>tya\<close> that is meant to clear the accumulator is followed by the four loads, so the
  loop starts with the value's highest byte in it.
\<close>

definition div10 :: "u32 \<Rightarrow> u8 \<times> u32" where
  "div10 val =
     (let (r4, r5, r6, r7, a) =
        (div10_round ^^ 32) (byte val 0, byte val 1, byte val 2, byte val 3, byte val 3) in
      (a, join4 r4 r5 r6 r7))"

section \<open>Output\<close>

definition print_char :: "char \<Rightarrow> 'a ustate_scheme \<Rightarrow> 'a ustate_scheme option" where
  "print_char c u = map_option snd (libc_write 1 (Some [c]) 1 u)"

definition print_string :: "char list option \<Rightarrow> 'a ustate_scheme \<Rightarrow> 'a ustate_scheme option" where
  "print_string str u =
     (case str of
        None \<Rightarrow> Some u
      | Some s \<Rightarrow> map_option snd (libc_write 1 (Some (cstr s)) (of_nat (length (cstr s))) u))"

definition print_nl :: "'a ustate_scheme \<Rightarrow> 'a ustate_scheme option" where
  "print_nl u = map_option snd (libc_write 1 (Some [CHR 0x0A]) 1 u)"

definition print_flush :: "'a ustate_scheme \<Rightarrow> 'a ustate_scheme" where
  "print_flush u = u"

text \<open>
  \<^verbatim>\<open>print_number\<close>. The array \<^verbatim>\<open>buf\<close> has \<open>sz\<close> elements; it is the list of its stored elements,
  so \<^verbatim>\<open>count\<close> is the length, and a store at \<open>sz\<close> is out of range.
\<close>

fun number_digits :: "nat \<Rightarrow> u32 \<Rightarrow> char list \<Rightarrow> char list" where
  "number_digits 0 val buf = buf"
| "number_digits (Suc n) val buf =
     (if val = 0 then buf
      else (let (d, q) = div10 val in number_digits n q (buf @ [char_of (unat d + 48)])))"

fun print_backwards :: "char list \<Rightarrow> 'a ustate_scheme \<Rightarrow> 'a ustate_scheme option" where
  "print_backwards [] u = Some u"
| "print_backwards (c # cs) u = do { u1 \<leftarrow> print_char c u; print_backwards cs u1 }"

definition number_buf :: "u32 \<Rightarrow> nat \<Rightarrow> char list option" where
  "number_buf val sz =
     (let buf = number_digits (min 10 sz) val [] in
      if buf = [] then
        (if sz = 0 then None else Some (CHR ''0'' # replicate (sz - 1) CHR '' ''))
      else Some (buf @ replicate (sz - length buf) CHR '' ''))"

definition print_number :: "u32 \<Rightarrow> u8 \<Rightarrow> 'a ustate_scheme \<Rightarrow> 'a ustate_scheme option" where
  "print_number val sz u = do { buf \<leftarrow> number_buf val (unat sz); print_backwards (rev buf) u }"

definition print_stderr_char :: "char \<Rightarrow> 'a ustate_scheme \<Rightarrow> 'a ustate_scheme option" where
  "print_stderr_char c u = map_option snd (libc_write 2 (Some [c]) 1 u)"

definition print_stderr_string :: "char list option \<Rightarrow> 'a ustate_scheme \<Rightarrow> 'a ustate_scheme option" where
  "print_stderr_string str u =
     (case str of
        None \<Rightarrow> Some u
      | Some s \<Rightarrow> map_option snd (libc_write 2 (Some (cstr s)) (of_nat (length (cstr s))) u))"

definition print_stderr_nl :: "'a ustate_scheme \<Rightarrow> 'a ustate_scheme option" where
  "print_stderr_nl u = map_option snd (libc_write 2 (Some [CHR 0x0A]) 1 u)"

definition print_error :: "char list option \<Rightarrow> 'a ustate_scheme \<Rightarrow> 'a ustate_scheme option" where
  "print_error pathname u =
     do { u1 \<leftarrow> (case pathname of
                  None \<Rightarrow> Some u
                | Some p \<Rightarrow> do { v \<leftarrow> print_stderr_string (Some p) u; print_stderr_string (Some '': '') v });
          (msg, u2) \<leftarrow> libc_strerror (sint (errno u1)) u1;
          u3 \<leftarrow> print_stderr_string (Some msg) u2;
          print_stderr_nl u3 }"

section \<open>Correctness of the division\<close>

text \<open>The working register as a number, and a round on numbers.\<close>

fun work_val :: "u8 \<times> u8 \<times> u8 \<times> u8 \<times> u8 \<Rightarrow> nat \<times> nat" where
  "work_val (r4, r5, r6, r7, a) =
     (unat r4 + 256 * unat r5 + 65536 * unat r6 + 16777216 * unat r7, unat a)"

definition div10_step :: "nat \<times> nat \<Rightarrow> nat \<times> nat" where
  "div10_step ra =
     (let x = 2 * (snd ra * 4294967296 + fst ra); h = x div 4294967296 in
      (x mod 4294967296 + h div 10, h mod 10))"

lemma div10_round_val:
  assumes "snd (work_val w) < 10"
  shows "work_val (div10_round w) = div10_step (work_val w)"
proof -
  obtain r4 r5 r6 r7 a where w: "w = (r4, r5, r6, r7, a)" by (cases w)
  obtain s4 c4 where e4: "asl r4 = (s4, c4)" by (cases "asl r4")
  obtain s5 c5 where e5: "rol r5 c4 = (s5, c5)" by (cases "rol r5 c4")
  obtain s6 c6 where e6: "rol r6 c5 = (s6, c6)" by (cases "rol r6 c5")
  obtain s7 c7 where e7: "rol r7 c6 = (s7, c7)" by (cases "rol r7 c6")
  obtain b cb where ea: "rol a c7 = (b, cb)" by (cases "rol a c7")
  note eqs = rol_carry [OF e4 [unfolded asl_def]] rol_carry [OF e5] rol_carry [OF e6] rol_carry [OF e7]
  have a: "unat a < 10" using assms w by simp
  have b: "unat b = 2 * unat a + of_bool c7"
    using rol_carry [OF ea] a by (cases cb; cases c7) simp_all
  have "even (unat s4 + 256 * of_bool c4)" using eqs(1) by simp
  then have s4: "even (unat s4)" by simp
  let ?v = "unat r4 + 256 * unat r5 + 65536 * unat r6 + 16777216 * unat r7"
  let ?v' = "unat s4 + 256 * unat s5 + 65536 * unat s6 + 16777216 * unat s7"
  have v: "?v' + 4294967296 * of_bool c7 = 2 * ?v" using eqs by simp
  have xx: "2 * (unat a * 4294967296 + ?v) = ?v' + 4294967296 * unat b" using v b by simp
  have "?v' < 4294967296"
    using u8_bound [of s4] u8_bound [of s5] u8_bound [of s6] u8_bound [of s7] by linarith
  then have x: "2 * (unat a * 4294967296 + ?v) div 4294967296 = unat b"
    "2 * (unat a * 4294967296 + ?v) mod 4294967296 = ?v'"
    unfolding xx by simp_all
  have "\<not> b < 10 \<Longrightarrow> unat (b - 10) = unat b - 10"
    by (simp add: word_less_nat_alt unat_sub word_le_nat_alt)
  moreover have "unat (s4 + 1) = unat s4 + 1"
  proof -
    have "unat s4 \<noteq> 255" using s4 by auto
    then show ?thesis using u8_bound [of s4] by (simp add: unat_word_ariths)
  qed
  moreover have "unat b div 10 = of_bool (10 \<le> unat b)" "10 \<le> unat b \<Longrightarrow> unat b mod 10 = unat b - 10"
    using a b by (auto simp: div_nat_eqI mod_nat_eqI)
  ultimately show ?thesis
    using x by (auto simp: w e4 e5 e6 e7 ea div10_step_def Let_def sbc_def word_less_nat_alt)
qed

text \<open>
  After \<open>i\<close> rounds the accumulator is the remainder of the first \<open>i\<close> bits of the number, and the
  register holds the bits that are left above the quotient of the first \<open>i\<close>.
\<close>

definition div10_inv :: "nat \<Rightarrow> nat \<Rightarrow> nat \<times> nat \<Rightarrow> bool" where
  "div10_inv v i ra \<longleftrightarrow>
     (\<exists>q rest. v = (10 * q + snd ra) * 2 ^ (32 - i) + rest \<and> rest < 2 ^ (32 - i) \<and>
        fst ra = rest * 2 ^ i + q \<and> snd ra < 10)"

lemma div10_step_inv:
  assumes inv: "div10_inv v i (r, a)" and i: "i < 32" and v: "v < 42949672960"
  shows "div10_inv v (Suc i) (div10_step (r, a))"
proof -
  from inv obtain q rest where eq: "v = (10 * q + a) * 2 ^ (32 - i) + rest" "rest < 2 ^ (32 - i)"
    "r = rest * 2 ^ i + q" "a < 10" by (auto simp: div10_inv_def)
  define N P :: nat where "N = 2 ^ (31 - i)" and "P = 2 ^ i"
  have pow: "2 ^ (32 - i) = 2 * N" using i by (simp add: N_def Suc_diff_le flip: power_Suc)
  have NP: "N * P * 2 = 4294967296"
    using i by (simp add: N_def P_def flip: power_add)
  define b rest' where "b = rest div N" and "rest' = rest mod N"
  have rest: "rest = b * N + rest'" by (simp add: b_def rest'_def)
  have lt: "rest' < N" by (simp add: rest'_def N_def)
  have "b < 2" using eq(2) by (simp add: b_def pow less_mult_imp_div_less mult.commute)
  have "(10 * q + a) * (2 * N) \<le> v" using eq(1) by (simp add: pow)
  moreover have "P * (2 * N) = 4294967296" using NP by (metis mult.assoc mult.commute)
  ultimately have "(10 * q + a) * (2 * N) < (10 * P) * (2 * N)" using v by linarith
  then have "q < P" by simp
  have "rest' * (2 * P) + 2 * q < N * (2 * P)"
  proof -
    have "rest' * (2 * P) + 2 * q < Suc rest' * (2 * P)" using \<open>q < P\<close> by simp
    also have "\<dots> \<le> N * (2 * P)" using lt by (intro mult_le_mono1) simp
    finally show ?thesis .
  qed
  then have small: "rest' * (2 * P) + 2 * q < 4294967296" using NP by (simp add: ac_simps)
  have "b * N * (2 * P) = 4294967296 * b" using NP by (simp add: ac_simps)
  moreover define h where "h = 2 * a + b"
  ultimately have x: "2 * (a * 4294967296 + r) = (rest' * (2 * P) + 2 * q) + 4294967296 * h"
    by (simp add: eq(3) rest P_def algebra_simps)
  have step: "div10_step (r, a) = (rest' * (2 * P) + (2 * q + h div 10), h mod 10)"
    unfolding div10_step_def fst_conv snd_conv x Let_def using small by simp
  have "10 * (2 * q + h div 10) + h mod 10 = 20 * q + h" by simp
  moreover have "v = (20 * q + h) * N + rest'"
    unfolding eq(1) pow rest h_def by (simp add: algebra_simps)
  ultimately show ?thesis
    unfolding div10_inv_def step using lt i
    by (intro exI [of _ "2 * q + h div 10"] exI [of _ rest']) (simp add: N_def P_def)
qed

lemma div10_rounds:
  assumes "i \<le> 32" and "work_val w = (r, a)" and "r < 4294967296" and "a < 10"
  shows "div10_inv (a * 4294967296 + r) i (work_val ((div10_round ^^ i) w))"
  using assms(1)
proof (induction i)
  case 0
  then show ?case
    unfolding div10_inv_def by (intro exI [of _ 0] exI [of _ r]) (simp add: assms)
next
  case (Suc i)
  let ?w = "(div10_round ^^ i) w"
  have inv: "div10_inv (a * 4294967296 + r) i (work_val ?w)" using Suc by simp
  then have "snd (work_val ?w) < 10" by (auto simp: div10_inv_def)
  then have "work_val ((div10_round ^^ Suc i) w) = div10_step (work_val ?w)"
    by (simp add: div10_round_val)
  then show ?case
    using div10_step_inv [of "a * 4294967296 + r" i "fst (work_val ?w)" "snd (work_val ?w)"] inv
      Suc.prems assms(3,4) by simp
qed

lemma div10_eq:
  assumes "unat (byte val 3) < 10"
  shows "unat (fst (div10 val)) = (unat (byte val 3) * 2 ^ 32 + unat val) mod 10 \<and>
    unat (snd (div10 val)) = (unat (byte val 3) * 2 ^ 32 + unat val) div 10"
proof -
  let ?w = "(byte val 0, byte val 1, byte val 2, byte val 3, byte val 3)"
  let ?v = "unat (byte val 3) * 4294967296 + unat val"
  have wv: "work_val ?w = (unat val, unat (byte val 3))"
    using unat_bytes [of val] by simp
  obtain r4 r5 r6 r7 a where res: "(div10_round ^^ 32) ?w = (r4, r5, r6, r7, a)"
    by (cases "(div10_round ^^ 32) ?w")
  have "unat val < 4294967296" using unsigned_less [of val, where 'a = nat] by simp
  from div10_rounds [OF _ wv this assms, of 32]
  have "div10_inv ?v 32 (work_val (r4, r5, r6, r7, a))" unfolding res by simp
  then have "?v = 10 * unat (join4 r4 r5 r6 r7) + unat a" "unat a < 10"
    by (auto simp: div10_inv_def unat_join4)
  then have "unat (fst (div10 val)) = ?v mod 10" "unat (snd (div10 val)) = ?v div 10"
    unfolding div10_def res by simp_all
  then show ?thesis by simp
qed

end
