(* ===== verification/Stdio.thy ===== *)
theory Stdio
  imports Print
begin

unbundle bit_operations_syntax

text \<open>
  Standard input and output of a user program whose descriptors are open on the terminal: what
  a call of the C library, the system call behind it, the file layer and the console driver do
  together.
\<close>

section \<open>Descriptors on the terminal\<close>

definition tty_fd :: "int \<Rightarrow> kstate \<Rightarrow> bool" where
  "tty_fd fd k \<longleftrightarrow>
     current_proc k \<noteq> 0 \<and> 0 \<le> fd \<and> fd < int CONFIG_PROC_FD_MAX \<and>
     (let p = procs k (current_proc k); f = p_fd p ! nat fd in
      length (p_fd p) = CONFIG_PROC_FD_MAX \<and> file_ok f \<and>
      f_op (global_fd k f) = Some Basic_tty_operations \<and>
      0 < f_count (global_fd k f) \<and> f_count (global_fd k f) < 127)"

text \<open>A process with its first three descriptors on the terminal, for concrete runs.\<close>

definition tty_state :: kstate where
  "tty_state = blank_state\<lparr>
     procs := (\<lambda>_. zero_proc\<lparr>p_fd := [1, 1, 1, 0, 0, 0, 0, 0]\<rparr>), current_proc := 0x1000,
     global_fd := (\<lambda>_. blank_file\<lparr>f_count := 3, f_op := Some Basic_tty_operations\<rparr>)\<rparr>"

definition tty_ustate :: ustate where
  "tty_ustate = blank_ustate\<lparr>kern := tty_state\<rparr>"

lemma tty_fd_tty_state: "fd \<in> {0, 1, 2} \<Longrightarrow> tty_fd fd tty_state"
  by (auto simp: tty_fd_def tty_state_def file_ok_def Let_def)

text \<open>What the terminal shows of a string.\<close>

definition emit :: "char list \<Rightarrow> 'a ustate_scheme \<Rightarrow> 'a ustate_scheme" where
  "emit s u = u\<lparr>kern := (kern u)\<lparr>con_out := con_out (kern u) @ tty_expand (target (kern u)) s\<rparr>\<rparr>"

lemma tty_fd_out [simp]: "tty_fd fd (k\<lparr>con_out := x\<rparr>) = tty_fd fd k"
  by (simp add: tty_fd_def)

lemma tty_fd_emit [simp]: "tty_fd fd (kern (emit s u)) = tty_fd fd (kern u)"
  by (simp add: emit_def)

lemma tty_expand_append: "tty_expand t (a @ b) = tty_expand t a @ tty_expand t b"
  by (simp add: tty_expand_def)

lemma emit_append [simp]: "emit t (emit s u) = emit (s @ t) u"
  by (simp add: emit_def tty_expand_append)

lemma emit_Nil [simp]: "emit [] u = u"
  by (simp add: emit_def)

lemma tty_fdE:
  assumes "tty_fd fd k"
  obtains f where "file_get fd k = Some f" and "f \<noteq> 0" and "file_ok f"
    and "f_op (global_fd k f) = Some Basic_tty_operations"
    and "0 < f_count (global_fd k f)" and "f_count (global_fd k f) < 127"
proof (rule that [of "p_fd (procs k (current_proc k)) ! nat fd"])
  have "0 \<le> fd" "fd < 8" using assms by (simp_all add: tty_fd_def)
  then have "nat fd < 8" by linarith
  then show "file_get fd k = Some (p_fd (procs k (current_proc k)) ! nat fd)"
    using assms by (simp add: tty_fd_def file_get_def cur_def get_proc_def arr_get_def Let_def)
qed (use assms in \<open>simp_all add: tty_fd_def Let_def file_ok_def\<close>)

section \<open>Writing\<close>

lemma basic_tty_write_loop_eq:
  "n \<le> length d \<Longrightarrow> basic_tty_write_loop n d r s =
     (r + of_nat n, s\<lparr>con_out := con_out s @ tty_expand (target s) (take n d)\<rparr>)"
proof (induction n arbitrary: d r s)
  case (Suc n)
  then obtain c d' where d: "d = c # d'" by (cases d) auto
  show ?case using Suc d by (simp add: Let_def chrout_def)
qed simp

lemma sint_of_nat_u16: "n < 32768 \<Longrightarrow> sint (of_nat n :: u16) = int n"
  using sint_sbintrunc' [of "int n", where 'a = 16] by (simp add: signed_take_bit_int_eq_self)

text \<open>A reference taken on an open file and given back leaves the file as it was.\<close>

lemma file_ref_deref:
  assumes "file_ok f" and "0 < f_count (global_fd k f)" and "f_count (global_fd k f) < 127"
    and "global_fd k1 = (global_fd k)(f := (global_fd k f)\<lparr>f_count := f_count (global_fd k f) + 1\<rparr>)"
  shows "file_deref f k1 = Some (0, k1\<lparr>global_fd := global_fd k\<rparr>)"
  using assms by (simp add: file_deref_def get_file_def put_file_def schar_ident)

lemma file_ref_eq:
  assumes "file_ok f" and "0 < f_count (global_fd k f)" and "f_count (global_fd k f) < 127"
  shows "file_ref f k = Some (k\<lparr>global_fd :=
    (global_fd k)(f := (global_fd k f)\<lparr>f_count := f_count (global_fd k f) + 1\<rparr>)\<rparr>)"
  using assms by (simp add: file_ref_def get_file_def put_file_def schar_ident)

lemma sys_write_tty:
  assumes tty: "tty_fd fd k" and len: "length s < 32768"
  shows "sys_write fd (Some s) (of_nat (length s)) k =
    Some (int (length s), k\<lparr>con_out := con_out k @ tty_expand (target k) s\<rparr>)"
proof -
  obtain f where f: "file_get fd k = Some f" "f \<noteq> 0" "file_ok f"
    "f_op (global_fd k f) = Some Basic_tty_operations"
    "0 < f_count (global_fd k f)" "f_count (global_fd k f) < 127"
    using tty_fdE [OF tty] by metis
  let ?v = "(global_fd k f)\<lparr>f_count := f_count (global_fd k f) + 1\<rparr>"
  let ?k1 = "k\<lparr>global_fd := (global_fd k)(f := ?v)\<rparr>"
  let ?n = "of_nat (length s) :: u16"
  have n: "unat ?n = length s" using len by (simp add: unat_of_nat)
  have r: "sint ?n = int (length s)"
    by (rule sint_of_nat_u16) (rule len)
  have w: "basic_tty_write ?v s ?n ?k1 =
    (int (length s), ?k1\<lparr>con_out := con_out k @ tty_expand (target k) s\<rparr>)"
    unfolding basic_tty_write_def n
    using basic_tty_write_loop_eq [of "length s" s 0 ?k1] r by (simp add: n)
  show ?thesis
    unfolding sys_write_def
    using f file_ref_eq [OF f(3,5,6)]
      file_ref_deref [OF f(3,5,6), of "?k1\<lparr>con_out := con_out k @ tty_expand (target k) s\<rparr>"] w
    by (simp add: get_file_def device_write_def)
qed

lemma libc_write_tty:
  assumes "tty_fd fd (kern u)" and "length s < 32768"
  shows "libc_write fd (Some s) (of_nat (length s)) u = Some (int (length s), emit s u)"
  using assms by (simp add: libc_write_def ucall_def sys_write_tty sysret_ok emit_def)

lemma libc_write_tty1: "tty_fd fd (kern u) \<Longrightarrow> libc_write fd (Some [c]) 1 u = Some (1, emit [c] u)"
  using libc_write_tty [of fd u "[c]"] by simp

lemma print_char_tty [simp]: "tty_fd 1 (kern u) \<Longrightarrow> print_char c u = Some (emit [c] u)"
  by (simp add: print_char_def libc_write_tty1)

lemma print_nl_tty [simp]: "tty_fd 1 (kern u) \<Longrightarrow> print_nl u = Some (emit [LF] u)"
  by (simp add: print_nl_def libc_write_tty1)

lemma print_string_tty:
  "tty_fd 1 (kern u) \<Longrightarrow> length s < 32768 \<Longrightarrow> print_string (Some s) u = Some (emit (cstr s) u)"
  using length_takeWhile_le [of "\<lambda>c. c \<noteq> NUL" s]
  by (simp add: print_string_def libc_write_tty cstr_def)

lemma print_stderr_string_tty:
  "tty_fd 2 (kern u) \<Longrightarrow> length s < 32768 \<Longrightarrow> print_stderr_string (Some s) u = Some (emit (cstr s) u)"
  using length_takeWhile_le [of "\<lambda>c. c \<noteq> NUL" s]
  by (simp add: print_stderr_string_def libc_write_tty cstr_def)

lemma print_backwards_tty:
  "tty_fd 1 (kern u) \<Longrightarrow> print_backwards cs u = Some (emit cs u)"
  by (induction cs arbitrary: u) auto

section \<open>Decimal numbers\<close>

text \<open>The decimal digits of a number, most significant first.\<close>

function decimal :: "nat \<Rightarrow> char list" where
  "decimal n = (if n < 10 then [] else decimal (n div 10)) @ [char_of (n mod 10 + 48)]"
  by pat_completeness auto
termination by (relation "measure id") auto

declare decimal.simps [simp del]

lemma length_decimal: "n < 10 ^ Suc k \<Longrightarrow> length (decimal n) \<le> Suc k"
proof (induction k arbitrary: n)
  case 0
  then show ?case by (simp add: decimal.simps)
next
  case (Suc k)
  then have "n div 10 < 10 ^ Suc k" by (simp add: less_mult_imp_div_less mult.commute)
  from Suc.IH [OF this] show ?case by (subst decimal.simps) auto
qed

lemma byte3_small: "unat val < 2 ^ 24 \<Longrightarrow> unat (byte val 3) = 0"
  unfolding unat_byte by simp

lemma div10_small:
  assumes "unat val < 2 ^ 24"
  shows "unat (fst (div10 val)) = unat val mod 10" and "unat (snd (div10 val)) = unat val div 10"
  using div10_eq [of val] byte3_small [OF assms] by simp_all

lemma number_digits_eq:
  assumes "unat val < 2 ^ 24" and "unat val < 10 ^ n" and "val \<noteq> 0"
  shows "number_digits n val buf = buf @ rev (decimal (unat val))"
  using assms
proof (induction n arbitrary: val buf)
  case 0
  then show ?case by (simp add: unat_eq_0)
next
  case (Suc n)
  obtain d q where dq: "div10 val = (d, q)" by (cases "div10 val")
  have d: "unat d = unat val mod 10" and q: "unat q = unat val div 10"
    using div10_small [OF Suc.prems(1)] dq by simp_all
  have dec: "decimal (unat val) =
    (if unat val < 10 then [] else decimal (unat val div 10)) @ [char_of (unat d + 48)]"
    by (subst decimal.simps) (simp add: d)
  show ?case
  proof (cases "q = 0")
    case True
    then have "unat val < 10" using q by (simp add: div_eq_0_iff)
    moreover have "number_digits n 0 b = b" for b by (cases n) auto
    ultimately show ?thesis using dec dq Suc.prems(3) True by simp
  next
    case False
    then have "unat q \<noteq> 0" by (simp add: unat_eq_0)
    then have "\<not> unat val < 10" using q by (simp add: div_eq_0_iff)
    moreover have "unat q < 2 ^ 24" using Suc.prems(1) q by simp
    moreover have "unat q < 10 ^ n" using Suc.prems(2) q by (simp add: less_mult_imp_div_less mult.commute)
    ultimately show ?thesis using Suc.IH [of q "buf @ [char_of (unat d + 48)]"] False dec dq q Suc.prems(3)
      by simp
  qed
qed

text \<open>
  C12. \<^verbatim>\<open>print_number\<close>: a number below $2^{24}$ that has at most \<open>sz\<close> decimal digits is shown on the
  terminal as exactly \<open>sz\<close> characters, its decimal digits behind spaces; nothing else changes.
  The digits come from the assembly division, the output passes through \<^verbatim>\<open>write\<close>, the system call,
  the file table and the console driver. Larger numbers are not covered, as the division is wrong
  for some of them.
\<close>

theorem print_number_decimal:
  assumes "tty_fd 1 (kern u)" and "unat val < 2 ^ 24" and "unat val < 10 ^ unat sz" and "0 < unat sz"
  shows "print_number val sz u =
    Some (emit (replicate (unat sz - length (decimal (unat val))) CHR '' '' @ decimal (unat val)) u) \<and>
    length (decimal (unat val)) \<le> unat sz"
proof -
  let ?n = "unat val" and ?sz = "unat sz"
  have dig: "number_digits (min 10 ?sz) val [] = (if val = 0 then [] else rev (decimal ?n))"
  proof (cases "val = 0")
    case True
    then show ?thesis by (cases "min 10 ?sz") auto
  next
    case False
    have "?n < 10 ^ min 10 ?sz" using assms(2,3) by (auto simp: min_def)
    then show ?thesis using number_digits_eq [OF assms(2) _ False, of "min 10 ?sz" "[]"] False by simp
  qed
  have "decimal ?n \<noteq> []" by (subst decimal.simps) simp
  moreover have "decimal 0 = ''0''" by (subst decimal.simps) code_simp
  ultimately have "number_buf val ?sz =
      Some (rev (replicate (?sz - length (decimal ?n)) CHR '' '' @ decimal ?n))"
    using assms(4) by (auto simp: number_buf_def dig)
  moreover have "length (decimal ?n) \<le> ?sz"
    using length_decimal [of ?n "?sz - 1"] assms(3,4) by simp
  ultimately show ?thesis using assms(1) by (simp add: print_number_def print_backwards_tty)
qed

theorem print_number_decimal_witness:
  "print_number 42 5 tty_ustate = Some (emit ''   42'' tty_ustate)"
proof -
  have w: "unat (42 :: u32) = 42" "unat (5 :: u8) = 5" by simp_all
  have dec: "decimal 42 = ''42''" by (simp add: decimal.simps [of 42] decimal.simps [of 4]) code_simp
  have pad: "replicate (5 - length ''42'') CHR '' '' @ ''42'' = ''   42''"
    by (simp add: eval_nat_numeral)
  have "tty_fd 1 (kern tty_ustate)" by (simp add: tty_ustate_def tty_fd_tty_state)
  then show ?thesis
    using print_number_decimal [of tty_ustate 42 5, unfolded w dec pad] by simp
qed

text \<open>
  C35. \<^verbatim>\<open>div10\<close> clears the accumulator before it loads the value through it, so the loop
  starts with the highest byte of the value above the value. A value of $2^{24}$ or more with a
  highest byte below ten is divided as if $2^{32}$ times that byte had been added: the
  returned digit is wrong, except when the byte is 5.
\<close>

theorem div10_large_wrong:
  assumes "0 < unat (byte val 3)" and "unat (byte val 3) < 10" and "unat (byte val 3) \<noteq> 5"
  shows "unat (fst (div10 val)) = (unat (byte val 3) * 2 ^ 32 + unat val) mod 10 \<and>
    unat (fst (div10 val)) \<noteq> unat val mod 10"
proof -
  let ?t = "unat (byte val 3)"
  have "?t \<in> {1, 2, 3, 4, 6, 7, 8, 9}" using assms by auto
  then have "(?t * 2 ^ 32) mod 10 \<noteq> 0" by auto
  moreover have "(a + b) mod 10 = b mod 10 \<Longrightarrow> a mod 10 = 0" for a b :: nat by presburger
  ultimately show ?thesis using div10_eq [OF assms(2)] by metis
qed

theorem div10_large_wrong_witness: "unat (fst (div10 16777216)) = 2 \<and> unat (16777216 :: u32) mod 10 = 6"
proof -
  have w: "unat (16777216 :: u32) = 16777216" by simp
  then have "unat (byte 16777216 3) = 1" by (simp add: unat_byte)
  show ?thesis using div10_large_wrong [of 16777216] \<open>unat (byte 16777216 3) = 1\<close> by (simp add: w)
qed

end
