(* ===== verification/Shell.thy ===== *)
theory Shell
  imports Stdio
begin

unbundle bit_operations_syntax

text \<open>
  The shell: reading a line, splitting it into arguments and running the built-in commands
  (\<^verbatim>\<open>shell/command.c\<close>, \<^verbatim>\<open>cd.c\<close>, \<^verbatim>\<open>ls.c\<close>, \<^verbatim>\<open>mount.c\<close>, \<^verbatim>\<open>pwd.c\<close>, \<^verbatim>\<open>uname.c\<close>),
  building the root file system (\<^verbatim>\<open>rootfs.c\<close>) and the main program (\<^verbatim>\<open>main.c\<close>).
\<close>

section \<open>State\<close>

record fstab_entry =
  mountpoint :: "char list option"
  device :: "char list option"
  fstype :: "char list option"
  fsoptions :: "char list option"

abbreviation (input) MOUNT_MAX :: nat where "MOUNT_MAX \<equiv> 2"
abbreviation (input) PATH_MAX :: nat where "PATH_MAX \<equiv> 64"

record shstate = ustate +
  temp_path1 :: "char list"
  prev_path :: "char list"
  mounts :: "fstab_entry list"
  mount_count :: nat
  line_buffer :: "char list"
  ls_entry :: "char list"

section \<open>Changing and printing the working directory\<close>

abbreviation (input) HOME_DIR :: "char list" where "HOME_DIR \<equiv> ''/root''"

text \<open>\<^verbatim>\<open>getcwd\<close> into \<^verbatim>\<open>temp_path1\<close>, and whether it succeeded.\<close>

definition getcwd_temp :: "shstate \<Rightarrow> (bool \<times> shstate) option" where
  "getcwd_temp u =
     do { (ok, b, u1) \<leftarrow> libc_getcwd (Some (temp_path1 u)) PATH_MAX u;
          Some (ok, u1\<lparr>temp_path1 := b\<rparr>) }"

definition cmd_chdir :: "int \<Rightarrow> char list option list \<Rightarrow> shstate \<Rightarrow> (int \<times> shstate) option" where
  "cmd_chdir argc argv u =
     (if argc > 2 then
        do { u1 \<leftarrow> print_stderr_string (Some (''cd: too many arguments'' @ [CHR 0x0A])) u; Some (1, u1) }
      else
        do { (ok, u1) \<leftarrow> getcwd_temp u;
             pathname \<leftarrow>
               (if argc = 1 then Some HOME_DIR
                else do { a \<leftarrow> argv_at argv 1; w \<leftarrow> a;
                          Some (if cstr w = ''-'' then prev_path u1 else w) });
             (r, u2) \<leftarrow> libc_chdir (Some pathname) u1;
             if r < 0 then do { u3 \<leftarrow> print_error (Some pathname) u2; Some (1, u3) }
             else Some (0, u2\<lparr>prev_path := temp_path1 u2\<rparr>) })"

definition cmd_pwd :: "int \<Rightarrow> char list option list \<Rightarrow> shstate \<Rightarrow> (int \<times> shstate) option" where
  "cmd_pwd argc argv u =
     do { (ok, u1) \<leftarrow> getcwd_temp u;
          if ok then
            do { u2 \<leftarrow> print_string (Some (temp_path1 u1)) u1; u3 \<leftarrow> print_nl u2; Some (0, u3) }
          else do { u2 \<leftarrow> print_error (Some ''pwd'') u1; Some (1, u2) } }"

section \<open>Mount points\<close>

definition add_fstab ::
  "char list \<Rightarrow> char list \<Rightarrow> char list \<Rightarrow> char list \<Rightarrow> shstate \<Rightarrow> shstate option" where
  "add_fstab mp dev typ opts u =
     (if mount_count u < MOUNT_MAX then
        do { m \<leftarrow> arr_set (mounts u) (mount_count u)
                  \<lparr>mountpoint = Some mp, device = Some dev, fstype = Some typ, fsoptions = Some opts\<rparr>;
             Some (u\<lparr>mounts := m, mount_count := mount_count u + 1\<rparr>) }
      else Some u)"

definition print_mount :: "fstab_entry \<Rightarrow> shstate \<Rightarrow> shstate option" where
  "print_mount e u =
     do { u \<leftarrow> print_string (device e) u;
          u \<leftarrow> print_string (Some '' on '') u;
          u \<leftarrow> print_string (mountpoint e) u;
          u \<leftarrow> print_string (Some '' type '') u;
          u \<leftarrow> print_string (fstype e) u;
          u \<leftarrow> print_string (Some '' ('') u;
          u \<leftarrow> print_string (fsoptions e) u;
          print_string (Some ('')'' @ [CHR 0x0A])) u }"

fun print_mounts :: "nat \<Rightarrow> nat \<Rightarrow> shstate \<Rightarrow> shstate option" where
  "print_mounts 0 idx u = Some u"
| "print_mounts (Suc n) idx u =
     do { e \<leftarrow> arr_get (mounts u) idx; u1 \<leftarrow> print_mount e u; print_mounts n (Suc idx) u1 }"

definition cmd_mount :: "int \<Rightarrow> char list option list \<Rightarrow> shstate \<Rightarrow> (int \<times> shstate) option" where
  "cmd_mount argc argv u = do { u1 \<leftarrow> print_mounts (mount_count u) 0 u; Some (0, u1) }"

section \<open>System name\<close>

abbreviation (input) UNAME_SYSNAME :: u8 where "UNAME_SYSNAME \<equiv> 0x01"
abbreviation (input) UNAME_NODENAME :: u8 where "UNAME_NODENAME \<equiv> 0x02"
abbreviation (input) UNAME_RELEASE :: u8 where "UNAME_RELEASE \<equiv> 0x04"
abbreviation (input) UNAME_VERSION :: u8 where "UNAME_VERSION \<equiv> 0x08"
abbreviation (input) UNAME_MACHINE :: u8 where "UNAME_MACHINE \<equiv> 0x10"
abbreviation (input) UNAME_ALL :: u8 where "UNAME_ALL \<equiv> 0xFF"

definition uname_flag :: "int \<Rightarrow> u8 option" where
  "uname_flag opt =
     (if opt = of_char CHR ''a'' then Some UNAME_ALL
      else if opt = of_char CHR ''s'' then Some UNAME_SYSNAME
      else if opt = of_char CHR ''n'' then Some UNAME_NODENAME
      else if opt = of_char CHR ''r'' then Some UNAME_RELEASE
      else if opt = of_char CHR ''v'' then Some UNAME_VERSION
      else if opt = of_char CHR ''m'' then Some UNAME_MACHINE
      else None)"

text \<open>
  The option loops of \<^verbatim>\<open>uname\<close> and \<^verbatim>\<open>ls\<close>: \<open>flag\<close> is the switch, with \<^const>\<open>None\<close> for the
  default branch, which gives up and returns 1.
\<close>

partial_function (option) options_loop ::
  "(int \<Rightarrow> u8 option) \<Rightarrow> int \<Rightarrow> char list option list \<Rightarrow> char list \<Rightarrow> u8 \<Rightarrow> shstate \<Rightarrow>
   (u8 option \<times> shstate) option" where [code]:
  "options_loop flag argc argv optstring options u =
     do { (opt, u1) \<leftarrow> getopt argc argv optstring u;
          if opt \<ge> 0 then
            (case flag opt of
               Some f \<Rightarrow> options_loop flag argc argv optstring (options OR f) u1
             | None \<Rightarrow> Some (None, u1))
          else Some (Some options, u1) }"

definition print_uname_string ::
  "u8 \<Rightarrow> u8 \<Rightarrow> char list \<Rightarrow> bool \<times> shstate \<Rightarrow> (bool \<times> shstate) option" where
  "print_uname_string options flag str st =
     (case st of (need_space, u) \<Rightarrow>
      if options AND flag = 0 then Some (need_space, u)
      else
        do { u1 \<leftarrow> (if need_space then print_char CHR '' '' u else Some u);
             u2 \<leftarrow> print_string (Some str) u1;
             Some (True, u2) })"

definition cmd_uname :: "int \<Rightarrow> char list option list \<Rightarrow> shstate \<Rightarrow> (int \<times> shstate) option" where
  "cmd_uname argc argv u =
     do { (parsed, u1) \<leftarrow>
            (if argc = 0 then
               Some (Some (UNAME_SYSNAME OR UNAME_RELEASE OR UNAME_VERSION OR UNAME_MACHINE), u)
             else options_loop uname_flag argc argv ''asnrvm'' 0 u);
          case parsed of
            None \<Rightarrow> Some (1, u1)
          | Some opts \<Rightarrow>
              do { let options = (if opts = 0 then UNAME_SYSNAME else opts);
                   let (r, data, u2) = libc_uname True u1;
                   if r < 0 then do { u3 \<leftarrow> print_error (Some ''uname'') u2; Some (1, u3) }
                   else
                     do { uts \<leftarrow> data;
                          st \<leftarrow> print_uname_string options UNAME_SYSNAME (uts_sysname uts) (False, u2);
                          st \<leftarrow> print_uname_string options UNAME_NODENAME (uts_nodename uts) st;
                          st \<leftarrow> print_uname_string options UNAME_RELEASE (uts_release uts) st;
                          st \<leftarrow> print_uname_string options UNAME_VERSION (uts_version uts) st;
                          st \<leftarrow> print_uname_string options UNAME_MACHINE (uts_machine uts) st;
                          u3 \<leftarrow> print_nl (snd st);
                          Some (0, u3) } } }"

section \<open>Listing directories\<close>

abbreviation (input) LS_BRIEF :: u8 where "LS_BRIEF \<equiv> 0x01"
abbreviation (input) LS_LONG :: u8 where "LS_LONG \<equiv> 0x02"
abbreviation (input) LS_HIDDEN :: u8 where "LS_HIDDEN \<equiv> 0x04"
abbreviation (input) LS_CLASSIFY :: u8 where "LS_CLASSIFY \<equiv> 0x08"
abbreviation (input) LS_NAMED :: u8 where "LS_NAMED \<equiv> 0x10"
abbreviation (input) LS_NEXT :: u8 where "LS_NEXT \<equiv> 0x20"

abbreviation (input) DT_CHR :: u8 where "DT_CHR \<equiv> 2"
abbreviation (input) DT_BLK :: u8 where "DT_BLK \<equiv> 6"
abbreviation (input) DT_LNK :: u8 where "DT_LNK \<equiv> 10"

definition ls_flag :: "int \<Rightarrow> u8 option" where
  "ls_flag opt =
     (if opt = of_char CHR ''l'' then Some LS_LONG
      else if opt = of_char CHR ''a'' then Some LS_HIDDEN
      else if opt = of_char CHR ''F'' then Some LS_CLASSIFY
      else None)"

definition mode_types :: "char list" where "mode_types = ''?fc?d?b?-?l?s???''"
definition mode_bits :: "char list" where "mode_bits = ''rwxrwxrwx''"

fun print_mode_bits :: "nat \<Rightarrow> char list \<Rightarrow> mode_t \<Rightarrow> shstate \<Rightarrow> shstate option" where
  "print_mode_bits 0 bitp mode u = Some u"
| "print_mode_bits (Suc n) bitp mode u =
     do { u1 \<leftarrow> print_char (if mode AND push_bit n 1 \<noteq> 0 then cchar bitp else DASH) u;
          print_mode_bits n (tl bitp) mode u1 }"

definition print_mode :: "u8 \<Rightarrow> mode_t \<Rightarrow> shstate \<Rightarrow> shstate option" where
  "print_mode typ mode u =
     do { c \<leftarrow> (if unat typ = length mode_types then Some NUL else arr_get mode_types (unat typ));
          u1 \<leftarrow> print_char c u;
          print_mode_bits 9 mode_bits mode u1 }"

definition major :: "dev_t \<Rightarrow> u8" where "major dev = ucast (drop_bit 8 dev)"
definition minor :: "dev_t \<Rightarrow> u8" where "minor dev = ucast dev"

text \<open>What is printed for one entry.\<close>

definition list_long :: "dirent \<Rightarrow> shstate \<Rightarrow> shstate option" where
  "list_long entry u =
     do { u \<leftarrow> print_mode (de_type entry) (de_mode entry) u;
          u \<leftarrow> (if de_type entry = DT_CHR \<or> de_type entry = DT_BLK then
                  do { let dev = (ucast (de_ino entry) :: dev_t);
                       u \<leftarrow> print_number (ucast (major dev)) 6 u;
                       u \<leftarrow> print_char CHR '','' u;
                       print_number (ucast (minor dev)) 4 u }
                else print_number (de_ino entry) 11 u);
          print_char CHR '' '' u }"

definition list_classify :: "dirent \<Rightarrow> shstate \<Rightarrow> shstate option" where
  "list_classify entry u =
     (if de_type entry = DT_DIR then print_char SLASH u
      else if de_type entry = DT_LNK then print_char CHR ''@'' u
      else if de_type entry = DT_REG \<and> de_mode entry AND (0x0040 OR 0x0008 OR 0x0001) \<noteq> 0 then
        print_char CHR ''*'' u
      else Some u)"

definition list_entry :: "u8 \<Rightarrow> dirent \<Rightarrow> shstate \<Rightarrow> shstate option" where
  "list_entry options entry u =
     do { u \<leftarrow> (if options AND LS_LONG \<noteq> 0 then list_long entry u else Some u);
          u \<leftarrow> print_string (Some (de_name entry)) u;
          u \<leftarrow> (if options AND LS_CLASSIFY \<noteq> 0 then list_classify entry u else Some u);
          print_nl u }"

partial_function (option) list_loop :: "int \<Rightarrow> u8 \<Rightarrow> shstate \<Rightarrow> shstate option" where [code]:
  "list_loop dir options u =
     do { (n, buf, u1) \<leftarrow> libc_read dir (Some (ls_entry u)) (of_nat sizeof_dirent) u;
          let u2 = u1\<lparr>ls_entry := buf\<rparr>;
          if n = int sizeof_dirent then
            (let entry = dirent_at (ls_entry u2) 0 in
             if cchar (de_name entry) = DOT \<and> options AND LS_HIDDEN = 0 then list_loop dir options u2
             else do { u3 \<leftarrow> list_entry options entry u2; list_loop dir options (u3\<lparr>errno := 0\<rparr>) })
          else Some u2 }"

definition list_dir :: "char list \<Rightarrow> u8 \<Rightarrow> shstate \<Rightarrow> (int \<times> shstate) option" where
  "list_dir spec options u =
     do { (dir, u1) \<leftarrow> ucall (sys_opendir (Some spec)) u;
          if dir < 0 then do { u2 \<leftarrow> print_error (Some spec) u1; Some (0, u2) }
          else
            do { u2 \<leftarrow> (if options AND LS_NAMED \<noteq> 0 then
                          do { v \<leftarrow> (if options AND LS_NEXT \<noteq> 0 then print_nl u1 else Some u1);
                               v \<leftarrow> print_string (Some spec) v;
                               print_string (Some [CHR '':'', CHR 0x0A]) v }
                        else Some u1);
                 u3 \<leftarrow> list_loop dir options (u2\<lparr>errno := 0\<rparr>);
                 u4 \<leftarrow> (if errno u3 \<noteq> 0 then print_error (Some spec) u3 else Some u3);
                 (r, u5) \<leftarrow> libc_close dir u4;
                 Some (1, u5) } }"

text \<open>The loop over the directories on the command line; \<open>n\<close> is how many are left.\<close>

fun ls_loop :: "nat \<Rightarrow> char list option list \<Rightarrow> u8 \<Rightarrow> int \<Rightarrow> shstate \<Rightarrow> (int \<times> shstate) option" where
  "ls_loop 0 argv options exitval u = Some (exitval, u)"
| "ls_loop (Suc n) argv options exitval u =
     do { a \<leftarrow> argv_at argv (optind u);
          spec \<leftarrow> a;
          (ok, u1) \<leftarrow> list_dir spec options u;
          ls_loop n argv (options OR LS_NEXT) (if ok = 0 then 1 else exitval)
            (u1\<lparr>optind := optind u1 + 1\<rparr>) }"

definition cmd_ls :: "int \<Rightarrow> char list option list \<Rightarrow> shstate \<Rightarrow> (int \<times> shstate) option" where
  "cmd_ls argc argv u =
     do { (parsed, u1) \<leftarrow> options_loop ls_flag argc argv ''laF'' 0 u;
          case parsed of
            None \<Rightarrow> Some (1, u1)
          | Some opts \<Rightarrow>
              (let options = (if opts AND (LS_BRIEF OR LS_LONG) = 0 then opts OR LS_BRIEF else opts) in
               if optind u1 \<ge> argc then
                 do { (ok, u2) \<leftarrow> list_dir ''.'' options u1; Some (if ok = 0 then 1 else 0, u2) }
               else
                 ls_loop (nat (argc - optind u1)) argv
                   (if optind u1 + 1 < argc then options OR LS_NAMED else options) 0 u1) }"

section \<open>Finding a command\<close>

datatype builtin_handler = Cmd_chdir | Cmd_ls | Cmd_mount | Cmd_pwd | Cmd_uname

definition builtins :: "(char list \<times> builtin_handler) list" where
  "builtins =
     [(''cd'', Cmd_chdir), (''ls'', Cmd_ls), (''mount'', Cmd_mount), (''pwd'', Cmd_pwd),
      (''uname'', Cmd_uname)]"

text \<open>\<^verbatim>\<open>strcmp\<close>: the difference of the first bytes that differ.\<close>

fun strcmp :: "char list \<Rightarrow> char list \<Rightarrow> int" where
  "strcmp [] t = - of_char (cchar t)"
| "strcmp (c # s) t =
     (if c \<noteq> cchar t then of_char c - of_char (cchar t)
      else if c = NUL then 0 else strcmp s (tl t))"

function find_builtin_loop :: "char list \<Rightarrow> int \<Rightarrow> int \<Rightarrow> builtin_handler option option" where
  "find_builtin_loop name left right =
     (if left \<le> right then
        (let middle = (left + right) div 2 in
         if middle < 0 \<or> middle \<ge> int (length builtins) then None
         else
           (let (nm, handler) = builtins ! nat middle; cmp = strcmp name nm in
            if cmp < 0 then find_builtin_loop name left (middle - 1)
            else if cmp > 0 then find_builtin_loop name (middle + 1) right
            else Some (Some handler)))
      else Some None)"
  by pat_completeness auto
termination
  by (relation "measure (\<lambda>(_, l, r). nat (r - l + 1))") auto

declare find_builtin_loop.simps [simp del]

definition cmd_find_builtin :: "char list \<Rightarrow> builtin_handler option option" where
  "cmd_find_builtin name = find_builtin_loop name 0 (int (length builtins))"

section \<open>Splitting a line\<close>

definition cmd_isspace :: "char \<Rightarrow> bool" where
  "cmd_isspace ch \<longleftrightarrow> ch = CHR '' '' \<or> (0x09 \<le> (of_char ch :: int) \<and> (of_char ch :: int) \<le> 0x0D)"

abbreviation (input) QUOTE :: char where "QUOTE \<equiv> CHR 0x27"
abbreviation (input) DQUOTE :: char where "DQUOTE \<equiv> CHR 0x22"
abbreviation (input) BACKSLASH :: char where "BACKSLASH \<equiv> CHR 0x5C"

text \<open>
  The line is parsed in place: \<open>line\<close> and \<open>out\<close> are indices into the array \<open>buf\<close>.
\<close>

partial_function (option) skip_spaces :: "char list \<Rightarrow> nat \<Rightarrow> nat option" where [code]:
  "skip_spaces buf line =
     do { ch \<leftarrow> arr_get buf line;
          if ch \<noteq> NUL \<and> cmd_isspace ch then skip_spaces buf (line + 1) else Some line }"

partial_function (option) extract_arg ::
  "char list \<Rightarrow> nat \<Rightarrow> nat \<Rightarrow> char \<Rightarrow> (char list \<times> nat \<times> nat \<times> char) option" where [code]:
  "extract_arg buf line out quot =
     do { ch \<leftarrow> arr_get buf line;
          if ch = NUL then Some (buf, line, out, quot)
          else if cmd_isspace ch \<and> quot = NUL then Some (buf, line + 1, out, quot)
          else if ch = QUOTE \<or> ch = DQUOTE then
            (if quot = NUL then extract_arg buf (line + 1) out ch
             else if quot = ch then extract_arg buf (line + 1) out NUL
             else do { b \<leftarrow> arr_set buf out ch; extract_arg b (line + 1) (out + 1) quot })
          else if ch = BACKSLASH \<and> quot \<noteq> QUOTE then
            do { c1 \<leftarrow> arr_get buf (line + 1);
                 if c1 = NUL then
                   do { b \<leftarrow> arr_set buf out ch; extract_arg b (line + 1) (out + 1) quot }
                 else
                   do { b \<leftarrow> arr_set buf out c1; extract_arg b (line + 2) (out + 1) quot } }
          else do { b \<leftarrow> arr_set buf out ch; extract_arg b (line + 1) (out + 1) quot } }"

datatype parse_result = Parsed "nat list" | Too_many | Unterminated

partial_function (option) parse_line ::
  "char list \<Rightarrow> nat \<Rightarrow> nat list \<Rightarrow> (parse_result \<times> char list) option" where [code]:
  "parse_line buf line argv =
     do { line1 \<leftarrow> skip_spaces buf line;
          ch \<leftarrow> arr_get buf line1;
          if ch = NUL \<or> ch = CHR ''#'' then Some (Parsed argv, buf)
          else if length argv \<ge> CONFIG_ARGC_MAX then Some (Too_many, buf)
          else
            do { (buf1, line2, out, quot) \<leftarrow> extract_arg buf line1 line1 NUL;
                 if quot \<noteq> NUL then Some (Unterminated, buf1)
                 else do { buf2 \<leftarrow> arr_set buf1 out NUL; parse_line buf2 line2 (argv @ [line1]) } } }"

section \<open>Running a line\<close>

fun run_builtin ::
  "builtin_handler \<Rightarrow> int \<Rightarrow> char list option list \<Rightarrow> shstate \<Rightarrow> (int \<times> shstate) option" where
  "run_builtin Cmd_chdir = cmd_chdir"
| "run_builtin Cmd_ls = cmd_ls"
| "run_builtin Cmd_mount = cmd_mount"
| "run_builtin Cmd_pwd = cmd_pwd"
| "run_builtin Cmd_uname = cmd_uname"

definition cmd_exec :: "shstate \<Rightarrow> shstate option" where
  "cmd_exec u =
     do { (res, buf) \<leftarrow> parse_line (line_buffer u) 0 [];
          let u1 = u\<lparr>line_buffer := buf\<rparr>;
          case res of
            Too_many \<Rightarrow> print_stderr_string (Some (''sh: too many arguments'' @ [CHR 0x0A])) u1
          | Unterminated \<Rightarrow> print_stderr_string (Some (''sh: unterminated quote'' @ [CHR 0x0A])) u1
          | Parsed idx \<Rightarrow>
              if idx = [] then Some u1
              else
                do { let argv = map (\<lambda>i. cstr (drop i buf)) idx;
                     b \<leftarrow> cmd_find_builtin (hd argv);
                     case b of
                       Some h \<Rightarrow>
                         do { (r, u2) \<leftarrow> run_builtin h (int (length argv)) (map Some argv @ [None])
                                         (u1\<lparr>optind := 0\<rparr>);
                              Some u2 }
                     | None \<Rightarrow>
                         do { u2 \<leftarrow> print_stderr_string (Some (hd argv)) u1;
                              print_stderr_string (Some ('': command not found'' @ [CHR 0x0A])) u2 } } }"

section \<open>Reading a line\<close>

text \<open>The loop of \<^verbatim>\<open>get_line\<close>; it may read for ever, so its result is an option of the end.\<close>

partial_function (option) get_line_loop ::
  "char list \<Rightarrow> nat \<Rightarrow> nat \<Rightarrow> shstate \<Rightarrow> (int \<times> char list \<times> shstate) option" where [code]:
  "get_line_loop buf sz posn u =
     do { (ch, u1) \<leftarrow> libc_getchar u;
          if ch < 0 then Some (0, buf, u1)
          else if ch = 13 \<or> ch = 10 then
            do { b \<leftarrow> arr_set buf posn NUL; Some (1, b, u1) }
          else if ch = 8 \<or> ch = 0x7F then get_line_loop buf sz (if posn > 0 then posn - 1 else posn) u1
          else if ch = 0x15 then get_line_loop buf sz 0 u1
          else if ch \<ge> 32 \<and> posn < sz - 1 then
            do { b \<leftarrow> arr_set buf posn (char_of (nat ch)); get_line_loop b sz (posn + 1) u1 }
          else get_line_loop buf sz posn u1 }"

definition get_line :: "shstate \<Rightarrow> (int \<times> shstate) option" where
  "get_line u =
     do { (r, b, u1) \<leftarrow> get_line_loop (line_buffer u) (length (line_buffer u)) 0 u;
          Some (r, u1\<lparr>line_buffer := b\<rparr>) }"

section \<open>The root file system\<close>

text \<open>The calls of \<^verbatim>\<open>make_rootfs\<close>, in order; the first that fails ends it.\<close>

datatype rootfs_call = Mkdir "char list" mode_t | Mknod "char list" mode_t dev_t

fun rootfs_exec :: "rootfs_call \<Rightarrow> shstate \<Rightarrow> (int \<times> shstate) option" where
  "rootfs_exec (Mkdir p m) = libc_mkdir (Some p) m"
| "rootfs_exec (Mknod p m d) = libc_mknod (Some p) m d"

fun rootfs_calls :: "rootfs_call list \<Rightarrow> shstate \<Rightarrow> (int \<times> shstate) option" where
  "rootfs_calls [] u = Some (0, u)"
| "rootfs_calls (c # cs) u =
     do { (r, u1) \<leftarrow> rootfs_exec c u; if r < 0 then Some (- 1, u1) else rootfs_calls cs u1 }"

definition rootfs :: "rootfs_call list" where
  "rootfs =
     [Mkdir ''/bin'' 0x1FD, Mkdir ''/dev'' 0x1FD,
      Mknod ''/dev/console'' 0x21B0 0x0501, Mknod ''/dev/full'' 0x21B0 0x0107,
      Mknod ''/dev/mmcblk0'' 0x61B0 0xB300, Mknod ''/dev/null'' 0x21B0 0x0103,
      Mknod ''/dev/tty'' 0x21B0 0x0500, Mknod ''/dev/tty0'' 0x21B0 0x0400,
      Mknod ''/dev/zero'' 0x21B0 0x0105,
      Mkdir ''/etc'' 0x1FD, Mkdir ''/home'' 0x1FD, Mkdir ''/mnt'' 0x1FD,
      Mkdir ''/mnt/other'' 0x1FD, Mkdir ''/mnt/sd'' 0x1FD, Mkdir ''/root'' 0x1C0,
      Mkdir ''/tmp'' 0x1FD, Mkdir ''/usr'' 0x1FD, Mkdir ''/var'' 0x1FD]"

definition make_rootfs :: "shstate \<Rightarrow> (int \<times> shstate) option" where
  "make_rootfs u = rootfs_calls rootfs u"

section \<open>The main program\<close>

definition shell_mount_sd :: "shstate \<Rightarrow> shstate option" where
  "shell_mount_sd u =
     do { (r, u1) \<leftarrow> libc_mount (Some ''/dev/mmcblk0'') None (Some ''vfat'') 0 u;
          if r = 0 then
            do { u2 \<leftarrow> print_string (Some ''Mounting SD card ... '') u1;
                 let u2 = print_flush u2;
                 (result, u3) \<leftarrow> libc_mount (Some ''/dev/mmcblk0'') (Some ''/mnt/sd'') (Some ''vfat'') 0 u2;
                 u4 \<leftarrow> (if result < 0 then print_error None u3
                       else if result = 1 then print_string (Some (''No card found'' @ [CHR 0x0A])) u3
                       else print_string (Some (''ok'' @ [CHR 0x0A])) u3);
                 if result \<ge> 0 then add_fstab ''/mnt/sd'' ''/dev/mmcblk0'' ''vfat'' ''ro'' u4
                 else Some u4 }
          else Some u1 }"

definition shell_init :: "shstate \<Rightarrow> shstate option" where
  "shell_init u =
     do { (m, u) \<leftarrow> libc_umask 0 u;
          u \<leftarrow> print_string (Some ''Mounting root filesystem ... '') u;
          let u = print_flush u;
          (r, u) \<leftarrow> make_rootfs u;
          u \<leftarrow> (if r < 0 then print_error None u
                else do { u \<leftarrow> add_fstab ''/'' ''ramfs'' ''ramfs'' ''rw'' u;
                          print_string (Some (''ok'' @ [CHR 0x0A])) u });
          u \<leftarrow> shell_mount_sd u;
          (m, u) \<leftarrow> libc_umask 0x12 u;
          let (r, ts, u) = libc_clock_gettime CLOCK_MONOTONIC True u;
          t \<leftarrow> ts;
          u \<leftarrow> print_string (Some ''Boot time ... '') u;
          u \<leftarrow> print_number (if sint (tv_nsec t) \<ge> 500000000 then tv_sec t + 1 else tv_sec t) 2 u;
          print_string (Some (''s'' @ [CHR 0x0A])) u }"

partial_function (option) shell_loop :: "shstate \<Rightarrow> shstate option" where [code]:
  "shell_loop u =
     do { (ok, u) \<leftarrow> getcwd_temp u;
          u \<leftarrow> print_string (Some (temp_path1 u)) u;
          u \<leftarrow> print_string (Some ''# '') u;
          (r, u) \<leftarrow> get_line u;
          if r = 0 then Some u else do { u \<leftarrow> cmd_exec u; shell_loop u } }"

definition shell_main :: "shstate \<Rightarrow> (int \<times> shstate) option" where
  "shell_main u =
     do { u \<leftarrow> print_nl u;
          (r, u) \<leftarrow> cmd_uname 0 [] u;
          u \<leftarrow> print_nl u;
          u \<leftarrow> shell_init u;
          u \<leftarrow> print_nl u;
          u \<leftarrow> shell_loop u;
          u \<leftarrow> print_nl u;
          Some (0, u) }"

end
