(* ===== verification/Shell_Parse.thy ===== *)
theory Shell_Parse
  imports Shell
begin

text \<open>
  The splitting of a command line. The shell splits the line in place, writing each
  argument over the part of the buffer it has read. The specification splits a string into
  words; the code is shown to compute it and never to write over text it still has to read.
\<close>

section \<open>Specification\<close>

text \<open>One word: the word, the rest of the line, and the quote that is still open.\<close>

fun tok :: "char list \<Rightarrow> char \<Rightarrow> char list \<times> char list \<times> char" where
  "tok [] q = ([], [], q)"
| "tok (c # cs) q =
     (if cmd_isspace c \<and> q = NUL then ([], cs, q)
      else if c = QUOTE \<or> c = DQUOTE then
        (if q = NUL then tok cs c
         else if q = c then tok cs NUL
         else (case tok cs q of (w, r, q') \<Rightarrow> (c # w, r, q')))
      else if c = BACKSLASH \<and> q \<noteq> QUOTE then
        (case cs of
           [] \<Rightarrow> ([c], [], q)
         | d # ds \<Rightarrow> (case tok ds q of (w, r, q') \<Rightarrow> (d # w, r, q')))
      else (case tok cs q of (w, r, q') \<Rightarrow> (c # w, r, q')))"

lemma tok_rest: "tok cs q = (w, r, q') \<Longrightarrow> length r \<le> length cs"
proof (induction cs q arbitrary: w r q' rule: tok.induct)
  case (2 c cs q)
  then show ?case by (auto split: if_splits prod.splits list.splits) fastforce+
qed simp

lemma tok_rest_Cons: "tok (c # cs) q = (w, r, q') \<Longrightarrow> length r \<le> length cs"
  by (auto split: if_splits prod.splits list.splits dest!: tok_rest)

lemma split_decr:
  assumes "dropWhile cmd_isspace cs = c # cs1" and "(w, r, q) = tok (c # cs1) NUL"
  shows "length r < length cs"
proof -
  have "length r \<le> length cs1" using tok_rest_Cons assms(2) by metis
  moreover have "length (c # cs1) \<le> length cs"
    using length_dropWhile_le [of cmd_isspace cs] assms(1) by simp
  ultimately show ?thesis by simp
qed

datatype split_result = Words "char list list" | Split_too_many | Split_unterminated

function split_words :: "char list \<Rightarrow> char list list \<Rightarrow> split_result" where
  "split_words cs argv =
     (case dropWhile cmd_isspace cs of
        [] \<Rightarrow> Words argv
      | c # cs1 \<Rightarrow>
          if c = CHR ''#'' then Words argv
          else if length argv \<ge> CONFIG_ARGC_MAX then Split_too_many
          else
            (case tok (c # cs1) NUL of
               (w, r, q) \<Rightarrow> if q \<noteq> NUL then Split_unterminated else split_words r (argv @ [w])))"
  by pat_completeness auto

termination
  by (relation "measure (length \<circ> fst)") (auto simp del: tok.simps intro: split_decr)

declare split_words.simps [simp del]

section \<open>The code computes the specification\<close>

lemma drop_ConsD:
  assumes "drop n xs = y # ys"
  shows "n < length xs" and "xs ! n = y" and "drop (Suc n) xs = ys" and "arr_get xs n = Some y"
proof -
  show n: "n < length xs" using assms by (metis drop_all list.distinct(1) not_le)
  show "xs ! n = y" using assms n by (metis Cons_nth_drop_Suc list.inject)
  then show "arr_get xs n = Some y" using n by (simp add: arr_get_def)
  show "drop (Suc n) xs = ys" using assms n by (metis Cons_nth_drop_Suc list.inject)
qed

lemma skip_spaces_eq:
  assumes "drop line buf = cs @ NUL # junk" and "NUL \<notin> set cs"
  shows "skip_spaces buf line = Some (line + length (takeWhile cmd_isspace cs))"
  using assms
proof (induction cs arbitrary: line)
  case Nil
  then show ?case by (subst skip_spaces.simps) (simp add: drop_ConsD(4))
next
  case (Cons c cs)
  have d: "drop line buf = c # (cs @ NUL # junk)" using Cons.prems by simp
  show ?case
    using Cons.IH [of "Suc line"] drop_ConsD [OF d] Cons.prems
    by (subst skip_spaces.simps) auto
qed

text \<open>What holds when the copying of one argument ends.\<close>

definition arg_post ::
  "char list \<Rightarrow> nat \<Rightarrow> char list \<Rightarrow> char list \<Rightarrow> char list \<Rightarrow> char list \<Rightarrow> nat \<Rightarrow> nat \<Rightarrow> bool" where
  "arg_post buf out w rest junk buf' line' out' \<longleftrightarrow>
     out' = out + length w \<and> take out' buf' = take out buf @ w \<and>
     drop line' buf' = rest @ NUL # junk \<and> length buf' = length buf \<and>
     (out' < line' \<or> out' = line' \<and> rest = [])"

lemma arg_post_Cons:
  assumes "arg_post (buf[out := c]) (Suc out) w rest junk buf' line' out'" and "out < length buf"
  shows "arg_post buf out (c # w) rest junk buf' line' out'"
  using assms by (auto simp: arg_post_def take_Suc_conv_app_nth)

lemma extract_arg_eq:
  assumes "drop line buf = cs @ NUL # junk" and "NUL \<notin> set cs" and "out \<le> line"
    and "tok cs q = (w, rest, q')"
  shows "\<exists>buf' line' out'. extract_arg buf line out q = Some (buf', line', out', q') \<and>
    arg_post buf out w rest junk buf' line' out'"
  using assms
proof (induction cs q arbitrary: buf line out w rest q' rule: tok.induct)
  case (1 q)
  then show ?case
    by (subst extract_arg.simps) (auto simp: drop_ConsD(4) arg_post_def)
next
  case (2 c cs q)
  have d: "drop line buf = c # (cs @ NUL # junk)" using "2.prems"(1) by simp
  note line = drop_ConsD [OF d]
  have NUL: "c \<noteq> NUL" "NUL \<notin> set cs" using "2.prems"(2) by auto
  have out: "out < length buf" using line(1) "2.prems"(3) by simp
  have set: "arr_set buf out x = Some (buf[out := x])" for x using out by (simp add: arr_set_def)
  have keep: "drop (Suc line) (buf[out := x]) = cs @ NUL # junk" for x
    using line(3) "2.prems"(3) by (simp add: drop_update_cancel)
  have step: "arg_post buf out (x # v) rest junk buf' line' out'"
    if "arg_post (buf[out := x]) (Suc out) v rest junk buf' line' out'" for x v buf' line' out'
    using that out by (rule arg_post_Cons)
  consider (space) "cmd_isspace c" "q = NUL"
    | (start) "\<not> (cmd_isspace c \<and> q = NUL)" "c = QUOTE \<or> c = DQUOTE" "q = NUL"
    | (closing) "\<not> (cmd_isspace c \<and> q = NUL)" "c = QUOTE \<or> c = DQUOTE" "q \<noteq> NUL" "q = c"
    | (inner) "\<not> (cmd_isspace c \<and> q = NUL)" "c = QUOTE \<or> c = DQUOTE" "q \<noteq> NUL" "q \<noteq> c"
    | (escape) d ds where "\<not> (cmd_isspace c \<and> q = NUL)" "c = BACKSLASH" "q \<noteq> QUOTE" "cs = d # ds"
    | (final) "\<not> (cmd_isspace c \<and> q = NUL)" "c = BACKSLASH" "q \<noteq> QUOTE" "cs = []"
    | (plain) "\<not> (cmd_isspace c \<and> q = NUL)" "\<not> (c = QUOTE \<or> c = DQUOTE)"
        "\<not> (c = BACKSLASH \<and> q \<noteq> QUOTE)"
    by (metis list.exhaust)
  then show ?case
  proof cases
    case space
    then show ?thesis
      using "2.prems" line NUL by (subst extract_arg.simps) (auto simp: arg_post_def)
  next
    case start
    then have "extract_arg buf line out q = extract_arg buf (Suc line) out c"
      using line(4) NUL by (subst extract_arg.simps) auto
    then show ?thesis
      using "2.IH"(1) [OF start line(3) NUL(2), of out w rest q'] "2.prems" start by auto
  next
    case closing
    then have "extract_arg buf line out q = extract_arg buf (Suc line) out NUL"
      using line(4) NUL by (subst extract_arg.simps) auto
    then show ?thesis
      using "2.IH"(2) [OF closing line(3) NUL(2), of out w rest q'] "2.prems" closing by auto
  next
    case inner
    then have ex: "extract_arg buf line out q = extract_arg (buf[out := c]) (Suc line) (Suc out) q"
      using line(4) NUL set by (subst extract_arg.simps) auto
    from inner "2.prems"(4) obtain v where v: "tok cs q = (v, rest, q')" "w = c # v"
      by (auto split: prod.splits)
    from "2.IH"(3) [OF inner keep NUL(2) _ v(1), of "Suc out"] "2.prems"(3) show ?thesis
      unfolding ex v(2) using step by fastforce
  next
    case escape
    have d2: "drop (Suc line) buf = d # (ds @ NUL # junk)" using line(3) escape by simp
    have ex: "extract_arg buf line out q = extract_arg (buf[out := d]) (Suc (Suc line)) (Suc out) q"
      using line(4) NUL set escape drop_ConsD(4) [OF d2] by (subst extract_arg.simps) auto
    from escape "2.prems"(4) obtain v where v: "tok ds q = (v, rest, q')" "w = d # v"
      by (auto split: prod.splits)
    have "drop (Suc (Suc line)) (buf[out := d]) = ds @ NUL # junk"
      using drop_ConsD(3) [OF d2] "2.prems"(3) by (simp add: drop_update_cancel)
    from "2.IH"(4) [OF escape(1) _ _ escape(4) this _ _ v(1), of "Suc out"] escape "2.prems"(3) NUL
    show ?thesis unfolding ex v(2) using step by fastforce
  next
    case final
    have d2: "drop (Suc line) buf = NUL # junk" using line(3) final by simp
    have "extract_arg buf line out q = extract_arg (buf[out := c]) (Suc line) (Suc out) q"
      using line(4) NUL set final drop_ConsD(4) [OF d2] by (subst extract_arg.simps) auto
    also have "\<dots> = Some (buf[out := c], Suc line, Suc out, q)"
      using drop_ConsD(4) [of "Suc line" "buf[out := c]" NUL junk] keep [of c] final
      by (subst extract_arg.simps) auto
    finally show ?thesis
      using final "2.prems"(3,4) out keep [of c] by (auto simp: arg_post_def take_Suc_conv_app_nth)
  next
    case plain
    then have ex: "extract_arg buf line out q = extract_arg (buf[out := c]) (Suc line) (Suc out) q"
      using line(4) NUL set by (subst extract_arg.simps) auto
    from plain "2.prems"(4) obtain v where v: "tok cs q = (v, rest, q')" "w = c # v"
      by (auto split: prod.splits)
    from "2.IH"(5) [OF plain keep NUL(2) _ v(1), of "Suc out"] "2.prems"(3) show ?thesis
      unfolding ex v(2) using step by fastforce
  qed
qed

text \<open>The words at the start of the buffer that later stores cannot reach.\<close>

lemma cstr_drop_stable:
  assumes "take n b = take n a" and "NUL \<in> set (drop i (take n a))"
  shows "cstr (drop i b) = cstr (drop i a)"
proof -
  have pre: "cstr (xs @ ys) = cstr xs" if "NUL \<in> set xs" for xs ys
    using that by (induction xs) (auto simp: cstr_simps)
  have "i \<le> n" using assms(2) by (cases "i \<le> n") auto
  have split: "drop i x = drop i (take n x) @ drop n x" for x :: "char list"
  proof -
    have "drop i (take n x @ drop n x) = drop i (take n x) @ drop (i - min (length x) n) (drop n x)"
      by (simp only: drop_append length_take)
    also have "drop (i - min (length x) n) (drop n x) = drop n x"
      using \<open>i \<le> n\<close> by (cases "n \<le> length x") simp_all
    finally show ?thesis by (simp only: append_take_drop_id)
  qed
  have "cstr (drop i b) = cstr (drop i (take n b))"
    unfolding split [of b] by (rule pre) (simp only: assms)
  also have "\<dots> = cstr (drop i a)"
    unfolding split [of a] assms(1) by (rule pre [symmetric]) (rule assms(2))
  finally show ?thesis .
qed

lemma tok_set: "tok cs q = (w, r, q') \<Longrightarrow> set w \<subseteq> set cs \<and> set r \<subseteq> set cs"
proof (induction cs arbitrary: q w r q' rule: length_induct)
  case (1 cs)
  show ?case
  proof (cases cs)
    case Nil
    then show ?thesis using "1.prems" by simp
  next
    case (Cons c ds)
    have IH: "set v \<subseteq> set ds \<and> set s \<subseteq> set ds" if "tok ds p = (v, s, p')" for p v s p'
      using "1.IH" [rule_format, of ds p v s p'] Cons that by simp
    have IH2: "set v \<subseteq> set es \<and> set s \<subseteq> set es" if "ds = e # es" "tok es p = (v, s, p')" for e es p v s p'
      using "1.IH" [rule_format, of es p v s p'] Cons that by simp
    obtain v s p' where t: "tok ds q = (v, s, p')" by (metis prod_cases3)
    note eq = "1.prems" [unfolded Cons tok.simps t]
    consider (space) "cmd_isspace c \<and> q = NUL"
      | (quoted) "\<not> (cmd_isspace c \<and> q = NUL)" "c = QUOTE \<or> c = DQUOTE"
      | (escape) "\<not> (cmd_isspace c \<and> q = NUL)" "\<not> (c = QUOTE \<or> c = DQUOTE)" "c = BACKSLASH \<and> q \<noteq> QUOTE"
      | (plain) "\<not> (cmd_isspace c \<and> q = NUL)" "\<not> (c = QUOTE \<or> c = DQUOTE)" "\<not> (c = BACKSLASH \<and> q \<noteq> QUOTE)"
      by argo
    then show ?thesis
    proof cases
      case space
      then show ?thesis using eq Cons by auto
    next
      case quoted
      then have "tok ds c = (w, r, q') \<or> tok ds NUL = (w, r, q') \<or> w = c # v \<and> r = s"
        using eq by (simp only: if_True if_False split: if_splits) auto
      then show ?thesis using IH [of c w r q'] IH [of NUL w r q'] IH [OF t] Cons by auto
    next
      case escape
      show ?thesis
      proof (cases ds)
        case Nil
        then show ?thesis using eq escape Cons by auto
      next
        case (Cons e es)
        obtain v2 s2 p2 where t2: "tok es q = (v2, s2, p2)" by (metis prod_cases3)
        then have "w = e # v2" "r = s2" using eq escape Cons by auto
        then show ?thesis using IH2 [OF Cons t2] Cons \<open>cs = c # ds\<close> by auto
      qed
    next
      case plain
      then have "w = c # v" "r = s" using eq by auto
      then show ?thesis using IH [OF t] Cons by auto
    qed
  qed
qed

lemma tok_no_NUL: "tok cs q = (w, r, q') \<Longrightarrow> NUL \<notin> set cs \<Longrightarrow> NUL \<notin> set w \<and> NUL \<notin> set r"
  using tok_set by blast

lemma set_drop_take_mono: "m \<le> n \<Longrightarrow> set (drop i (take m xs)) \<subseteq> set (drop i (take n xs))"
  by (simp add: drop_take set_take_subset_set_take)

text \<open>The state after one argument, with its terminator stored.\<close>

lemma arg_stored:
  assumes post: "arg_post buf line1 w rest junk buf1 line2 out" and w: "NUL \<notin> set w"
    and line1: "line1 \<le> length buf"
    and old: "\<forall>i \<in> set idx. NUL \<in> set (drop i (take line1 buf))"
  shows "\<exists>buf2. arr_set buf1 out NUL = Some buf2 \<and> length buf2 = length buf \<and>
    drop line2 buf2 = rest @ NUL # junk \<and>
    map (\<lambda>i. cstr (drop i buf2)) (idx @ [line1]) = map (\<lambda>i. cstr (drop i buf)) idx @ [w] \<and>
    (rest = [] \<or> (\<forall>i \<in> set (idx @ [line1]). NUL \<in> set (drop i (take line2 buf2))))"
proof -
  let ?b = "buf1[out := NUL]"
  note p = post [unfolded arg_post_def]
  have line2: "line2 < length buf1" using p by (metis drop_all list.distinct(1) Nil_is_append_conv not_le)
  then have out: "out < length buf1" using p by linarith
  have rest: "drop line2 ?b = rest @ NUL # junk"
  proof (cases "out < line2")
    case True
    then show ?thesis using p by (simp add: drop_update_cancel)
  next
    case False
    then have eq: "out = line2" "rest = []" using p by auto
    then have "buf1 ! out = NUL" using p drop_ConsD(2) [of line2 buf1 NUL junk] by simp
    then show ?thesis using p eq by (metis list_update_id)
  qed
  have pre: "take line1 ?b = take line1 buf"
  proof -
    have "line1 \<le> out" using p by simp
    then have "take line1 ?b = take line1 (take out buf1)" by (simp add: take_update_cancel min_def)
    also have "take out buf1 = take line1 buf @ w" using p by blast
    also have "take line1 (take line1 buf @ w) = take line1 buf" using line1 by simp
    finally show ?thesis .
  qed
  have word: "drop line1 (take (Suc out) ?b) = w @ [NUL]"
  proof -
    have "take (Suc out) ?b = take out buf1 @ [NUL]"
      using out by (simp add: take_Suc_conv_app_nth)
    also have "take out buf1 = take line1 buf @ w" using p by blast
    finally show ?thesis using line1 by simp
  qed
  then have "drop line1 ?b = w @ NUL # drop (Suc out) ?b"
  proof -
    have "drop line1 (take (Suc out) ?b @ drop (Suc out) ?b) = w @ [NUL] @ drop (Suc out) ?b"
      using word p out by (simp only: drop_append) simp
    then show ?thesis by (simp only: append_take_drop_id) simp
  qed
  then have new: "cstr (drop line1 ?b) = w" by (simp only: cstr_append_NUL [OF w])
  have stable: "cstr (drop i ?b) = cstr (drop i buf)" if "i \<in> set idx" for i
    using cstr_drop_stable [OF pre] old that by blast
  have "NUL \<in> set (drop i (take line2 ?b))" if "rest \<noteq> []" "i \<in> set idx \<or> i = line1" for i
  proof -
    have "Suc out \<le> line2" using p that(1) by auto
    then have "set (drop i (take (Suc out) ?b)) \<subseteq> set (drop i (take line2 ?b))"
      by (rule set_drop_take_mono)
    moreover have "set (drop i (take line1 ?b)) \<subseteq> set (drop i (take (Suc out) ?b))"
      using p by (intro set_drop_take_mono) simp
    moreover have "NUL \<in> set (drop line1 (take (Suc out) ?b))" unfolding word by simp
    ultimately show ?thesis using that(2) old pre by auto
  qed
  then show ?thesis using out p rest new stable by (auto simp: arr_set_def)
qed

lemma drop_spaces:
  assumes "drop line buf = cs @ NUL # junk"
  shows "drop (line + length (takeWhile P cs)) buf = dropWhile P cs @ NUL # junk"
proof -
  have "drop (length (takeWhile P cs)) cs = dropWhile P cs" by (simp add: dropWhile_eq_drop)
  moreover have "length (takeWhile P cs) \<le> length cs" by (rule length_takeWhile_le)
  ultimately have "drop (length (takeWhile P cs)) (drop line buf) = dropWhile P cs @ NUL # junk"
    unfolding assms by simp
  then show ?thesis by (simp add: add.commute)
qed

definition split_matches :: "split_result \<Rightarrow> parse_result \<Rightarrow> char list \<Rightarrow> bool" where
  "split_matches sp res buf \<longleftrightarrow>
     (case sp of
        Words ws \<Rightarrow> (\<exists>idx. res = Parsed idx \<and> map (\<lambda>i. cstr (drop i buf)) idx = ws)
      | Split_too_many \<Rightarrow> res = Too_many
      | Split_unterminated \<Rightarrow> res = Unterminated)"

lemma parse_line_eq:
  assumes "drop line buf = cs @ NUL # junk" and "NUL \<notin> set cs"
    and "map (\<lambda>i. cstr (drop i buf)) idx = argv"
    and "cs = [] \<or> (\<forall>i \<in> set idx. NUL \<in> set (drop i (take line buf)))"
  shows "\<exists>res buf'. parse_line buf line idx = Some (res, buf') \<and> length buf' = length buf \<and>
    split_matches (split_words cs argv) res buf'"
  using assms
proof (induction cs argv arbitrary: buf line idx rule: split_words.induct)
  case (1 cs argv)
  let ?cs1 = "dropWhile cmd_isspace cs" and ?line1 = "line + length (takeWhile cmd_isspace cs)"
  have skip: "skip_spaces buf line = Some ?line1" using "1.prems"(1,2) by (rule skip_spaces_eq)
  have d1: "drop ?line1 buf = ?cs1 @ NUL # junk" using "1.prems"(1) by (rule drop_spaces)
  have len: "length argv = length idx" using "1.prems"(3) by auto
  show ?case
  proof (cases ?cs1)
    case Nil
    then have "arr_get buf ?line1 = Some NUL" using d1 drop_ConsD(4) [of ?line1 buf NUL junk] by simp
    moreover have "split_words cs argv = Words argv" by (subst split_words.simps) (simp only: Nil list.case)
    ultimately show ?thesis
      using skip "1.prems"(3) by (subst parse_line.simps) (simp add: split_matches_def)
  next
    case (Cons c cs1)
    have c: "arr_get buf ?line1 = Some c" using drop_ConsD(4) [of ?line1 buf c] d1 Cons by simp
    have "set ?cs1 \<subseteq> set cs" by (rule set_dropWhileD [THEN subsetI])
    then have NUL1: "NUL \<notin> set (c # cs1)" "c \<noteq> NUL" using "1.prems"(2) Cons by auto
    obtain w rest q where t: "tok (c # cs1) NUL = (w, rest, q)" by (metis prod_cases3)
    note sw = split_words.simps [of cs argv, unfolded Cons list.case t prod.case]
    consider (comment) "c = CHR ''#''" | (many) "c \<noteq> CHR ''#''" "CONFIG_ARGC_MAX \<le> length argv"
      | (word) "c \<noteq> CHR ''#''" "\<not> CONFIG_ARGC_MAX \<le> length argv" by blast
    then show ?thesis
    proof cases
      case comment
      then show ?thesis unfolding sw using skip c "1.prems"(3)
        by (subst parse_line.simps) (simp add: split_matches_def)
    next
      case many
      then show ?thesis unfolding sw using skip c NUL1 len
        by (subst parse_line.simps) (simp add: split_matches_def)
    next
      case word
      obtain buf1 line2 out where ex: "extract_arg buf ?line1 ?line1 NUL = Some (buf1, line2, out, q)"
        and post: "arg_post buf ?line1 w rest junk buf1 line2 out"
        using extract_arg_eq [of ?line1 buf ?cs1 junk ?line1 NUL w rest q] d1 NUL1 t Cons by auto
      have pl: "parse_line buf line idx = (if q \<noteq> NUL then Some (Unterminated, buf1)
          else do { buf2 \<leftarrow> arr_set buf1 out NUL; parse_line buf2 line2 (idx @ [?line1]) })"
        using skip c NUL1 len word ex by (subst parse_line.simps) simp
      show ?thesis
      proof (cases "q = NUL")
        case False
        then show ?thesis unfolding sw pl using word post by (simp add: split_matches_def arg_post_def)
      next
        case True
        have ne: "cs \<noteq> []" using Cons by auto
        have old: "\<forall>i \<in> set idx. NUL \<in> set (drop i (take ?line1 buf))"
          using "1.prems"(4) ne set_drop_take_mono [of line ?line1] by fastforce
        have "?line1 \<le> length buf" using c by (simp add: arr_get_def split: if_splits)
        from arg_stored [OF post _ this old] tok_no_NUL [OF t] NUL1 obtain buf2 where
          b2: "arr_set buf1 out NUL = Some buf2" "length buf2 = length buf"
            "drop line2 buf2 = rest @ NUL # junk"
            "map (\<lambda>i. cstr (drop i buf2)) (idx @ [?line1]) = argv @ [w]"
            "rest = [] \<or> (\<forall>i \<in> set (idx @ [?line1]). NUL \<in> set (drop i (take line2 buf2)))"
          using "1.prems"(3) by auto
        have "NUL \<notin> set rest" using tok_no_NUL [OF t] NUL1 by simp
        from "1.IH" [OF Cons word t [symmetric] refl _ b2(3) this b2(4,5)] True
        show ?thesis unfolding sw pl using word True b2(1,2) by simp
      qed
    qed
  qed
qed

text \<open>
  C13. Splitting a command line. For every line in the buffer the parsing loop of \<^verbatim>\<open>cmd_exec\<close> ends,
  reads and writes only inside the buffer, and gives what the specification \<^const>\<open>split_words\<close>
  gives for the text of the line: the words, unquoted and unescaped, as the NUL-terminated
  strings at the stored pointers, or the report of too many arguments or of an open quote.
  In particular no argument is written over text that is still to be read or over an earlier
  argument.
\<close>

theorem cmd_exec_splits:
  assumes "NUL \<in> set buf"
  shows "\<exists>res buf'. parse_line buf 0 [] = Some (res, buf') \<and> length buf' = length buf \<and>
    split_matches (split_words (cstr buf) []) res buf'"
proof -
  obtain a b where buf: "buf = a @ NUL # b" "NUL \<notin> set a" using split_list_first [OF assms] by blast
  then have "drop 0 buf = cstr buf @ NUL # b" by (simp add: cstr_append_NUL)
  from parse_line_eq [OF this, of "[]" "[]"] show ?thesis by simp
qed

theorem cmd_exec_splits_witness:
  "\<exists>res buf'. parse_line (''cd  '' @ [QUOTE] @ ''a b'' @ [QUOTE, NUL]) 0 [] = Some (res, buf') \<and>
     split_matches (Words [''cd'', ''a b'']) res buf'"
proof -
  let ?b = "''cd  '' @ [QUOTE] @ ''a b'' @ [QUOTE, NUL]"
  have "split_words (cstr ?b) [] = Words [''cd'', ''a b'']" by code_simp
  moreover have "NUL \<in> set ?b" by simp
  ultimately show ?thesis using cmd_exec_splits [of ?b] by auto
qed

section \<open>The search for a command\<close>

lemma of_char_nonneg [simp]: "0 \<le> (of_char c :: int)"
  using of_nat_of_char [of c, where 'a = int] by (metis of_nat_0_le_iff)

lemma of_char_pos: "c \<noteq> NUL \<Longrightarrow> 0 < (of_char c :: int)"
proof -
  assume "c \<noteq> NUL"
  then have "(of_char c :: int) \<noteq> of_char NUL" by (simp only: of_char_eq_iff not_False_eq_True)
  then have "(of_char c :: int) \<noteq> 0" by simp
  then show ?thesis using of_char_nonneg [of c] by linarith
qed

lemma of_char_eq_0: "(of_char c :: int) = 0 \<longleftrightarrow> c = NUL"
  using of_char_pos [of c] by (cases "c = NUL") simp_all

lemma strcmp_trans: "0 < strcmp s t \<Longrightarrow> 0 < strcmp t u \<Longrightarrow> 0 < strcmp s u"
proof (induction s arbitrary: t u)
  case Nil
  have "\<not> 0 < strcmp [] t" by (simp add: not_less)
  then show ?case using Nil by blast
next
  case (Cons c s)
  obtain d t' where t: "t = d # t'"
  proof (cases t)
    case Nil
    have "\<not> 0 < strcmp [] u" by (simp add: not_less)
    then show ?thesis using Cons.prems(2) Nil by blast
  qed
  have du: "d \<noteq> cchar u \<and> (of_char (cchar u) :: int) < of_char d \<or>
      d = cchar u \<and> d \<noteq> NUL \<and> 0 < strcmp t' (tl u)"
    using Cons.prems(2) by (simp add: t split: if_splits)
  show ?case
  proof (cases "c = d")
    case True
    then have "c \<noteq> NUL" "0 < strcmp s t'" using Cons.prems(1) by (simp_all add: t split: if_splits)
    then show ?thesis using du True Cons.IH [of t' "tl u"] by auto
  next
    case False
    then have "(of_char d :: int) < of_char c" using Cons.prems(1) by (simp add: t)
    moreover have "(of_char (cchar u) :: int) \<le> of_char d" using du by auto
    ultimately have "(of_char (cchar u) :: int) < of_char c" by linarith
    moreover from this have "c \<noteq> cchar u" by auto
    ultimately show ?thesis by simp
  qed
qed

lemma strcmp_eq_0: "NUL \<notin> set t \<Longrightarrow> strcmp s t = 0 \<longleftrightarrow> cstr s = t"
proof (induction s arbitrary: t)
  case Nil
  show ?case
  proof (cases t)
    case (Cons d t')
    then have "0 < (of_char d :: int)" using Nil of_char_pos [of d] by auto
    then show ?thesis using Cons by (simp add: cstr_simps)
  qed (simp add: cstr_simps)
next
  case (Cons c s)
  then show ?case by (cases t) (auto simp: cstr_simps of_char_eq_0)
qed

lemma strcmp_cstr: "strcmp (cstr s) t = strcmp s t"
  by (induction s arbitrary: t) (auto simp: cstr_simps)

lemma find_builtin_tree:
  "cmd_find_builtin name =
     (let cd = strcmp name ''cd''; ls = strcmp name ''ls''; mount = strcmp name ''mount'';
          pwd = strcmp name ''pwd''; uname = strcmp name ''uname'' in
      if mount < 0 then
        (if cd < 0 then Some None else if cd = 0 then Some (Some Cmd_chdir)
         else if ls = 0 then Some (Some Cmd_ls) else Some None)
      else if mount = 0 then Some (Some Cmd_mount)
      else if uname < 0 then (if pwd = 0 then Some (Some Cmd_pwd) else Some None)
      else if uname = 0 then Some (Some Cmd_uname) else None)"
proof -
  note st = find_builtin_loop.simps [of name]
  have top: "cmd_find_builtin name = find_builtin_loop name 0 5" by (simp add: cmd_find_builtin_def builtins_def)
  show ?thesis
    unfolding top
    by (simp add: builtins_def Let_def st [of 0 5] st [of 0 1] st [of 0 "-1"] st [of 1 1] st [of 1 0]
      st [of 2 1] st [of 3 5] st [of 3 3] st [of 3 2] st [of 4 3] st [of 5 5])
qed

text \<open>
  C25. The search for a built-in command. For every name up to \<^verbatim>\<open>uname\<close> in the order of \<^verbatim>\<open>strcmp\<close> the
  binary search stays inside the table and finds exactly the command of that name, or none. For
  every name after \<^verbatim>\<open>uname\<close> it reads past the end of the table, since the search starts with the
  number of entries, not the last index, as its upper bound.
\<close>

theorem cmd_find_builtin_search:
  "cmd_find_builtin name =
     (if strcmp name ''uname'' \<le> 0 then Some (map_of builtins (cstr name)) else None)"
proof -
  have "0 < strcmp ''uname'' ''mount''" by code_simp
  then have above: "0 < strcmp name ''uname'' \<Longrightarrow> 0 < strcmp name ''mount''" using strcmp_trans by blast
  have eq: "strcmp name ''cd'' = 0 \<longleftrightarrow> cstr name = ''cd''" "strcmp name ''ls'' = 0 \<longleftrightarrow> cstr name = ''ls''"
    "strcmp name ''mount'' = 0 \<longleftrightarrow> cstr name = ''mount''" "strcmp name ''pwd'' = 0 \<longleftrightarrow> cstr name = ''pwd''"
    "strcmp name ''uname'' = 0 \<longleftrightarrow> cstr name = ''uname''" by (simp_all add: strcmp_eq_0)
  have val: "strcmp name t = strcmp v t" if "cstr name = v" for v t
    using strcmp_cstr [of name t] that by simp
  have same: "cmd_find_builtin name = cmd_find_builtin v" if "cstr name = v" for v
    unfolding find_builtin_tree val [OF that] ..
  have listed: "cmd_find_builtin v = Some (map_of builtins v) \<and> strcmp v ''uname'' \<le> 0"
    if "v \<in> {''cd'', ''ls'', ''mount'', ''pwd'', ''uname''}" for v
    using that by (elim insertE) (simp_all add: find_builtin_tree Let_def builtins_def)
  consider "cstr name \<in> {''cd'', ''ls'', ''mount'', ''pwd'', ''uname''}"
    | (other) "cstr name \<notin> {''cd'', ''ls'', ''mount'', ''pwd'', ''uname''}" by blast
  then show ?thesis
  proof cases
    case 1
    from listed [OF this] show ?thesis using same [OF refl] val [OF refl, of "''uname''"] by simp
  next
    case other
    then have "map_of builtins (cstr name) = None" by (auto simp: builtins_def map_of_eq_None_iff)
    moreover have ne: "strcmp name ''mount'' \<noteq> 0" "strcmp name ''uname'' \<noteq> 0" "strcmp name ''cd'' \<noteq> 0"
      "strcmp name ''ls'' \<noteq> 0" "strcmp name ''pwd'' \<noteq> 0" using other by (simp_all add: eq)
    moreover have "strcmp name ''mount'' < 0 \<Longrightarrow> strcmp name ''uname'' \<le> 0"
      using above by linarith
    ultimately show ?thesis by (simp add: find_builtin_tree Let_def not_less)
  qed
qed

end
