(* ===== verification/Kfd.thy ===== *)
theory Kfd
  imports Kfile
begin

text \<open>
  The reference counts of open files. A file's count is the number of descriptors, over all
  processes, that refer to it; the system calls on descriptors keep that, whatever the file is:
  a device, or a file or directory of one of the file systems. What the file layer relies on
  is that the operations of files leave the counts and the tables of descriptors alone.
\<close>

section \<open>What the operations of files leave alone\<close>

named_theorems fd_frame \<open>operations that leave descriptors and counts alone\<close>

definition fd_view :: "kstate \<Rightarrow> (pptr \<Rightarrow> proc) \<times> pptr list \<times> pptr \<times> (fptr \<Rightarrow> int)" where
  "fd_view s = (procs s, process_table s, current_proc s, \<lambda>g. f_count (global_fd s g))"

lemma fd_view_put_buf [simp]: "fd_view (put_buf p b s) = fd_view s"
  by (simp add: fd_view_def put_buf_def)

lemma fd_view_sd [simp]: "fd_view (s\<lparr>sd := d\<rparr>) = fd_view s"
  by (simp add: fd_view_def)

lemma fd_view_put_file:
  "f_count v = f_count (global_fd s f) \<Longrightarrow> fd_view (put_file f v s) = fd_view s"
  by (auto simp: fd_view_def put_file_def fun_eq_iff)

lemma kmalloc_buf_free_fd [fd_frame]: "kmalloc_buf_free b s = Some s' \<Longrightarrow> fd_view s' = fd_view s"
  by (auto simp: kmalloc_buf_free_def kmalloc_buf_push_def fd_view_def put_buf_def
      split: if_splits kmalloc_buffer.splits)

lemma ramfs_free_data_fd [fd_frame]:
  assumes "ramfs_free_data b s = Some s'" shows "fd_view s' = fd_view s"
proof (rule ramfs_free_data.raw_induct [OF _ assms])
  fix f b s s'
  assume IH: "\<And>b s s'. f b s = Some s' \<Longrightarrow> fd_view s' = fd_view s"
    and "(if b = 0 then Some s
          else do { d \<leftarrow> get_data b s; s1 \<leftarrow> kmalloc_buf_free b s; f (rd_next d) s1 }) = Some s'"
  then show "fd_view s' = fd_view s"
    by (auto simp: bind_eq_Some_conv split: if_splits dest!: IH kmalloc_buf_free_fd)
qed

lemma fatfs_release_fd [fd_frame]: "fatfs_release b s = Some (r, s') \<Longrightarrow> fd_view s' = fd_view s"
  by (auto simp: fatfs_release_def bind_eq_Some_conv dest!: fd_frame)

lemma deref_run_fd:
  assumes "deref_run c s = Some r" shows "fd_view (snd r) = fd_view s"
proof (rule deref_run.raw_induct [OF _ assms], goal_cases)
  case (1 f c s r)
  note IH = 1(1)
  have step: "fd_view s' = fd_view s" if "f c s = Some (x, s')" for c s x s'
    using IH [OF that] by simp
  show ?case using 1(2)
    by (cases c)
       (auto simp: bind_eq_Some_conv Let_def dest!: step IH fd_frame
         split: if_splits option.splits inode_operations.splits)
qed

lemma inode_drop_fd [fd_frame]: "inode_drop b s = Some s' \<Longrightarrow> fd_view s' = fd_view s"
  by (auto simp: inode_drop_def inode_deref_def dest!: deref_run_fd)

lemma op_close_fd [fd_frame]: "op_close ops f s = Some (r, s') \<Longrightarrow> fd_view s' = fd_view s"
  by (cases ops) (auto simp: file_close_default_def fatfs_close_def bind_eq_Some_conv
      split: if_splits dest!: fd_frame)

lemma same_but_console_fd: "same_but_console s s' \<Longrightarrow> fd_view s' = fd_view s"
  by (cases s, cases s') (simp add: same_but_console_def fd_view_def)

context char_device begin

lemma device_read_fd: "device_read dread f sz data s = Some (r, data', s') \<Longrightarrow> fd_view s' = fd_view s"
  by (cases "dread (global_fd s f) sz s")
     (auto simp: device_read_def get_file_def bind_eq_Some_conv split: if_splits
       dest!: read_frame same_but_console_fd)

lemma device_write_fd: "device_write dwrite f sz data s = Some (r, s') \<Longrightarrow> fd_view s' = fd_view s"
  by (auto simp: device_write_def bind_eq_Some_conv dest!: write_frame same_but_console_fd)

end

lemma ramfs_dir_read_fd [fd_frame]: "ramfs_dir_read f sz data s = Some (r, d, s') \<Longrightarrow> fd_view s' = fd_view s"
  by (auto simp: ramfs_dir_read_def bind_eq_Some_conv get_file_def split: if_splits
      intro!: fd_view_put_file)

lemma get_file_count: "get_file f s = Some v \<Longrightarrow> f_count v = f_count (global_fd s f)"
  by (simp add: get_file_def split: if_splits)

lemma fatfs_dir_read_loop_fd:
  assumes "fatfs_dir_read_loop f sz off result data s = Some r" shows "fd_view (snd (snd r)) = fd_view s"
proof (rule fatfs_dir_read_loop.raw_induct [OF _ assms], goal_cases)
  case (1 rec f sz off result data s r)
  note IH = 1(1)
  have put: "fd_view (put_file f (v\<lparr>f_posn := n\<rparr>) (put_buf p b (s\<lparr>sd := d\<rparr>))) = fd_view s"
    if "get_file f s = Some v" for v n p b d
    using that by (subst fd_view_put_file) (auto simp: put_buf_def fd_view_def dest: get_file_count)
  show ?case
  proof (cases "unat sz < sizeof_dirent")
    case False
    then obtain v info where v: "get_file f s = Some v" "get_fatinfo (f_fatfs_info v) s = Some info"
      using 1(2) by (auto simp: bind_eq_Some_conv)
    obtain error entry info1 d1 where d: "fatfs_info_read_dirent info (sd s) = (error, entry, info1, d1)"
      by (cases "fatfs_info_read_dirent info (sd s)")
    show ?thesis using 1(2) False v
      by (auto simp: bind_eq_Some_conv Let_def d put [OF v(1)] split: if_splits option.splits dest!: IH)
  qed (use 1(2) in auto)
qed

lemma fatfs_file_read_loop_fd:
  assumes "fatfs_file_read_loop f sz off result data s = Some r" shows "fd_view (snd (snd r)) = fd_view s"
proof (rule fatfs_file_read_loop.raw_induct [OF _ assms], goal_cases)
  case (1 rec f sz off result data s r)
  note IH = 1(1)
  show ?case
  proof (cases "sz = 0")
    case False
    then obtain v info where v: "get_file f s = Some v" "get_fatinfo (f_fatfs_info v) s = Some info"
      using 1(2) by (auto simp: bind_eq_Some_conv)
    obtain n boff info1 d1 where d: "fatfs_info_read_prepare info (sd s) = (n, boff, info1, d1)"
      by (cases "fatfs_info_read_prepare info (sd s)")
    show ?thesis using 1(2) False v
      by (auto simp: bind_eq_Some_conv Let_def d split: if_splits dest!: IH)
  qed (use 1(2) in auto)
qed

lemma op_read_fd [fd_frame]: "op_read ops f sz data s = Some (r, d, s') \<Longrightarrow> fd_view s' = fd_view s"
  by (cases ops)
     (auto simp: fatfs_dir_read_def fatfs_file_read_def dest!: ramfs_dir_read_fd fatfs_dir_read_loop_fd
       fatfs_file_read_loop_fd dev_null.device_read_fd dev_zero.device_read_fd basic_tty.device_read_fd
       raw_tty.device_read_fd)

lemma op_write_fd [fd_frame]: "op_write ops f sz data s = Some (r, s') \<Longrightarrow> fd_view s' = fd_view s"
  by (cases ops)
     (auto simp: file_write_default_def dest!: dev_null.device_write_fd dev_full.device_write_fd
       basic_tty.device_write_fd raw_tty.device_write_fd)

section \<open>The invariant\<close>

text \<open>The descriptors of all processes that refer to a file.\<close>

definition fd_refs :: "kstate \<Rightarrow> fptr \<Rightarrow> nat" where
  "fd_refs s g = (\<Sum>p\<in>set (process_table s) - {0}. count_list (p_fd (procs s p)) g)"

text \<open>The tables have their sizes, their entries are open files or free, and a process runs.\<close>

definition fd_tables :: "kstate \<Rightarrow> bool" where
  "fd_tables s \<longleftrightarrow> length (process_table s) = CONFIG_PROC_MAX \<and>
     current_proc s \<noteq> 0 \<and> current_proc s \<in> set (process_table s) \<and>
     (\<forall>p\<in>set (process_table s) - {0}. length (p_fd (procs s p)) = CONFIG_PROC_FD_MAX \<and>
        (\<forall>g\<in>set (p_fd (procs s p)). g = 0 \<or> file_ok g))"

text \<open>The counts are the numbers of descriptors plus \<open>adj\<close>, which is 0 between system calls.\<close>

definition fd_counts :: "(fptr \<Rightarrow> int) \<Rightarrow> kstate \<Rightarrow> bool" where
  "fd_counts adj s \<longleftrightarrow> fd_tables s \<and>
     (\<forall>g. file_ok g \<longrightarrow> f_count (global_fd s g) = int (fd_refs s g) + adj g)"

definition fd_inv :: "kstate \<Rightarrow> bool" where
  "fd_inv s \<longleftrightarrow> fd_counts (\<lambda>g. 0) s"

lemma fd_counts_view:
  assumes "fd_view s' = fd_view s" shows "fd_counts adj s' = fd_counts adj s"
proof -
  have "f_count (global_fd s' g) = f_count (global_fd s g)" for g
    using assms by (auto simp: fd_view_def dest: fun_cong)
  then show ?thesis using assms by (simp add: fd_view_def fd_counts_def fd_tables_def fd_refs_def)
qed

lemma fd_counts_cong:
  "fd_counts adj s \<Longrightarrow> (\<And>g. file_ok g \<Longrightarrow> adj g = adj' g) \<Longrightarrow> fd_counts adj' s"
  by (simp add: fd_counts_def)

lemma count_list_le: "count_list xs g \<le> length xs"
  by (induction xs) simp_all

lemma fd_refs_le:
  assumes "fd_tables s" shows "fd_refs s g \<le> 48"
proof -
  have "fd_refs s g \<le> (\<Sum>p\<in>set (process_table s) - {0}. CONFIG_PROC_FD_MAX)"
    unfolding fd_refs_def
  proof (rule sum_mono)
    fix p assume "p \<in> set (process_table s) - {0}"
    then have "length (p_fd (procs s p)) = 8" using assms unfolding fd_tables_def by blast
    then show "count_list (p_fd (procs s p)) g \<le> 8" using count_list_le [of "p_fd (procs s p)" g] by simp
  qed
  also have "\<dots> \<le> 6 * 8"
    using assms card_length [of "process_table s"] card_mono [of "set (process_table s)" "set (process_table s) - {0}"]
    by (simp add: fd_tables_def Diff_subset)
  finally show ?thesis by simp
qed

lemma count_list_update_nat:
  "i < length xs \<Longrightarrow> count_list (xs[i := y]) g + of_bool (xs ! i = g) = count_list xs g + of_bool (y = g)"
proof (induction xs arbitrary: i)
  case (Cons x xs)
  show ?case
  proof (cases i)
    case (Suc j)
    then show ?thesis using Cons.IH [of j] Cons.prems by simp
  qed simp
qed simp

lemma count_list_update:
  "i < length xs \<Longrightarrow>
   int (count_list (xs[i := y]) g) = int (count_list xs g) + of_bool (y = g) - of_bool (xs ! i = g)"
  using count_list_update_nat [of i xs y g] by (auto split: if_splits)

text \<open>A count that is set to a number of descriptors, give or take a few, does not wrap.\<close>

lemma fd_counts_put_file:
  assumes "fd_counts adj s" "file_ok f" "\<bar>adj f\<bar> \<le> 8" "\<bar>k\<bar> \<le> 1"
    "f_count v = schar (f_count (global_fd s f) + k)"
  shows "fd_counts (adj(f := adj f + k)) (put_file f v s)"
proof -
  have eq: "f_count (global_fd s f) = int (fd_refs s f) + adj f" and "fd_refs s f \<le> 48"
    using assms(1,2) fd_refs_le [of s f] by (simp_all add: fd_counts_def)
  then have "f_count v = int (fd_refs s f) + (adj f + k)"
    using assms(3-5) by (simp add: schar_ident)
  then show ?thesis
    using assms(1) by (auto simp: fd_counts_def fd_tables_def fd_refs_def put_file_def)
qed

lemma file_ref_counts:
  assumes "fd_counts adj s" "file_ref f s = Some s'" "\<bar>adj f\<bar> \<le> 8"
  shows "fd_counts (adj(f := adj f + 1)) s'" "procs s' = procs s" "current_proc s' = current_proc s"
  using assms fd_counts_put_file [OF assms(1) _ assms(3), of 1]
  by (auto simp: file_ref_def bind_eq_Some_conv get_file_def split: if_splits) (simp_all add: put_file_def)

lemma file_deref_counts:
  assumes "fd_counts adj s" "file_deref f s = Some (r, s')" "\<bar>adj f\<bar> \<le> 8"
  shows "fd_counts (adj(f := adj f - 1)) s'" "procs s' = procs s" "current_proc s' = current_proc s"
proof -
  define v where "v = (global_fd s f)\<lparr>f_count := schar (f_count (global_fd s f) - 1)\<rparr>"
  have ok: "file_ok f" and view: "fd_view s' = fd_view (put_file f v s)"
    using assms(2)
    by (auto simp: file_deref_def bind_eq_Some_conv get_file_def Let_def v_def split: if_splits dest!: op_close_fd)
  have "fd_counts (adj(f := adj f + - 1)) (put_file f v s)"
    by (rule fd_counts_put_file [OF assms(1) ok assms(3)]) (simp_all add: v_def)
  then show "fd_counts (adj(f := adj f - 1)) s'" by (simp add: fd_counts_view [OF view])
  show "procs s' = procs s" "current_proc s' = current_proc s"
    using view by (simp_all add: fd_view_def put_file_def)
qed

lemma put_cur_counts:
  assumes "fd_counts adj s" "cur s = Some p" "i < CONFIG_PROC_FD_MAX" "g = 0 \<or> file_ok g"
    "p_fd p' = (p_fd p)[i := g]"
  shows "fd_counts (\<lambda>h. adj h + of_bool (p_fd p ! i = h) - of_bool (g = h)) (put_cur p' s)"
proof -
  let ?c = "current_proc s" and ?P = "set (process_table s) - {0}" and ?s = "put_cur p' s"
  have t: "fd_tables s" using assms(1) by (simp add: fd_counts_def)
  have p: "p = procs s ?c" "?c \<in> ?P"
    using assms(2) t by (auto simp: cur_def get_proc_def fd_tables_def split: if_splits)
  have len: "length (p_fd p) = CONFIG_PROC_FD_MAX" using t p unfolding fd_tables_def by blast
  have refs: "int (fd_refs ?s h) = int (fd_refs s h) + of_bool (g = h) - of_bool (p_fd p ! i = h)" for h
  proof -
    have "fd_refs ?s h = count_list (p_fd p') h + (\<Sum>q\<in>?P - {?c}. count_list (p_fd (procs s q)) h)"
      using p(2) by (simp add: fd_refs_def put_cur_def put_proc_def sum.remove [of ?P ?c])
    moreover have "fd_refs s h = count_list (p_fd p) h + (\<Sum>q\<in>?P - {?c}. count_list (p_fd (procs s q)) h)"
      using p by (simp add: fd_refs_def sum.remove [of ?P ?c])
    ultimately show ?thesis using count_list_update [of i "p_fd p" g h] assms(3,5) len by simp
  qed
  have "set (p_fd p') \<subseteq> insert g (set (p_fd p))" unfolding assms(5) by (rule set_update_subset_insert)
  then have "fd_tables ?s"
    using t p len assms(4,5) by (auto simp: fd_tables_def put_cur_def put_proc_def)
  then show ?thesis
    using assms(1) refs by (auto simp: fd_counts_def put_cur_def put_proc_def)
qed

lemma cur_cong: "procs s' = procs s \<Longrightarrow> current_proc s' = current_proc s \<Longrightarrow> cur s' = cur s"
  by (simp add: cur_def get_proc_def)

lemma put_cur_same:
  assumes "fd_counts adj s" "cur s = Some p" "p_fd p' = p_fd p" shows "fd_counts adj (put_cur p' s)"
proof -
  have "p_fd (procs (put_cur p' s) q) = p_fd (procs s q)" for q
    using assms(2,3) by (auto simp: put_cur_def put_proc_def cur_def get_proc_def split: if_splits)
  then show ?thesis
    using assms(1) by (simp add: fd_counts_def fd_tables_def fd_refs_def) (simp add: put_cur_def put_proc_def)
qed

section \<open>The system calls\<close>

lemma file_get_open:
  assumes "fd_counts adj s" "file_get fd s = Some f" "f \<noteq> 0"
  obtains p where "cur s = Some p" "0 \<le> fd" "nat fd < CONFIG_PROC_FD_MAX" "p_fd p ! nat fd = f" "file_ok f"
proof -
  have "\<not> (fd < 0 \<or> fd \<ge> int CONFIG_PROC_FD_MAX)" using assms(2,3) by (auto simp: file_get_def)
  then obtain p where p: "cur s = Some p" "arr_get (p_fd p) (nat fd) = Some f" "0 \<le> fd" "nat fd < CONFIG_PROC_FD_MAX"
    using assms(2) by (auto simp: file_get_def bind_eq_Some_conv)
  have f: "p_fd p ! nat fd = f" "f \<in> set (p_fd p)"
    using p(2) by (auto simp: arr_get_def split: if_splits)
  have pc: "p = procs s (current_proc s)" using p(1) by (auto simp: cur_def get_proc_def split: if_splits)
  have "current_proc s \<in> set (process_table s) - {0}" and
    t: "\<And>q. q \<in> set (process_table s) - {0} \<Longrightarrow> \<forall>g\<in>set (p_fd (procs s q)). g = 0 \<or> file_ok g"
    using assms(1) by (simp_all add: fd_counts_def fd_tables_def)
  then have "f = 0 \<or> file_ok f" using f(2) unfolding pc by blast
  then show thesis using that [OF p(1,3,4) f(1)] assms(3) by simp
qed

lemma sys_close_counts:
  assumes "fd_inv s" "sys_close fd s = Some (r, s')" shows "fd_inv s'"
proof -
  have s: "fd_counts (\<lambda>g. 0) s" using assms(1) by (simp add: fd_inv_def)
  obtain f where f: "file_get fd s = Some f" using assms(2) by (auto simp: sys_close_def bind_eq_Some_conv)
  show ?thesis
  proof (cases "f = 0")
    case True
    then show ?thesis using assms f by (auto simp: sys_close_def)
  next
    case False
    obtain p where p: "cur s = Some p" "nat fd < CONFIG_PROC_FD_MAX" "p_fd p ! nat fd = f"
      using file_get_open [OF s f False] .
    let ?s1 = "put_cur (p\<lparr>p_fd := (p_fd p)[nat fd := 0]\<rparr>) s"
    have s1: "fd_counts (\<lambda>h. 0 + of_bool (p_fd p ! nat fd = h) - of_bool (0 = h)) ?s1"
      by (rule put_cur_counts [OF s p(1,2)]) simp_all
    have "file_deref f ?s1 = Some (r, s')" using assms(2) f False p by (simp add: sys_close_def)
    from file_deref_counts(1) [OF s1 this] show ?thesis unfolding fd_inv_def
      by (rule fd_counts_cong) (use False p(3) in \<open>auto simp: file_ok_def\<close>)
  qed
qed

lemma fd_scan_free: "fd_scan xs n = Some m \<Longrightarrow> n \<le> m \<and> m - n < length xs \<and> xs ! (m - n) = 0"
  by (induction xs n rule: fd_scan.induct) (auto split: if_splits simp: Suc_diff_le nth_Cons')

lemma sys_dup_scan_counts:
  assumes "fd_inv s" "sys_dup_scan fd n s = Some (r, s')" shows "fd_inv s'"
proof -
  have s: "fd_counts (\<lambda>g. 0) s" using assms(1) by (simp add: fd_inv_def)
  obtain f where f: "file_get fd s = Some f" using assms(2) by (auto simp: sys_dup_scan_def bind_eq_Some_conv)
  show ?thesis
  proof (cases "f = 0 \<or> n < 0 \<or> n \<ge> int CONFIG_PROC_FD_MAX")
    case True
    then show ?thesis using assms f by (auto simp: sys_dup_scan_def split: if_splits)
  next
    case False
    then have "f \<noteq> 0" by simp
    obtain p where p: "cur s = Some p" "file_ok f" using file_get_open [OF s f \<open>f \<noteq> 0\<close>] .
    have len: "length (p_fd p) = CONFIG_PROC_FD_MAX"
      using s p(1) by (auto simp: fd_counts_def fd_tables_def cur_def get_proc_def split: if_splits)
    show ?thesis
    proof (cases "fd_scan (drop (nat n) (p_fd p)) (nat n)")
      case None
      then show ?thesis using assms f False p by (auto simp: sys_dup_scan_def)
    next
      case (Some m)
      have m: "m < CONFIG_PROC_FD_MAX" "p_fd p ! m = 0" using fd_scan_free [OF Some] len by auto
      obtain s1 where s1: "file_ref f s = Some s1" and s': "s' = put_cur (p\<lparr>p_fd := (p_fd p)[m := f],
          p_cloexec := (p_cloexec p)[m := 0]\<rparr>) s1"
        using assms(2) f False p(1) Some by (auto simp: sys_dup_scan_def bind_eq_Some_conv)
      note ref = file_ref_counts [OF s s1]
      have "cur s1 = Some p" using p(1) ref(2,3) cur_cong [of s1 s] by simp
      from put_cur_counts [OF ref(1) this m(1), of f] have
        "fd_counts (\<lambda>h. ((\<lambda>g. 0)(f := 0 + 1)) h + of_bool (p_fd p ! m = h) - of_bool (f = h)) s'"
        using p(2) by (simp add: s')
      then show ?thesis unfolding fd_inv_def by (rule fd_counts_cong) (use m(2) in \<open>auto simp: file_ok_def\<close>)
    qed
  qed
qed

lemma sys_dup2_counts:
  assumes "fd_inv s" "sys_dup2 fd n s = Some (r, s')" shows "fd_inv s'"
proof -
  have s: "fd_counts (\<lambda>g. 0) s" using assms(1) by (simp add: fd_inv_def)
  obtain f where f: "file_get fd s = Some f" using assms(2) by (auto simp: sys_dup2_def bind_eq_Some_conv)
  show ?thesis
  proof (cases "f = 0 \<or> n < 0 \<or> n \<ge> int CONFIG_PROC_FD_MAX \<or> n = fd")
    case True
    then show ?thesis using assms f by (auto simp: sys_dup2_def split: if_splits)
  next
    case False
    then have "f \<noteq> 0" by simp
    obtain p where p: "cur s = Some p" "file_ok f" using file_get_open [OF s f \<open>f \<noteq> 0\<close>] .
    obtain s1 f2 s2 q where run: "file_ref f s = Some s1" "file_get n s1 = Some f2"
        "(if f2 \<noteq> 0 then map_option snd (file_deref f2 s1) else Some s1) = Some s2" "cur s2 = Some q"
        "s' = put_cur (q\<lparr>p_fd := (p_fd q)[nat n := f], p_cloexec := (p_cloexec q)[nat n := 0]\<rparr>) s2"
      using assms(2) f False by (auto simp: sys_dup2_def bind_eq_Some_conv simp del: if_split_asm)
    let ?a1 = "(\<lambda>g. 0)(f := 0 + 1)"
    note ref = file_ref_counts [OF s run(1)]
    have s1: "fd_counts ?a1 s1" by (rule ref(1)) simp
    have q1: "cur s1 = Some p" using p(1) ref(2,3) cur_cong [of s1 s] by simp
    have slot: "p_fd p ! nat n = f2"
      using run(2) q1 False by (auto simp: file_get_def arr_get_def split: if_splits)
    have s2: "fd_counts (\<lambda>h. ?a1 h - of_bool (f2 = h)) s2 \<and> cur s2 = Some p"
    proof (cases "f2 = 0")
      case True
      then show ?thesis using run(3) s1 q1 by (auto elim!: fd_counts_cong simp: file_ok_def)
    next
      case nz: False
      then obtain r2 where d: "file_deref f2 s1 = Some (r2, s2)" using run(3) by auto
      note dr = file_deref_counts [OF s1 d]
      have "fd_counts (?a1(f2 := ?a1 f2 - 1)) s2" by (rule dr(1)) simp
      then have "fd_counts (\<lambda>h. ?a1 h - of_bool (f2 = h)) s2" by (rule fd_counts_cong) auto
      then show ?thesis using q1 dr(2,3) cur_cong [of s2 s1] by simp
    qed
    then have "q = p" using run(4) by simp
    have "fd_counts (\<lambda>h. (?a1 h - of_bool (f2 = h)) + of_bool (p_fd p ! nat n = h) - of_bool (f = h)) s'"
      unfolding run(5) \<open>q = p\<close>
      by (rule put_cur_counts [where i = "nat n"]) (use s2 False p(2) in auto)
    then show ?thesis unfolding fd_inv_def by (rule fd_counts_cong) (use slot in auto)
  qed
qed

lemma sys_fcntl_counts:
  assumes "fd_inv s" "sys_fcntl fd cmd val s = Some (r, s')" shows "fd_inv s'"
proof -
  have s: "fd_counts (\<lambda>g. 0) s" using assms(1) by (simp add: fd_inv_def)
  have cloexec: "fd_inv (put_cur (p\<lparr>p_cloexec := c\<rparr>) s)" if "cur s = Some p" for p c
    using put_cur_same [OF s that] by (simp add: fd_inv_def)
  have flags: "fd_inv (put_file f ((global_fd s f)\<lparr>f_flags := x\<rparr>) s)" for f x
    using s fd_counts_view [OF fd_view_put_file] by (simp add: fd_inv_def)
  show ?thesis using assms
    by (auto simp: sys_fcntl_def bind_eq_Some_conv get_file_def split: if_splits
        dest: sys_dup_scan_counts intro: cloexec flags)
qed

text \<open>A read or write holds a reference of its own while the operation runs.\<close>

lemma held_counts:
  assumes "fd_inv s" "file_ref f s = Some s1" "fd_view s2 = fd_view s1" "file_deref f s2 = Some (r, s')"
  shows "fd_inv s'"
proof -
  have "fd_counts ((\<lambda>g. 0)(f := 0 + 1)) s1"
    using assms(1) by (intro file_ref_counts(1) [OF _ assms(2)]) (simp_all add: fd_inv_def)
  then have "fd_counts ((\<lambda>g. 0)(f := 0 + 1)) s2" by (simp add: fd_counts_view [OF assms(3)])
  from file_deref_counts(1) [OF this assms(4)] show ?thesis
    unfolding fd_inv_def by (rule fd_counts_cong) auto
qed

lemma sys_read_counts:
  assumes "fd_inv s" "sys_read fd data sz s = Some (r, d, s')" shows "fd_inv s'"
  using assms by (auto simp: sys_read_def bind_eq_Some_conv Let_def split: if_splits
      dest!: op_read_fd intro: held_counts)

lemma sys_write_counts:
  assumes "fd_inv s" "sys_write fd data sz s = Some (r, s')" shows "fd_inv s'"
  using assms by (auto simp: sys_write_def bind_eq_Some_conv split: if_splits
      dest!: op_write_fd intro: held_counts)

text \<open>A process that makes system calls on its descriptors, one after the other.\<close>

datatype fd_call =
    Fd_close int
  | Fd_read int "char list option" u16
  | Fd_write int "char list option" u16
  | Fd_dup int
  | Fd_dup2 int int
  | Fd_fcntl int int u16

fun fd_exec :: "fd_call \<Rightarrow> kstate \<Rightarrow> (int \<times> kstate) option" where
  "fd_exec (Fd_close fd) s = sys_close fd s"
| "fd_exec (Fd_read fd data sz) s = map_option (\<lambda>(r, d, s1). (r, s1)) (sys_read fd data sz s)"
| "fd_exec (Fd_write fd data sz) s = sys_write fd data sz s"
| "fd_exec (Fd_dup fd) s = sys_dup fd s"
| "fd_exec (Fd_dup2 fd n) s = sys_dup2 fd n s"
| "fd_exec (Fd_fcntl fd cmd val) s = sys_fcntl fd cmd val s"

fun fd_run :: "fd_call list \<Rightarrow> kstate \<Rightarrow> kstate option" where
  "fd_run [] s = Some s"
| "fd_run (c # cs) s = do { (r, s1) \<leftarrow> fd_exec c s; fd_run cs s1 }"

lemma fd_exec_counts: "fd_inv s \<Longrightarrow> fd_exec c s = Some (r, s') \<Longrightarrow> fd_inv s'"
  by (cases c) (auto simp: sys_dup_def dest: sys_close_counts sys_read_counts sys_write_counts
      sys_dup_scan_counts sys_dup2_counts sys_fcntl_counts)

text \<open>
  C6. The tables of open files and of descriptors stay well formed. If every process has a table of
  eight descriptors, each free or referring to a slot of the table of open files, and the count of
  every open file is the number of descriptors of all processes that refer to it, then that is so
  after any sequence of the system calls close, read, write, dup, dup2 and fcntl, whatever files the
  descriptors refer to and whether the calls succeed or fail. In particular a signed 8-bit count,
  which is at most 48, never wraps.
\<close>

theorem fd_run_keeps_counts:
  assumes "fd_inv s" "fd_run calls s = Some s'"
  shows "fd_inv s'"
  using assms by (induction calls arbitrary: s) (auto simp: bind_eq_Some_conv dest: fd_exec_counts)

definition fd_start :: kstate where
  "fd_start = blank_state\<lparr>process_table := [512, 0, 0, 0, 0, 0], current_proc := 512,
     procs := (\<lambda>_. zero_proc\<lparr>p_fd := [1, 1, 0, 0, 0, 0, 0, 0]\<rparr>),
     global_fd := (\<lambda>_. blank_file)(1 := blank_file\<lparr>f_count := 2, f_op := Some Basic_tty_operations\<rparr>)\<rparr>"

lemma fd_start_inv: "fd_inv fd_start"
  by (auto simp: fd_inv_def fd_counts_def fd_tables_def fd_refs_def fd_start_def blank_state_def
      blank_file_def file_ok_def)

theorem fd_run_keeps_counts_witness:
  "\<exists>s'. fd_run [Fd_dup 0, Fd_close 1, Fd_close 9] fd_start = Some s' \<and> fd_inv s'"
proof -
  have "fd_run [Fd_dup 0, Fd_close 1, Fd_close 9] fd_start \<noteq> None"
    by (simp add: fd_start_def blank_state_def blank_file_def sys_dup_def sys_dup_scan_def file_get_def
        cur_def get_proc_def arr_get_def file_ref_def get_file_def file_ok_def put_file_def put_cur_def
        put_proc_def sys_close_def file_deref_def schar_def)
  then obtain s' where s': "fd_run [Fd_dup 0, Fd_close 1, Fd_close 9] fd_start = Some s'" by blast
  then show ?thesis using fd_run_keeps_counts [OF fd_start_inv s'] by blast
qed

section \<open>Duplicating a descriptor\<close>

lemma fd_scan_none: "fd_scan xs n = None \<longleftrightarrow> 0 \<notin> set xs"
  by (induction xs n rule: fd_scan.induct) auto

lemma fd_scan_least: "fd_scan xs n = Some m \<Longrightarrow> n \<le> i \<Longrightarrow> i < m \<Longrightarrow> xs ! (i - n) \<noteq> 0"
proof (induction xs n rule: fd_scan.induct)
  case (2 x xs fd)
  then show ?case by (cases "i = fd") (auto split: if_splits simp: nth_Cons')
qed simp

text \<open>
  C21. \<^verbatim>\<open>dup\<close> never fails to return. It answers EBADF for a descriptor that is out of range or not open
  and EMFILE when the process has no free descriptor, both without changing anything. Otherwise
  it returns the lowest free descriptor, which then refers to the same file, is not closed on exec,
  and is counted; the other descriptors of the process stay as they are.
\<close>

theorem sys_dup_lowest:
  assumes "fd_inv s" "cur s = Some p"
  shows "case file_get fd s of None \<Rightarrow> False
    | Some f \<Rightarrow>
        if f = 0 then sys_dup fd s = Some (- EBADF, s)
        else if 0 \<notin> set (p_fd p) then sys_dup fd s = Some (- EMFILE, s)
        else \<exists>n s'. sys_dup fd s = Some (int n, s') \<and> n < CONFIG_PROC_FD_MAX \<and> p_fd p ! n = 0 \<and>
               (\<forall>i<n. p_fd p ! i \<noteq> 0) \<and>
               cur s' = Some (p\<lparr>p_fd := (p_fd p)[n := f], p_cloexec := (p_cloexec p)[n := 0]\<rparr>) \<and>
               f_count (global_fd s' f) = f_count (global_fd s f) + 1"
proof -
  have s: "fd_counts (\<lambda>g. 0) s" using assms(1) by (simp add: fd_inv_def)
  have c: "current_proc s \<noteq> 0" "p = procs s (current_proc s)"
    using assms(2) by (auto simp: cur_def get_proc_def split: if_splits)
  have len: "length (p_fd p) = CONFIG_PROC_FD_MAX"
    using s c by (auto simp: fd_counts_def fd_tables_def)
  obtain f where f: "file_get fd s = Some f"
  proof (cases "fd < 0 \<or> fd \<ge> int CONFIG_PROC_FD_MAX")
    case False
    then have "nat fd < length (p_fd p)" using len by linarith
    then show thesis using that [of "p_fd p ! nat fd"] False assms(2) by (simp add: file_get_def arr_get_def)
  qed (use that in \<open>simp add: file_get_def\<close>)
  consider (bad) "f = 0" | (full) "f \<noteq> 0" "0 \<notin> set (p_fd p)"
    | (free) n where "f \<noteq> 0" "0 \<in> set (p_fd p)" "fd_scan (p_fd p) 0 = Some n"
    using fd_scan_none [of "p_fd p" 0] by (cases "fd_scan (p_fd p) 0") blast+
  then show ?thesis
  proof cases
    case free
    have n: "n < CONFIG_PROC_FD_MAX" "p_fd p ! n = 0" "\<forall>i<n. p_fd p ! i \<noteq> 0"
      using fd_scan_free [OF free(3)] fd_scan_least [OF free(3)] len by auto
    have ok: "file_ok f" using file_get_open [OF s f free(1)] .
    have "f_count (global_fd s f) = int (fd_refs s f)" "fd_refs s f \<le> 48"
      using s ok fd_refs_le [of s f] by (simp_all add: fd_counts_def)
    then have cnt: "schar (f_count (global_fd s f) + 1) = f_count (global_fd s f) + 1"
      by (intro schar_ident) simp_all
    let ?s1 = "put_file f ((global_fd s f)\<lparr>f_count := f_count (global_fd s f) + 1\<rparr>) s"
    let ?s2 = "put_cur (p\<lparr>p_fd := (p_fd p)[n := f], p_cloexec := (p_cloexec p)[n := 0]\<rparr>) ?s1"
    have "sys_dup fd s = Some (int n, ?s2)"
      using f free assms(2) ok by (simp add: sys_dup_def sys_dup_scan_def file_ref_def get_file_def cnt)
    moreover have "cur ?s2 = Some (p\<lparr>p_fd := (p_fd p)[n := f], p_cloexec := (p_cloexec p)[n := 0]\<rparr>)"
        "f_count (global_fd ?s2 f) = f_count (global_fd s f) + 1"
      using c(1) by (simp_all add: cur_def get_proc_def put_cur_def put_proc_def put_file_def)
    ultimately show ?thesis using f free n by auto
  qed (use f assms(2) fd_scan_none [of "p_fd p" 0] in \<open>auto simp: sys_dup_def sys_dup_scan_def\<close>)
qed

theorem sys_dup_lowest_witness:
  "\<exists>n s'. sys_dup 0 fd_start = Some (int n, s') \<and> f_count (global_fd s' 1) = 3"
proof -
  have c: "cur fd_start = Some (zero_proc\<lparr>p_fd := [1, 1, 0, 0, 0, 0, 0, 0]\<rparr>)"
    by (simp add: fd_start_def cur_def get_proc_def)
  have "file_get 0 fd_start = Some 1" "f_count (global_fd fd_start 1) = 2"
    by (simp_all add: file_get_def c arr_get_def) (simp add: fd_start_def)
  then show ?thesis using sys_dup_lowest [OF fd_start_inv c, of 0] by auto
qed

end
