(* ===== verification/Spi.thy ===== *)
theory Spi
  imports Sdcard Asm6502
begin

unbundle bit_operations_syntax

text \<open>
  The bit-banged SPI bus of the eater target, \<^verbatim>\<open>target/eater/spi.S\<close>, on the pins of port A of the
  VIA: the clock, the data lines and the chip select. The other input pins are an arbitrary stream
  and the card's data line is an arbitrary sequence of bits, one per clock period. The main result
  is a refinement: what the assembly does on the pins is what the byte-wide interface of theory
  \<^verbatim>\<open>Sdcard\<close>, on which the driver is verified, promises.
\<close>

section \<open>The port\<close>

record via_port =
  pa_latch :: u8
  pa_ddr :: u8
  pa_pins :: "nat \<Rightarrow> u8"
  pa_reads :: nat
  miso :: "nat \<Rightarrow> bool"
  sclk_falls :: nat
  mosi_log :: "bool list"

text \<open>
  A read gives the latch on output pins and the level of the wire on input pins. The card changes
  its data line on the falling edge of the clock and reads the other one on the rising edge.
\<close>

definition pa_value :: "via_port \<Rightarrow> u8" where
  "pa_value v = (pa_latch v AND pa_ddr v) OR
     (((pa_pins v (pa_reads v) AND 0xBF) OR (if miso v (sclk_falls v) then 0x40 else 0)) AND NOT (pa_ddr v))"

definition sclk :: "via_port \<Rightarrow> bool" where
  "sclk v = bit (pa_latch v AND pa_ddr v) 0"

definition pa_set :: "u8 \<Rightarrow> u8 \<Rightarrow> via_port \<Rightarrow> via_port" where
  "pa_set latch ddr v =
     (let v1 = v\<lparr>pa_latch := latch, pa_ddr := ddr\<rparr> in
      if \<not> sclk v \<and> sclk v1 then v1\<lparr>mosi_log := mosi_log v @ [bit (latch AND ddr) 1]\<rparr>
      else if sclk v \<and> \<not> sclk v1 then v1\<lparr>sclk_falls := Suc (sclk_falls v)\<rparr>
      else v1)"

definition pa_rmw :: "(u8 \<Rightarrow> u8) \<Rightarrow> via_port \<Rightarrow> via_port" where
  "pa_rmw f v = pa_set (f (pa_value v)) (pa_ddr v) (v\<lparr>pa_reads := Suc (pa_reads v)\<rparr>)"

definition pa_tsb :: "u8 \<Rightarrow> via_port \<Rightarrow> via_port" where "pa_tsb m = pa_rmw (\<lambda>b. b OR m)"
definition pa_trb :: "u8 \<Rightarrow> via_port \<Rightarrow> via_port" where "pa_trb m = pa_rmw (\<lambda>b. b AND NOT m)"
definition pa_inc :: "via_port \<Rightarrow> via_port" where "pa_inc = pa_rmw (\<lambda>b. b + 1)"
definition pa_dec :: "via_port \<Rightarrow> via_port" where "pa_dec = pa_rmw (\<lambda>b. b - 1)"

text \<open>The overflow flag after \<^verbatim>\<open>bit SPI_PORT\<close>: bit 6 of the value read.\<close>

definition pa_bit :: "via_port \<Rightarrow> bool \<times> via_port" where
  "pa_bit v = (bit (pa_value v) 6, v\<lparr>pa_reads := Suc (pa_reads v)\<rparr>)"

section \<open>The routines\<close>

definition via_spi_init :: "via_port \<Rightarrow> via_port" where
  "via_spi_init v =
     (let v1 = pa_rmw (\<lambda>b. (b AND 0xFC) OR 0x20) v in
      pa_set (pa_latch v1) ((pa_ddr v1 OR 0x23) AND 0xBF) v1)"

fun via_send_bits :: "nat \<Rightarrow> u8 \<Rightarrow> via_port \<Rightarrow> via_port" where
  "via_send_bits 0 rc5 v = v"
| "via_send_bits (Suc x) rc5 v =
     (let (rc5', c) = asl rc5 in
      via_send_bits x rc5' (pa_dec (pa_inc (if c then pa_tsb 2 v else pa_trb 2 v))))"

definition via_send_byte :: "u8 \<Rightarrow> via_port \<Rightarrow> via_port" where
  "via_send_byte a v = via_send_bits 8 a v"

fun via_receive_bits :: "nat \<Rightarrow> u8 \<Rightarrow> via_port \<Rightarrow> u8 \<times> via_port" where
  "via_receive_bits 0 rc5 v = (rc5, v)"
| "via_receive_bits (Suc x) rc5 v =
     (let rc5' = fst (asl rc5);
          (b, v1) = pa_bit (pa_inc v) in
      via_receive_bits x (if b then rc5' + 1 else rc5') (pa_dec v1))"

definition via_receive_byte :: "via_port \<Rightarrow> u8 \<times> via_port" where
  "via_receive_byte v = via_receive_bits 8 0 (pa_tsb 2 v)"

text \<open>
  The three block routines have the same two loops, over \<open>x\<close> pages of 256 bytes and over the
  \<open>a\<close> bytes that remain; \<open>act\<close> is what they do with the byte at an offset. The index \<open>y\<close> is a
  register that wraps to 0 at the end of a page, where \<^verbatim>\<open>inc __rc3\<close> moves to the next.
\<close>

function page_loop :: "(nat \<Rightarrow> 'a \<Rightarrow> 'a) \<Rightarrow> nat \<Rightarrow> u8 \<Rightarrow> 'a \<Rightarrow> 'a" where
  "page_loop act base y s =
     (let s1 = act (base + unat y) s in
      if y + 1 = 0 then s1 else page_loop act base (y + 1) s1)"
  by pat_completeness auto
termination
proof (relation "measure (\<lambda>(act, base, y, s). 256 - unat y)", goal_cases)
  case (2 act base y s s1)
  then show ?case using u8_bound [of y] by (simp add: u8_inc_unat)
qed simp

fun pages_loop :: "(nat \<Rightarrow> 'a \<Rightarrow> 'a) \<Rightarrow> nat \<Rightarrow> nat \<Rightarrow> 'a \<Rightarrow> 'a" where
  "pages_loop act 0 base s = s"
| "pages_loop act (Suc x) base s = pages_loop act x (base + 256) (page_loop act base 0 s)"

fun rest_loop :: "(nat \<Rightarrow> 'a \<Rightarrow> 'a) \<Rightarrow> nat \<Rightarrow> nat \<Rightarrow> 'a \<Rightarrow> 'a" where
  "rest_loop act 0 i s = s"
| "rest_loop act (Suc x) i s = rest_loop act x (Suc i) (act i s)"

definition transfer_loops :: "(nat \<Rightarrow> 'a \<Rightarrow> 'a) \<Rightarrow> u8 \<Rightarrow> u8 \<Rightarrow> 'a \<Rightarrow> 'a" where
  "transfer_loops act a x s = rest_loop act (unat a) (256 * unat x) (pages_loop act (unat x) 0 s)"

definition via_spi_send :: "(nat \<Rightarrow> u8) \<Rightarrow> u8 \<Rightarrow> u8 \<Rightarrow> via_port \<Rightarrow> via_port" where
  "via_spi_send data = transfer_loops (\<lambda>i. via_send_byte (data i))"

definition via_spi_receive ::
    "u8 \<Rightarrow> u8 \<Rightarrow> (nat \<Rightarrow> u8) \<times> via_port \<Rightarrow> (nat \<Rightarrow> u8) \<times> via_port" where
  "via_spi_receive = transfer_loops (\<lambda>i (mem, v). let (b, v1) = via_receive_byte v in (mem(i := b), v1))"

definition via_spi_blank :: "u8 \<Rightarrow> u8 \<Rightarrow> via_port \<Rightarrow> via_port" where
  "via_spi_blank = transfer_loops (\<lambda>i v. snd (via_receive_byte v))"

definition via_lower_cs :: "via_port \<Rightarrow> via_port" where "via_lower_cs = pa_trb 0x20"
definition via_raise_cs :: "via_port \<Rightarrow> via_port" where "via_raise_cs = pa_tsb 0x20"

section \<open>The loops\<close>

declare page_loop.simps [simp del]

lemma page_loop_fold: "page_loop act base y s = fold act [base + unat y ..< base + 256] s"
proof (induction act base y s rule: page_loop.induct)
  case (1 act base y s)
  have upt: "[base + unat y ..< base + 256] = (base + unat y) # [base + (unat y + 1) ..< base + 256]"
    using u8_bound [of y] by (simp add: upt_conv_Cons)
  show ?case
  proof (cases "y + 1 = 0")
    case True
    then have "unat y = 255" by (simp add: u8_inc_zero)
    then show ?thesis using True by (simp add: page_loop.simps [of act base y] upt_conv_Cons)
  next
    case False
    then show ?thesis using 1 [OF refl False] u8_inc_unat [OF False]
      by (simp only: page_loop.simps [of act base y] upt Let_def if_False fold.simps o_apply)
  qed
qed

lemma pages_loop_fold: "pages_loop act x base s = fold act [base ..< base + 256 * x] s"
proof (induction x arbitrary: base s)
  case (Suc x)
  have "[base ..< base + 256 * Suc x] = [base ..< base + 256] @ [base + 256 ..< base + 256 + 256 * x]"
    using upt_add_eq_append [of base "base + 256" "256 * x"] by (simp add: add.assoc)
  then show ?case by (simp only: pages_loop.simps Suc page_loop_fold unat_0 add_0_right fold_append o_apply)
qed simp

lemma rest_loop_fold: "rest_loop act x i s = fold act [i ..< i + x] s"
  by (induction x arbitrary: i s) (simp_all add: upt_conv_Cons del: upt_Suc)

lemma transfer_loops_fold: "transfer_loops act a x s = fold act [0 ..< unat a + 256 * unat x] s"
proof -
  have "[0 ..< unat a + 256 * unat x] = [0 ..< 256 * unat x] @ [256 * unat x ..< 256 * unat x + unat a]"
    using upt_add_eq_append [of 0 "256 * unat x" "unat a"] by (simp add: add.commute)
  then show ?thesis by (simp add: transfer_loops_def rest_loop_fold pages_loop_fold)
qed

section \<open>The pins\<close>

text \<open>
  Between two bytes the pins have their directions and the clock is low; within the pulse of a bit
  it is high.
\<close>

definition spi_pins :: "via_port \<Rightarrow> bool" where
  "spi_pins v \<longleftrightarrow> bit (pa_ddr v) 0 \<and> bit (pa_ddr v) 1 \<and> bit (pa_ddr v) 5 \<and> \<not> bit (pa_ddr v) 6"

definition spi_ready :: "via_port \<Rightarrow> bool" where
  "spi_ready v \<longleftrightarrow> spi_pins v \<and> \<not> bit (pa_latch v) 0"

definition mosi :: "via_port \<Rightarrow> bool" where
  "mosi v = bit (pa_latch v) 1"

definition cs :: "via_port \<Rightarrow> bool" where
  "cs v = bit (pa_latch v) 5"

text \<open>What the bus has seen: edges, data, and the chip select.\<close>

definition bus :: "via_port \<Rightarrow> (nat \<Rightarrow> bool) \<times> nat \<times> bool list \<times> bool" where
  "bus v = (miso v, sclk_falls v, mosi_log v, cs v)"

lemmas pin_defs = spi_pins_def spi_ready_def mosi_def cs_def bus_def sclk_def pa_set_def pa_rmw_def
  pa_tsb_def pa_trb_def pa_inc_def pa_dec_def pa_bit_def Let_def

lemma bit_pa_value [simp]: "bit (pa_ddr v) n \<Longrightarrow> bit (pa_value v) n = bit (pa_latch v) n"
  by (auto simp: pa_value_def bit_simps)

lemma u8_const_bits [simp]:
  "bit (2 :: u8) 0 = False" "bit (2 :: u8) (Suc 0) = True" "bit (2 :: u8) 5 = False"
  "bit (0x20 :: u8) 0 = False" "bit (0x20 :: u8) (Suc 0) = False" "bit (0x20 :: u8) 5 = True"
  "bit (0x40 :: u8) 6 = True" "bit (0xBF :: u8) 6 = False"
  by (simp_all add: bit_iff_odd_drop_bit drop_bit_eq_div)

lemma bit_pa_value_miso [simp]: "\<not> bit (pa_ddr v) 6 \<Longrightarrow> bit (pa_value v) 6 = miso v (sclk_falls v)"
  by (auto simp: pa_value_def bit_simps)

lemma u8_inc_bits:
  "\<not> bit (b :: u8) 0 \<Longrightarrow> bit (b + 1) n = (n = 0 \<or> bit b n)"
  using bit_or_iff [of b 1 n] by (auto simp: bit_0 or_one_eq bit_1_iff)

lemma u8_dec_bits:
  assumes "bit (b :: u8) 0" shows "bit (b - 1) n = (n \<noteq> 0 \<and> bit b n)"
proof -
  have "b - 1 = unset_bit 0 b" using assms minus_mod_eq_mult_div [of b 2]
    by (simp add: bit_0 odd_iff_mod_2_eq_one unset_bit_0)
  then show ?thesis by (auto simp: bit_simps)
qed

lemma pa_tsb_mosi:
  "spi_ready v \<Longrightarrow> spi_ready (pa_tsb 2 v) \<and> mosi (pa_tsb 2 v) \<and> bus (pa_tsb 2 v) = bus v"
  by (auto simp: pin_defs bit_simps)

lemma pa_trb_mosi:
  "spi_ready v \<Longrightarrow> spi_ready (pa_trb 2 v) \<and> \<not> mosi (pa_trb 2 v) \<and> bus (pa_trb 2 v) = bus v"
  by (auto simp: pin_defs bit_simps)

lemma via_raise_cs_bus:
  "spi_ready v \<Longrightarrow> spi_ready (via_raise_cs v) \<and> cs (via_raise_cs v) \<and>
     bus (via_raise_cs v) = (miso v, sclk_falls v, mosi_log v, True)"
  by (auto simp: via_raise_cs_def pin_defs bit_simps)

lemma via_lower_cs_bus:
  "spi_ready v \<Longrightarrow> spi_ready (via_lower_cs v) \<and> \<not> cs (via_lower_cs v) \<and>
     bus (via_lower_cs v) = (miso v, sclk_falls v, mosi_log v, False)"
  by (auto simp: via_lower_cs_def pin_defs bit_simps)

lemma pa_inc_pulse:
  assumes "spi_ready v"
  shows "spi_pins (pa_inc v)" "bit (pa_latch (pa_inc v)) 0" "mosi (pa_inc v) = mosi v"
    "bus (pa_inc v) = (miso v, sclk_falls v, mosi_log v @ [mosi v], cs v)"
  using assms by (auto simp: pin_defs u8_inc_bits bit_simps)

lemma pa_dec_pulse:
  assumes "spi_pins v" "bit (pa_latch v) 0"
  shows "spi_ready (pa_dec v)" "mosi (pa_dec v) = mosi v"
    "bus (pa_dec v) = (miso v, Suc (sclk_falls v), mosi_log v, cs v)"
  using assms by (auto simp: pin_defs u8_dec_bits bit_simps)

lemma pa_bit_pulse:
  assumes "spi_pins v"
  shows "fst (pa_bit v) = miso v (sclk_falls v)" "spi_pins (snd (pa_bit v))"
    "pa_latch (snd (pa_bit v)) = pa_latch v" "mosi (snd (pa_bit v)) = mosi v"
    "bus (snd (pa_bit v)) = bus v"
  using assms by (auto simp: pin_defs)

lemma bus_eq_iff:
  "bus v = (m, f, l, c) \<longleftrightarrow> miso v = m \<and> sclk_falls v = f \<and> mosi_log v = l \<and> cs v = c"
  by (simp add: bus_def)

lemma via_spi_init_ready: "spi_ready (via_spi_init v) \<and> cs (via_spi_init v)"
  by (auto simp: via_spi_init_def pin_defs bit_simps)

section \<open>Bytes on the bus\<close>

definition bits8 :: "u8 \<Rightarrow> bool list" where
  "bits8 b = map (\<lambda>i. bit b (7 - i)) [0 ..< 8]"

definition byte_of_bits :: "bool list \<Rightarrow> u8" where
  "byte_of_bits bs = foldl (\<lambda>r b. r + r + of_bool b) 0 bs"

lemma bit_u8_double: "bit (r + r :: u8) n \<longleftrightarrow> 0 < n \<and> n < 8 \<and> bit r (n - 1)"
proof -
  have "bit (r + r) n = bit (push_bit 1 r) n" by (simp add: push_bit_eq_mult mult.commute)
  also have "\<dots> \<longleftrightarrow> 0 < n \<and> n < 8 \<and> bit r (n - 1)" unfolding bit_push_bit_iff by auto
  finally show ?thesis .
qed

lemma bit_u8_twice: "bit (2 * r :: u8) n \<longleftrightarrow> 0 < n \<and> n < 8 \<and> bit r (n - 1)"
  using bit_u8_double [of r n] by (simp only: mult_2)

lemma asl_bits: "asl r = (r + r, bit r 7)"
proof -
  have "unat r div 128 < 2" using u8_bound [of r] by simp
  then have "odd (unat r div 128) \<longleftrightarrow> 128 \<le> unat r" by (cases "unat r div 128") auto
  moreover have "bit r 7 \<longleftrightarrow> odd (unat r div 128)"
    using bit_unsigned_iff [where w = r and n = 7 and ?'a = nat]
    by (simp add: bit_iff_odd [of "unat r"] possible_bit_def)
  ultimately show ?thesis by (simp add: asl_def rol_def word_le_nat_alt)
qed

lemma via_send_bits_bus:
  "spi_ready v \<Longrightarrow> x \<le> 8 \<Longrightarrow> spi_ready (via_send_bits x r v) \<and>
   bus (via_send_bits x r v) =
     (miso v, sclk_falls v + x, mosi_log v @ map (\<lambda>i. bit r (7 - i)) [0 ..< x], cs v)"
proof (induction x arbitrary: r v)
  case 0
  then show ?case by (simp add: bus_def)
next
  case (Suc x)
  define v0 where "v0 = (if bit r 7 then pa_tsb 2 v else pa_trb 2 v)"
  define v2 where "v2 = pa_dec (pa_inc v0)"
  have v0: "spi_ready v0" "mosi v0 = bit r 7" "bus v0 = bus v"
    using pa_tsb_mosi [OF Suc.prems(1)] pa_trb_mosi [OF Suc.prems(1)] by (auto simp: v0_def)
  have inc: "miso (pa_inc v0) = miso v" "sclk_falls (pa_inc v0) = sclk_falls v"
      "mosi_log (pa_inc v0) = mosi_log v @ [bit r 7]" "cs (pa_inc v0) = cs v"
    using pa_inc_pulse(4) [OF v0(1)] v0(2,3) by (auto simp: bus_def)
  have v2: "spi_ready v2" "miso v2 = miso v" "sclk_falls v2 = Suc (sclk_falls v)"
      "mosi_log v2 = mosi_log v @ [bit r 7]" "cs v2 = cs v"
    using pa_dec_pulse [OF pa_inc_pulse(1,2) [OF v0(1)]] unfolding v2_def inc
    by (auto simp: bus_def)
  have "map (\<lambda>i. bit r (7 - i)) [0 ..< Suc x] = bit r 7 # map (\<lambda>i. bit (r + r) (7 - i)) [0 ..< x]"
    using Suc.prems(2) by (auto simp: upt_conv_Cons map_Suc_upt [symmetric] bit_u8_twice simp del: upt_Suc)
  moreover have "via_send_bits (Suc x) r v = via_send_bits x (r + r) v2"
    by (simp add: asl_bits v2_def v0_def)
  ultimately show ?case using Suc.IH [OF v2(1), of "r + r"] Suc.prems(2) v2 by simp
qed

lemma via_receive_bits_bus:
  "spi_ready v \<Longrightarrow> mosi v \<Longrightarrow> via_receive_bits x r v = (r', v') \<Longrightarrow>
   spi_ready v' \<and> bus v' = (miso v, sclk_falls v + x, mosi_log v @ replicate x True, cs v) \<and>
   r' = foldl (\<lambda>r b. r + r + of_bool b) r (map (\<lambda>i. miso v (sclk_falls v + i)) [0 ..< x])"
proof (induction x arbitrary: r v)
  case 0
  then show ?case by (auto simp: bus_def)
next
  case (Suc x)
  let ?v1 = "snd (pa_bit (pa_inc v))"
  define v2 where "v2 = pa_dec ?v1"
  note inc = pa_inc_pulse [OF Suc.prems(1)]
  note rd = pa_bit_pulse [OF inc(1)]
  have v1: "spi_pins ?v1" "bit (pa_latch ?v1) 0" using rd inc(2) by simp_all
  have v2: "spi_ready v2" "mosi v2" "miso v2 = miso v" "sclk_falls v2 = Suc (sclk_falls v)"
      "mosi_log v2 = mosi_log v @ [True]" "cs v2 = cs v"
    using pa_dec_pulse [OF v1] inc rd Suc.prems(2) unfolding v2_def by (auto simp: bus_def)
  have b: "fst (pa_bit (pa_inc v)) = miso v (sclk_falls v)"
    using rd(1) inc(4) by (simp add: bus_def)
  have run: "via_receive_bits x (r + r + of_bool (miso v (sclk_falls v))) v2 = (r', v')"
    using Suc.prems(3) b by (auto simp: v2_def asl_bits split_beta Let_def split: if_splits)
  have "map (\<lambda>i. miso v (sclk_falls v + i)) [0 ..< Suc x] =
      miso v (sclk_falls v) # map (\<lambda>i. miso v (Suc (sclk_falls v) + i)) [0 ..< x]"
    by (simp add: upt_conv_Cons map_Suc_upt [symmetric] comp_def del: upt_Suc)
  then show ?case using Suc.IH [OF v2(1,2) run] v2 by (simp del: upt_Suc)
qed

lemma bit_horner: "bit (r + r + of_bool b :: u8) n \<longleftrightarrow> (if n = 0 then b else n < 8 \<and> bit r (n - 1))"
  using u8_inc_bits [of "r + r" n] by (cases b) (auto simp: bit_u8_twice)

lemma bits8_byte_of_bits:
  assumes "length bs = 8" shows "bits8 (byte_of_bits bs) = bs"
proof -
  have "\<exists>a b c d e f g h. bs = [a, b, c, d, e, f, g, h]"
    using assms by (auto simp: numeral_eq_Suc length_Suc_conv)
  then obtain a b c d e f g h where bs: "bs = [a, b, c, d, e, f, g, h]" by blast
  have "[0 ..< 8] = [0, 1, 2, 3, 4, 5, 6, 7 :: nat]" by (simp add: upt_rec)
  then show ?thesis unfolding bs bits8_def byte_of_bits_def
    by (simp only: foldl.simps list.map bit_horner) simp
qed

lemma via_send_byte_bus:
  assumes "spi_ready v"
  shows "spi_ready (via_send_byte a v)"
    "bus (via_send_byte a v) = (miso v, sclk_falls v + 8, mosi_log v @ bits8 a, cs v)"
  using via_send_bits_bus [OF assms, of 8 a] by (simp_all add: via_send_byte_def bits8_def)

text \<open>The byte that the card sends in the eight clock periods from \<open>f\<close> on.\<close>

definition miso_byte :: "(nat \<Rightarrow> bool) \<Rightarrow> nat \<Rightarrow> u8" where
  "miso_byte m f = byte_of_bits (map (\<lambda>i. m (f + i)) [0 ..< 8])"

lemma bits8_miso_byte: "bits8 (miso_byte m f) = map (\<lambda>i. m (f + i)) [0 ..< 8]"
  unfolding miso_byte_def by (rule bits8_byte_of_bits) simp

lemma bits8_FF: "bits8 0xFF = replicate 8 True"
proof -
  have "0xFF = byte_of_bits (replicate 8 True)" by (simp add: byte_of_bits_def numeral_eq_Suc)
  then show ?thesis using bits8_byte_of_bits [of "replicate 8 True"] by simp
qed

lemma via_receive_byte_bus:
  assumes "spi_ready v"
  shows "spi_ready (snd (via_receive_byte v))" "fst (via_receive_byte v) = miso_byte (miso v) (sclk_falls v)"
    "bus (snd (via_receive_byte v)) = (miso v, sclk_falls v + 8, mosi_log v @ bits8 0xFF, cs v)"
proof -
  obtain r' v' where r: "via_receive_bits 8 0 (pa_tsb 2 v) = (r', v')"
    by (cases "via_receive_bits 8 0 (pa_tsb 2 v)")
  have t: "spi_ready (pa_tsb 2 v)" "mosi (pa_tsb 2 v)" "bus (pa_tsb 2 v) = bus v"
    using pa_tsb_mosi [OF assms] by simp_all
  note via_receive_bits_bus [OF t(1,2) r]
  then show "spi_ready (snd (via_receive_byte v))"
    "fst (via_receive_byte v) = miso_byte (miso v) (sclk_falls v)"
    "bus (snd (via_receive_byte v)) = (miso v, sclk_falls v + 8, mosi_log v @ bits8 0xFF, cs v)"
    using t(3) by (auto simp: via_receive_byte_def r miso_byte_def byte_of_bits_def bits8_FF bus_def)
qed

section \<open>Blocks on the bus\<close>

lemma send_fold_bus:
  fixes data :: "nat \<Rightarrow> u8"
  assumes "spi_ready v"
  defines "w k \<equiv> fold (\<lambda>i. via_send_byte (data i)) [0 ..< k] v"
  shows "spi_ready (w k) \<and> bus (w k) =
    (miso v, sclk_falls v + 8 * k, mosi_log v @ concat (map (\<lambda>i. bits8 (data i)) [0 ..< k]), cs v)"
proof (induction k)
  case 0
  show ?case using assms(1) by (simp add: w_def bus_def)
next
  case (Suc k)
  have "w (Suc k) = via_send_byte (data k) (w k)" by (simp add: w_def)
  then show ?case using Suc via_send_byte_bus [of "w k" "data k"] by (simp add: bus_eq_iff)
qed

lemma concat_replicate_Suc: "concat (replicate (Suc k) xs) = concat (replicate k xs) @ xs"
  by (induction k) simp_all

lemma receive_fold_bus:
  fixes mem :: "nat \<Rightarrow> u8"
  assumes "spi_ready v"
  defines "w k \<equiv> fold (\<lambda>i (mem, v). let (b, v1) = via_receive_byte v in (mem(i := b), v1)) [0 ..< k] (mem, v)"
  shows "spi_ready (snd (w k)) \<and> bus (snd (w k)) =
      (miso v, sclk_falls v + 8 * k, mosi_log v @ concat (replicate k (bits8 0xFF)), cs v) \<and>
    fst (w k) = (\<lambda>i. if i < k then miso_byte (miso v) (sclk_falls v + 8 * i) else mem i)"
proof (induction k)
  case 0
  show ?case using assms(1) by (simp add: w_def bus_def)
next
  case (Suc k)
  have "w (Suc k) = ((fst (w k))(k := fst (via_receive_byte (snd (w k)))), snd (via_receive_byte (snd (w k))))"
    by (simp add: w_def split_beta Let_def)
  then show ?case using Suc via_receive_byte_bus [of "snd (w k)"]
    by (auto simp: bus_eq_iff concat_replicate_Suc simp del: replicate_Suc)
qed

lemma blank_fold_receive:
  "fold (\<lambda>i v. snd (via_receive_byte v)) is v =
   snd (fold (\<lambda>i (mem, v). let (b, v1) = via_receive_byte v in (mem(i := b), v1)) is (mem, v))"
  by (induction "is" arbitrary: v mem) (simp_all add: split_beta Let_def)

lemma via_spi_send_bus:
  assumes "spi_ready v" "n = unat a + 256 * unat x"
  shows "spi_ready (via_spi_send data a x v)" "bus (via_spi_send data a x v) =
    (miso v, sclk_falls v + 8 * n, mosi_log v @ concat (map (\<lambda>i. bits8 (data i)) [0 ..< n]), cs v)"
  using send_fold_bus [OF assms(1)] assms(2)
  by (simp_all add: via_spi_send_def transfer_loops_fold)

lemma via_spi_receive_bus:
  assumes "spi_ready v" "n = unat a + 256 * unat x"
  shows "spi_ready (snd (via_spi_receive a x (mem, v)))"
    "bus (snd (via_spi_receive a x (mem, v))) =
      (miso v, sclk_falls v + 8 * n, mosi_log v @ concat (replicate n (bits8 0xFF)), cs v)"
    "fst (via_spi_receive a x (mem, v)) =
      (\<lambda>i. if i < n then miso_byte (miso v) (sclk_falls v + 8 * i) else mem i)"
  using receive_fold_bus [OF assms(1)] assms(2)
  by (simp_all add: via_spi_receive_def transfer_loops_fold)

lemma via_spi_blank_receive: "via_spi_blank a x v = snd (via_spi_receive a x (mem, v))"
  unfolding via_spi_blank_def via_spi_receive_def transfer_loops_fold by (rule blank_fold_receive)

section \<open>The byte-wide interface\<close>

text \<open>
  The calls that the SD card driver makes, on the pins and on the interface of theory
  \<^verbatim>\<open>Sdcard\<close>. A call gives the list of bytes that its caller sees; a size is passed in the registers
  A and X.
\<close>

datatype spi_op =
    Receive_byte
  | Receive nat
  | Blank nat
  | Send sd_card_command
  | Raise_cs
  | Lower_cs

abbreviation (input) cc_bytes :: "sd_card_command \<Rightarrow> u8 list" where
  "cc_bytes c \<equiv> cc_cmd c # cc_arg_bytes c @ [cc_crc c]"

fun via_op :: "spi_op \<Rightarrow> via_port \<Rightarrow> u8 list \<times> via_port" where
  "via_op Receive_byte v = (let (b, v1) = via_receive_byte v in ([b], v1))"
| "via_op (Receive n) v =
     (let (mem, v1) = via_spi_receive (of_nat (n mod 256)) (of_nat (n div 256)) (\<lambda>i. 0, v) in
      (map mem [0 ..< n], v1))"
| "via_op (Blank n) v = ([], via_spi_blank (of_nat (n mod 256)) (of_nat (n div 256)) v)"
| "via_op (Send c) v =
     ([], via_spi_send (\<lambda>i. cc_bytes c ! i) (of_nat (length (cc_bytes c))) 0 v)"
| "via_op Raise_cs v = ([], via_raise_cs v)"
| "via_op Lower_cs v = ([], via_lower_cs v)"

fun byte_op :: "spi_op \<Rightarrow> sdcard \<Rightarrow> u8 list \<times> sdcard" where
  "byte_op Receive_byte d = (let (b, d1) = spi_receive_byte d in ([b], d1))"
| "byte_op (Receive n) d = spi_receive n d"
| "byte_op (Blank n) d = ([], spi_blank n d)"
| "byte_op (Send c) d = ([], spi_send c d)"
| "byte_op Raise_cs d = ([], spi_sdcard_raise_cs d)"
| "byte_op Lower_cs d = ([], spi_sdcard_lower_cs d)"

fun run_ops :: "(spi_op \<Rightarrow> 's \<Rightarrow> u8 list \<times> 's) \<Rightarrow> spi_op list \<Rightarrow> 's \<Rightarrow> u8 list list \<times> 's" where
  "run_ops step [] s = ([], s)"
| "run_ops step (op # ops) s =
     (let (r, s1) = step op s; (rs, s2) = run_ops step ops s1 in (r # rs, s2))"

text \<open>How many bytes a call takes from the card, and the bytes that it puts on the wire.\<close>

fun op_reads :: "spi_op \<Rightarrow> nat" where
  "op_reads Receive_byte = 1"
| "op_reads (Receive n) = n"
| "op_reads (Blank n) = n"
| "op_reads _ = 0"

fun op_wire :: "spi_op \<Rightarrow> u8 list" where
  "op_wire (Send c) = cc_bytes c"
| "op_wire op = replicate (op_reads op) 0xFF"

fun op_ok :: "spi_op \<Rightarrow> bool" where
  "op_ok (Receive n) = (n < 65536)"
| "op_ok (Blank n) = (n < 65536)"
| "op_ok (Send c) = (length (cc_arg_bytes c) = 4)"
| "op_ok _ = True"

text \<open>The bytes that the card sends during the receiving calls of a run, from its data line.\<close>

fun rx_bytes :: "(nat \<Rightarrow> bool) \<Rightarrow> nat \<Rightarrow> spi_op list \<Rightarrow> u8 list" where
  "rx_bytes m f [] = []"
| "rx_bytes m f (op # ops) =
     map (\<lambda>i. miso_byte m (f + 8 * i)) [0 ..< op_reads op] @
     rx_bytes m (f + 8 * length (op_wire op)) ops"

lemma size_in_registers:
  "n < 65536 \<Longrightarrow> unat (of_nat (n mod 256) :: u8) + 256 * unat (of_nat (n div 256) :: u8) = n"
  by (simp add: unat_of_nat)

lemma spi_receive_stream:
  "spi_receive n d = (map (\<lambda>i. spi_rx d (spi_pos d + i)) [0 ..< n], d\<lparr>spi_pos := spi_pos d + n\<rparr>)"
  by (induction n arbitrary: d)
     (simp_all add: spi_receive_byte_def upt_conv_Cons map_Suc_upt [symmetric] comp_def del: upt_Suc)

lemma concat_bits_FF: "concat (replicate n (bits8 0xFF)) = concat (map bits8 (replicate n 0xFF))"
  by simp

lemma map_nth_comp: "map (\<lambda>i. f (xs ! i)) [0 ..< length xs] = map f xs"
  by (rule nth_equalityI) auto

text \<open>One call does the same on both levels.\<close>

fun op_cs :: "spi_op \<Rightarrow> bool \<Rightarrow> bool" where
  "op_cs Raise_cs c = True"
| "op_cs Lower_cs c = False"
| "op_cs _ c = c"

lemma via_op_bus:
  assumes "spi_ready v" "op_ok op"
  shows "spi_ready (snd (via_op op v)) \<and> bus (snd (via_op op v)) =
    (miso v, sclk_falls v + 8 * length (op_wire op),
     mosi_log v @ concat (map bits8 (op_wire op)), op_cs op (cs v))"
proof (cases op)
  case Receive_byte
  then show ?thesis using via_receive_byte_bus [OF assms(1)] by (simp add: split_beta Let_def)
next
  case (Receive n)
  then show ?thesis
    using via_spi_receive_bus [OF assms(1) size_in_registers [of n, symmetric]] assms(2)
    by (simp add: split_beta Let_def)
next
  case (Blank n)
  then show ?thesis
    using via_spi_receive_bus [OF assms(1) size_in_registers [of n, symmetric]] assms(2)
    by (simp add: via_spi_blank_receive [where mem = "\<lambda>i. 0"])
next
  case (Send c)
  define bs where "bs = cc_bytes c"
  have n: "length bs = unat (of_nat (length bs) :: u8) + 256 * unat (0 :: u8)"
    using assms(2) Send by (simp add: bs_def)
  show ?thesis using via_spi_send_bus [OF assms(1) n, of "\<lambda>i. bs ! i"] Send
    by (simp add: map_nth_comp flip: bs_def)
qed (use assms(1) via_raise_cs_bus via_lower_cs_bus in auto)

lemma via_op_result:
  assumes "spi_ready v" "op_ok op"
  shows "fst (via_op op v) =
    (case op of Receive_byte \<Rightarrow> [miso_byte (miso v) (sclk_falls v)]
     | Receive n \<Rightarrow> map (\<lambda>i. miso_byte (miso v) (sclk_falls v + 8 * i)) [0 ..< n] | _ \<Rightarrow> [])"
proof (cases op)
  case (Receive n)
  then show ?thesis
    using via_spi_receive_bus(3) [OF assms(1) size_in_registers [of n, symmetric], of "\<lambda>i. 0"] assms(2)
    by (simp add: split_beta Let_def)
qed (use via_receive_byte_bus(2) [OF assms(1)] in \<open>simp_all add: split_beta Let_def\<close>)

lemma byte_op_result:
  "fst (byte_op op d) =
    (case op of Receive_byte \<Rightarrow> [spi_rx d (spi_pos d)]
     | Receive n \<Rightarrow> map (\<lambda>i. spi_rx d (spi_pos d + i)) [0 ..< n] | _ \<Rightarrow> [])"
  by (cases op) (simp_all add: spi_receive_byte_def spi_receive_stream)

lemma byte_op_state:
  "spi_cs (snd (byte_op op d)) = op_cs op (spi_cs d)" "spi_rx (snd (byte_op op d)) = spi_rx d"
  "spi_pos (snd (byte_op op d)) = spi_pos d + op_reads op"
  by (cases op; simp add: spi_receive_byte_def spi_receive_stream spi_blank_def spi_send_def
        spi_sdcard_raise_cs_def spi_sdcard_lower_cs_def)+

text \<open>
  C14. The assembly of the SPI bus implements the byte-wide interface on which the SD card driver is
  verified. From a state with the clock low, take any sequence of the driver's calls, and any
  driver state whose input stream holds the bytes that the card's data line carries, most significant
  bit first, in the clock periods of the receiving calls. Then every call returns the same bytes on the
  pins and on the interface; the chip select agrees afterwards; the card has been clocked exactly
  the bytes of the calls, most significant bit first (\<open>0xFF\<close> for a byte that is received); and the
  clock is low again. The size of a block is the 16-bit number in the registers X and A.
\<close>

theorem spi_pins_refine_bytes:
  assumes "spi_ready v" "list_all op_ok ops" "spi_cs d = cs v"
    "\<forall>i<length (rx_bytes (miso v) (sclk_falls v) ops).
       spi_rx d (spi_pos d + i) = rx_bytes (miso v) (sclk_falls v) ops ! i"
  shows "fst (run_ops via_op ops v) = fst (run_ops byte_op ops d) \<and>
    cs (snd (run_ops via_op ops v)) = spi_cs (snd (run_ops byte_op ops d)) \<and>
    mosi_log (snd (run_ops via_op ops v)) = mosi_log v @ concat (map bits8 (concat (map op_wire ops))) \<and>
    spi_ready (snd (run_ops via_op ops v))"
  using assms
proof (induction ops arbitrary: v d)
  case (Cons op ops)
  let ?v1 = "snd (via_op op v)" and ?d1 = "snd (byte_op op d)"
  let ?here = "map (\<lambda>i. miso_byte (miso v) (sclk_falls v + 8 * i)) [0 ..< op_reads op]"
  let ?rest = "rx_bytes (miso v) (sclk_falls v + 8 * length (op_wire op)) ops"
  have v1: "spi_ready ?v1" "miso ?v1 = miso v" "sclk_falls ?v1 = sclk_falls v + 8 * length (op_wire op)"
      "mosi_log ?v1 = mosi_log v @ concat (map bits8 (op_wire op))" "cs ?v1 = op_cs op (cs v)"
    using via_op_bus [of v op] Cons.prems(1,2) by (simp_all add: bus_eq_iff)
  have rx: "spi_rx d (spi_pos d + i) = (?here @ ?rest) ! i" if "i < op_reads op + length ?rest" for i
    using Cons.prems(4) that by simp
  have here: "spi_rx d (spi_pos d + i) = miso_byte (miso v) (sclk_falls v + 8 * i)" if "i < op_reads op" for i
    using rx [of i] that by (simp add: nth_append)
  have "\<forall>i<length ?rest. spi_rx ?d1 (spi_pos ?d1 + i) = ?rest ! i"
    using rx [of "op_reads op + i" for i] by (simp add: byte_op_state nth_append add.assoc)
  then have IH: "fst (run_ops via_op ops ?v1) = fst (run_ops byte_op ops ?d1)"
      "cs (snd (run_ops via_op ops ?v1)) = spi_cs (snd (run_ops byte_op ops ?d1))"
      "mosi_log (snd (run_ops via_op ops ?v1)) = mosi_log ?v1 @ concat (map bits8 (concat (map op_wire ops)))"
      "spi_ready (snd (run_ops via_op ops ?v1))"
    using Cons.IH [OF v1(1), of ?d1] Cons.prems(2,3) v1 by (simp_all add: byte_op_state)
  have "fst (via_op op v) = fst (byte_op op d)"
    using via_op_result [of v op] Cons.prems(1,2) byte_op_result [of op d] here
    by (cases op) simp_all
  then show ?case using IH v1(4) by (simp add: split_beta Let_def)
qed simp

definition idle_port :: via_port where
  "idle_port = via_spi_init \<lparr>pa_latch = 0, pa_ddr = 0, pa_pins = (\<lambda>i. 0), pa_reads = 0,
     miso = (\<lambda>i. True), sclk_falls = 0, mosi_log = []\<rparr>"

lemma idle_port_bus: "bus idle_port = (\<lambda>i. True, 0, [], True)"
  by (auto simp: idle_port_def via_spi_init_def pin_defs bit_simps)

theorem spi_pins_refine_bytes_witness:
  "fst (run_ops via_op [Lower_cs, Receive_byte, Raise_cs] idle_port) =
     fst (run_ops byte_op [Lower_cs, Receive_byte, Raise_cs] test_sd) \<and>
   mosi_log (snd (run_ops via_op [Lower_cs, Receive_byte, Raise_cs] idle_port)) = replicate 8 True"
proof -
  have d: "spi_cs test_sd" "spi_rx test_sd = (\<lambda>_. 0xFF)" by (simp_all add: test_sd_def)
  have p: "spi_ready idle_port" "cs idle_port" "miso idle_port = (\<lambda>i. True)" "mosi_log idle_port = []"
    using idle_port_bus via_spi_init_ready by (simp_all add: bus_def idle_port_def)
  have "miso_byte (\<lambda>i. True) f = 0xFF" for f
    by (simp add: miso_byte_def byte_of_bits_def upt_rec)
  then show ?thesis
    using spi_pins_refine_bytes [of idle_port "[Lower_cs, Receive_byte, Raise_cs]" test_sd] d p bits8_FF
    by simp
qed

end
