(* ===== verification/Switcher.thy ===== *)
theory Switcher
  imports Asm6502
begin

text \<open>
  The context switch, \<^verbatim>\<open>os/switcher.S\<close>, on the bytes of the process blocks, the return stack in page
  one and the imaginary registers. The layout of a block is that of \<^verbatim>\<open>struct proc_context\<close>: the
  stack pointer at offset 0, the value of A:X at 1 and 2, the saved stack from 3 on, the kernel
  data stack pointer at 67 and 68 and the saved registers from 69 on. Blocks are separate objects;
  a read below page one, which happens only when the stack pointer has wrapped, gives no result.
\<close>

lemma u8_below_67: "\<not> 67 \<le> (y :: u8) \<Longrightarrow> unat y < 67 \<and> unat (y + 1) = unat y + 1"
  by (auto simp: word_le_nat_alt unat_word_ariths(1))

lemma swap_measure: "\<not> 67 \<le> (y :: u8) \<Longrightarrow> 67 - unat (y + 1) < 67 - unat y"
  using u8_below_67 [of y] by linarith

section \<open>The machine\<close>

abbreviation (input) RETURN_STACK_SIZE :: nat where "RETURN_STACK_SIZE \<equiv> 64"

record machine =
  blk :: "u16 \<Rightarrow> nat \<Rightarrow> u8"
  stk :: "u8 \<Rightarrow> u8"
  mS :: u8
  rc :: "nat \<Rightarrow> u8"
  cur :: u16
  in_kernel :: u8

definition pair16 :: "u8 \<Rightarrow> u8 \<Rightarrow> u16" where
  "pair16 lo hi = of_nat (unat lo + 256 * unat hi)"

definition push :: "u8 \<Rightarrow> machine \<Rightarrow> machine" where
  "push b m = m\<lparr>stk := (stk m)(mS m := b), mS := mS m - 1\<rparr>"

definition blk_get :: "u8 \<Rightarrow> machine \<Rightarrow> u8" where
  "blk_get y m = blk m (cur m) (unat y)"

definition blk_put :: "u8 \<Rightarrow> u8 \<Rightarrow> machine \<Rightarrow> machine" where
  "blk_put y b m = m\<lparr>blk := (blk m)(cur m := (blk m (cur m))(unat y := b))\<rparr>"

text \<open>\<^verbatim>\<open>rts\<close> and \<^verbatim>\<open>rti\<close>: the address where execution goes on and the machine there.\<close>

definition rts :: "machine \<Rightarrow> u16 \<times> machine" where
  "rts m = (pair16 (stk m (mS m + 1)) (stk m (mS m + 2)) + 1, m\<lparr>mS := mS m + 2\<rparr>)"

definition rti :: "machine \<Rightarrow> u16 \<times> machine" where
  "rti m = (pair16 (stk m (mS m + 2)) (stk m (mS m + 3)), m\<lparr>mS := mS m + 3\<rparr>)"

section \<open>Swapping out\<close>

text \<open>The stack is copied from byte \<open>y\<close> of the block on; the result is the final \<open>y\<close>.\<close>

function swap_out_ustack :: "u8 \<Rightarrow> machine \<Rightarrow> (u8 \<times> machine) option" where
  "swap_out_ustack y m =
     (if of_nat (RETURN_STACK_SIZE + 3) \<le> y then Some (y, m)
      else if y < 3 then None
      else swap_out_ustack (y + 1) (blk_put y (stk m (y - 3)) m))"
  by pat_completeness auto
termination
  by (relation "measure (\<lambda>(y, m). RETURN_STACK_SIZE + 3 - unat y)") (use swap_measure in auto)

fun swap_imag_regs :: "nat \<Rightarrow> nat \<Rightarrow> u8 \<Rightarrow> machine \<Rightarrow> machine" where
  "swap_imag_regs 0 x y m = m"
| "swap_imag_regs (Suc n) x y m =
     swap_imag_regs n (x + 1) (y + 1) (m\<lparr>rc := (rc m)(12 + x := blk_get (y + 1) m)\<rparr>)"

definition swap_out_old :: "u16 \<Rightarrow> u8 \<Rightarrow> machine \<Rightarrow> machine option" where
  "swap_out_old ret flags m =
     (let m1 = push flags (push (ucast ret) (push (ucast (drop_bit 8 ret)) m));
          m2 = blk_put 0 (mS m1) m1 in
      do { (y, m3) \<leftarrow> swap_out_ustack (mS m2 + 4) m2;
           let m4 = blk_put (y + 1) (rc m3 1) (blk_put y (rc m3 0) m3);
           Some (swap_imag_regs 12 0 (y + 1) m4) })"

section \<open>Swapping in\<close>

function swap_in_ustack :: "u8 \<Rightarrow> machine \<Rightarrow> (u8 \<times> machine) option" where
  "swap_in_ustack y m =
     (if of_nat (RETURN_STACK_SIZE + 3) \<le> y then Some (y, m)
      else if y < 3 then None
      else swap_in_ustack (y + 1) (m\<lparr>stk := (stk m)(y - 3 := blk_get y m)\<rparr>))"
  by pat_completeness auto
termination
  by (relation "measure (\<lambda>(y, m). RETURN_STACK_SIZE + 3 - unat y)") (use swap_measure in auto)

definition swap_in_kstack :: "u8 \<Rightarrow> machine \<Rightarrow> machine" where
  "swap_in_kstack y m =
     (if blk_get (y + 1) m = 0 \<and> blk_get y m = 0 then
        blk_put (y + 1) (rc m 1) (blk_put y (rc m 0) m)
      else
        swap_imag_regs 12 0 (y + 1)
          (m\<lparr>rc := (rc m)(0 := blk_get y m, 1 := blk_get (y + 1) m)\<rparr>))"

definition swap_in_new :: "machine \<Rightarrow> ((u8 \<times> u8) \<times> u16 \<times> machine) option" where
  "swap_in_new m =
     (let m1 = m\<lparr>cur := pair16 (rc m 2) (rc m 3)\<rparr> in
      do { (y, m2) \<leftarrow> swap_in_ustack (blk_get 0 m1 + 4) m1;
           let m3 = swap_in_kstack y m2;
           let m4 = m3\<lparr>mS := blk_get 0 m3\<rparr>;
           Some ((blk_get 1 m4, blk_get 2 m4), rti (m4\<lparr>in_kernel := in_kernel m4 - 1\<rparr>)) })"

text \<open>
  \<open>proc_switch_to ret flags m\<close> gives the values of A and X and the place where execution goes on;
  \<open>ret\<close> is the address of the label \<^verbatim>\<open>.Lswap_in_return\<close> and \<open>flags\<close> the processor status.
\<close>

definition proc_switch_to :: "u16 \<Rightarrow> u8 \<Rightarrow> machine \<Rightarrow> ((u8 \<times> u8) \<times> u16 \<times> machine) option" where
  "proc_switch_to ret flags m =
     (if pair16 (rc m 2) (rc m 3) = cur m then Some ((blk_get 1 m, blk_get 2 m), rts m)
      else if cur m = 0 then swap_in_new m
      else Option.bind (swap_out_old ret flags m) swap_in_new)"

definition swap_in_return :: "machine \<Rightarrow> u16 \<times> machine" where
  "swap_in_return m = rts (m\<lparr>in_kernel := in_kernel m + 1\<rparr>)"

definition sched_start :: "machine \<Rightarrow> machine" where
  "sched_start m = m\<lparr>mS := of_nat RETURN_STACK_SIZE, in_kernel := in_kernel m + 1\<rparr>"

declare swap_out_ustack.simps [simp del] swap_in_ustack.simps [simp del]

section \<open>The copies\<close>

text \<open>A block with the bytes from \<open>y\<close> up to the end of the saved stack taken from the stack.\<close>

definition with_stack :: "nat \<Rightarrow> (u8 \<Rightarrow> u8) \<Rightarrow> (nat \<Rightarrow> u8) \<Rightarrow> nat \<Rightarrow> u8" where
  "with_stack y st b i = (if y \<le> i \<and> i < 67 then st (of_nat (i - 3)) else b i)"

definition from_block :: "nat \<Rightarrow> (nat \<Rightarrow> u8) \<Rightarrow> (u8 \<Rightarrow> u8) \<Rightarrow> u8 \<Rightarrow> u8" where
  "from_block y b st k = (if y \<le> unat k + 3 \<and> unat k < 64 then b (unat k + 3) else st k)"

lemma with_stack_end: "with_stack 67 st b = b" and from_block_end: "from_block 67 b st = st"
  by (auto simp: with_stack_def from_block_def fun_eq_iff)

lemma unat_eq_67: "unat (y :: u8) = 67 \<longleftrightarrow> y = 67"
  using word_unat_eq_iff [of y 67] by simp

lemma swap_out_ustack_copy:
  "3 \<le> unat y \<Longrightarrow> unat y \<le> 67 \<Longrightarrow>
   swap_out_ustack y m =
     Some (67, m\<lparr>blk := (blk m)(cur m := with_stack (unat y) (stk m) (blk m (cur m)))\<rparr>)"
proof (induction y m rule: swap_out_ustack.induct)
  case (1 y m)
  show ?case
  proof (cases "67 \<le> y")
    case True
    then have "y = 67" using 1(3) by (simp add: word_le_nat_alt flip: unat_eq_67)
    then show ?thesis by (simp add: swap_out_ustack.simps [of 67] with_stack_end)
  next
    case False
    note y = u8_below_67 [OF False]
    have ge: "\<not> y < 3" using 1(2) by (simp add: word_less_nat_alt)
    define m1 where "m1 = blk_put y (stk m (y - 3)) m"
    have sub: "of_nat (unat y - 3) = y - 3" using 1(2) by (simp add: of_nat_diff)
    have ws: "with_stack (unat y + 1) (stk m) ((blk m (cur m))(unat y := stk m (y - 3))) =
        with_stack (unat y) (stk m) (blk m (cur m))"
      using y sub by (auto simp: with_stack_def fun_eq_iff)
    have "swap_out_ustack y m = swap_out_ustack (y + 1) m1"
      using False ge by (simp add: swap_out_ustack.simps [of y] m1_def)
    also have "\<dots> = Some (67, m1\<lparr>blk := (blk m1)(cur m1 := with_stack (unat (y + 1)) (stk m1) (blk m1 (cur m1)))\<rparr>)"
      unfolding m1_def by (rule 1(1)) (use False ge y 1(2) in simp_all)
    also have "m1\<lparr>blk := (blk m1)(cur m1 := with_stack (unat (y + 1)) (stk m1) (blk m1 (cur m1)))\<rparr> =
        m\<lparr>blk := (blk m)(cur m := with_stack (unat y) (stk m) (blk m (cur m)))\<rparr>"
      using ws y by (simp add: m1_def blk_put_def fun_upd_same del: fun_upd_apply)
    finally show ?thesis .
  qed
qed

lemma swap_in_ustack_copy:
  "3 \<le> unat y \<Longrightarrow> unat y \<le> 67 \<Longrightarrow>
   swap_in_ustack y m = Some (67, m\<lparr>stk := from_block (unat y) (blk m (cur m)) (stk m)\<rparr>)"
proof (induction y m rule: swap_in_ustack.induct)
  case (1 y m)
  show ?case
  proof (cases "67 \<le> y")
    case True
    then have "y = 67" using 1(3) by (simp add: word_le_nat_alt flip: unat_eq_67)
    then show ?thesis by (simp add: swap_in_ustack.simps [of 67] from_block_end)
  next
    case False
    note y = u8_below_67 [OF False]
    have ge: "\<not> y < 3" using 1(2) by (simp add: word_less_nat_alt)
    have k: "unat k = unat y - 3 \<longleftrightarrow> k = y - 3" for k
      using 1(2) by (auto simp: unat_sub word_le_nat_alt word_unat_eq_iff)
    define m1 where "m1 = m\<lparr>stk := (stk m)(y - 3 := blk_get y m)\<rparr>"
    have fb: "from_block (unat y + 1) (blk m (cur m)) ((stk m)(y - 3 := blk m (cur m) (unat y))) =
        from_block (unat y) (blk m (cur m)) (stk m)"
    proof
      fix j
      show "from_block (unat y + 1) (blk m (cur m)) ((stk m)(y - 3 := blk m (cur m) (unat y))) j =
          from_block (unat y) (blk m (cur m)) (stk m) j"
        using y 1(2) k [of j] by (cases "j = y - 3") (auto simp: from_block_def)
    qed
    have "swap_in_ustack y m = swap_in_ustack (y + 1) m1"
      using False ge by (simp add: swap_in_ustack.simps [of y] m1_def)
    also have "\<dots> = Some (67, m1\<lparr>stk := from_block (unat (y + 1)) (blk m1 (cur m1)) (stk m1)\<rparr>)"
      unfolding m1_def by (rule 1(1)) (use False ge y 1(2) in simp_all)
    also have "m1\<lparr>stk := from_block (unat (y + 1)) (blk m1 (cur m1)) (stk m1)\<rparr> =
        m\<lparr>stk := from_block (unat y) (blk m (cur m)) (stk m)\<rparr>"
      using fb y by (simp add: m1_def blk_get_def del: fun_upd_apply)
    finally show ?thesis .
  qed
qed

text \<open>The registers from RC12 on, \<open>n\<close> of them, taken from the block after offset \<open>y\<close>.\<close>

definition with_regs :: "nat \<Rightarrow> nat \<Rightarrow> nat \<Rightarrow> (nat \<Rightarrow> u8) \<Rightarrow> (nat \<Rightarrow> u8) \<Rightarrow> nat \<Rightarrow> u8" where
  "with_regs n x y b r i = (if 12 + x \<le> i \<and> i < 12 + x + n then b (y + (i - (11 + x))) else r i)"

lemma swap_imag_regs_copy:
  "n + unat y < 256 \<Longrightarrow>
   swap_imag_regs n x y m = m\<lparr>rc := with_regs n x (unat y) (blk m (cur m)) (rc m)\<rparr>"
proof (induction n arbitrary: x y m)
  case 0
  have "with_regs 0 x (unat y) (blk m (cur m)) (rc m) = rc m" by (auto simp: with_regs_def fun_eq_iff)
  then show ?case by simp
next
  case (Suc n)
  define m1 where "m1 = m\<lparr>rc := (rc m)(12 + x := blk_get (y + 1) m)\<rparr>"
  have y: "unat (y + 1) = unat y + 1" using Suc.prems by (intro u8_inc_unat) (auto simp: u8_inc_zero)
  have "with_regs n (x + 1) (unat y + 1) (blk m (cur m)) ((rc m)(12 + x := blk m (cur m) (unat y + 1))) =
      with_regs (Suc n) x (unat y) (blk m (cur m)) (rc m)"
    by (auto simp: with_regs_def fun_eq_iff intro!: arg_cong [where f = "blk m (cur m)"])
  then have "m1\<lparr>rc := with_regs n (x + 1) (unat (y + 1)) (blk m1 (cur m1)) (rc m1)\<rparr> =
      m\<lparr>rc := with_regs (Suc n) x (unat y) (blk m (cur m)) (rc m)\<rparr>"
    using y by (simp add: m1_def blk_get_def del: fun_upd_apply)
  moreover have "swap_imag_regs (Suc n) x y m = swap_imag_regs n (x + 1) (y + 1) m1" by (simp add: m1_def)
  moreover have "n + unat (y + 1) < 256" using Suc.prems y by simp
  ultimately show ?case using Suc.IH [of "y + 1" "x + 1" m1] by simp
qed

section \<open>The two halves of a switch\<close>

lemma u8_minus_3: "3 \<le> unat (w :: u8) \<Longrightarrow> unat (w - 3) = unat w - 3"
  by (simp add: unat_sub word_le_nat_alt)

lemma u8_plus_4: "unat (w :: u8) \<le> 63 \<Longrightarrow> unat (w + 4) = unat w + 4"
  by (simp add: unat_word_ariths(1))

text \<open>The stack of a process that has just pushed what \<^verbatim>\<open>rti\<close> is going to pop.\<close>

definition frame :: "u16 \<Rightarrow> u8 \<Rightarrow> machine \<Rightarrow> u8 \<Rightarrow> u8" where
  "frame ret flags m = (stk m)(mS m := ucast (drop_bit 8 ret), mS m - 1 := ucast ret, mS m - 2 := flags)"

definition saved_block :: "u16 \<Rightarrow> u8 \<Rightarrow> machine \<Rightarrow> nat \<Rightarrow> u8" where
  "saved_block ret flags m =
     (with_stack (unat (mS m) + 1) (frame ret flags m) ((blk m (cur m))(0 := mS m - 3)))
       (67 := rc m 0, 68 := rc m 1)"

lemma swap_out_old_eq:
  assumes "3 \<le> unat (mS m)" "unat (mS m) \<le> 66"
  shows "swap_out_old ret flags m =
    Some (m\<lparr>stk := frame ret flags m, mS := mS m - 3,
            blk := (blk m)(cur m := saved_block ret flags m),
            rc := with_regs 12 0 68 (saved_block ret flags m) (rc m)\<rparr>)"
proof -
  define m1 where "m1 = push flags (push (ucast ret) (push (ucast (drop_bit 8 ret)) m))"
  have m1: "m1 = m\<lparr>stk := frame ret flags m, mS := mS m - 3\<rparr>"
    by (simp add: m1_def push_def frame_def)
  have y: "unat (mS m - 3 + 4) = unat (mS m) + 1"
    using assms u8_minus_3 [of "mS m"] u8_plus_4 [of "mS m - 3"] by simp
  then have y1: "unat (1 + mS m) = Suc (unat (mS m))" by simp
  define m2 where "m2 = blk_put 0 (mS m1) m1"
  have m2: "m2 = m\<lparr>stk := frame ret flags m, mS := mS m - 3,
      blk := (blk m)(cur m := (blk m (cur m))(0 := mS m - 3))\<rparr>"
    by (simp add: m2_def m1 blk_put_def)
  have "swap_out_ustack (mS m2 + 4) m2 = Some (67, m2\<lparr>blk := (blk m2)(cur m2 :=
      with_stack (unat (mS m2 + 4)) (stk m2) (blk m2 (cur m2)))\<rparr>)"
    by (rule swap_out_ustack_copy) (use assms y in \<open>simp_all add: m2\<close>)
  also have "m2\<lparr>blk := (blk m2)(cur m2 := with_stack (unat (mS m2 + 4)) (stk m2) (blk m2 (cur m2)))\<rparr> =
      m\<lparr>stk := frame ret flags m, mS := mS m - 3, blk := (blk m)(cur m :=
        with_stack (unat (mS m) + 1) (frame ret flags m) ((blk m (cur m))(0 := mS m - 3)))\<rparr>"
    by (simp add: m2 y1 fun_upd_same del: fun_upd_apply)
  finally have "swap_out_old ret flags m = Some (swap_imag_regs 12 0 68
      (m\<lparr>stk := frame ret flags m, mS := mS m - 3, blk := (blk m)(cur m := saved_block ret flags m)\<rparr>))"
    unfolding swap_out_old_def Let_def m1_def [symmetric] m2_def [symmetric]
    by (simp add: blk_put_def saved_block_def fun_upd_same del: fun_upd_apply)
  then show ?thesis by (simp add: swap_imag_regs_copy)
qed

definition restored_stack :: "u16 \<Rightarrow> machine \<Rightarrow> u8 \<Rightarrow> u8" where
  "restored_stack p m = from_block (unat (blk m p 0) + 4) (blk m p) (stk m)"

lemma swap_in_kstack_set:
  "blk m (cur m) 67 \<noteq> 0 \<or> blk m (cur m) 68 \<noteq> 0 \<Longrightarrow> swap_in_kstack 67 m =
     m\<lparr>rc := with_regs 12 0 68 (blk m (cur m)) ((rc m)(0 := blk m (cur m) 67, 1 := blk m (cur m) 68))\<rparr>"
  by (auto simp: swap_in_kstack_def blk_get_def swap_imag_regs_copy)

lemma swap_in_new_eq:
  assumes p: "pair16 (rc m 2) (rc m 3) = p"
    and "unat (blk m p 0) \<le> 63" "blk m p 67 \<noteq> 0 \<or> blk m p 68 \<noteq> 0"
  shows "swap_in_new m = Some ((blk m p 1, blk m p 2),
    rti (m\<lparr>cur := p, stk := restored_stack p m,
           rc := with_regs 12 0 68 (blk m p) ((rc m)(0 := blk m p 67, 1 := blk m p 68)),
           mS := blk m p 0, in_kernel := in_kernel m - 1\<rparr>))"
proof -
  let ?m1 = "m\<lparr>cur := p\<rparr>"
  have "swap_in_ustack (blk m p 0 + 4) ?m1 =
      Some (67, ?m1\<lparr>stk := from_block (unat (blk m p 0 + 4)) (blk ?m1 (cur ?m1)) (stk ?m1)\<rparr>)"
    by (rule swap_in_ustack_copy) (use assms(2) u8_plus_4 in simp_all)
  then have "swap_in_ustack (blk m p 0 + 4) ?m1 = Some (67, ?m1\<lparr>stk := restored_stack p m\<rparr>)"
    using assms(2) by (simp add: restored_stack_def u8_plus_4)
  moreover note swap_in_kstack_set [of "?m1\<lparr>stk := restored_stack p m\<rparr>"]
  ultimately show ?thesis
    using assms(3) unfolding swap_in_new_def p Let_def blk_get_def by simp
qed

section \<open>A switch away and back\<close>

lemma pair16_split: "pair16 (ucast w) (ucast (drop_bit 8 w)) = w"
proof -
  have w: "unat w < 65536" by (rule u16_bound)
  have "unat (ucast w :: u8) + 256 * unat (ucast (drop_bit 8 w) :: u8) = unat w"
    using w by (simp add: unat_drop_bit_eq drop_bit_eq_div unsigned_ucast_eq take_bit_eq_mod unat_div_distrib)
  then show ?thesis by (simp add: pair16_def)
qed

lemma saved_block_simps:
  assumes "3 \<le> unat (mS m)"
  shows "saved_block ret flags m 0 = mS m - 3" "saved_block ret flags m 67 = rc m 0"
    "saved_block ret flags m 68 = rc m 1"
    "unat (mS m) < unat k + 3 \<Longrightarrow> unat k < 64 \<Longrightarrow> saved_block ret flags m (unat k + 3) = frame ret flags m k"
    "69 \<le> i \<Longrightarrow> saved_block ret flags m i = blk m (cur m) i"
  by (simp_all add: saved_block_def with_stack_def)

lemma frame_above: "2 \<le> unat (mS m) \<Longrightarrow> unat (mS m) < unat k \<Longrightarrow> frame ret flags m k = stk m k"
  by (auto simp: frame_def unat_sub word_le_nat_alt)

lemma swap_in_ustack_frame:
  "swap_in_ustack y m = Some (y', m') \<Longrightarrow> blk m' = blk m \<and> cur m' = cur m"
proof (induction y m rule: swap_in_ustack.induct)
  case (1 y m)
  then show ?case using swap_in_ustack.simps [of y m] by (auto split: if_splits)
qed

lemma swap_imag_regs_frame: "blk (swap_imag_regs n x y m) = blk m \<and> cur (swap_imag_regs n x y m) = cur m"
  by (induction n arbitrary: x y m) simp_all

lemma swap_in_new_other_blocks:
  assumes "swap_in_new m = Some (ax, pc, m')" "q \<noteq> pair16 (rc m 2) (rc m 3)"
  shows "blk m' q = blk m q"
proof -
  define m1 where "m1 = m\<lparr>cur := pair16 (rc m 2) (rc m 3)\<rparr>"
  obtain y m2 where m2: "swap_in_ustack (blk_get 0 m1 + 4) m1 = Some (y, m2)" and
    m': "m' = snd (rti ((swap_in_kstack y m2)\<lparr>mS := blk_get 0 (swap_in_kstack y m2),
           in_kernel := in_kernel (swap_in_kstack y m2) - 1\<rparr>))"
    using assms(1) unfolding swap_in_new_def m1_def [symmetric]
    by (auto simp: Let_def bind_eq_Some_conv)
  have "blk m2 = blk m" "cur m2 = pair16 (rc m 2) (rc m 3)"
    using swap_in_ustack_frame [OF m2] by (simp_all add: m1_def)
  then show ?thesis using assms(2)
    by (simp add: m' rti_def swap_in_kstack_def swap_imag_regs_frame blk_put_def)
qed

lemma proc_switch_to_saves:
  assumes "cur m \<noteq> 0" "pair16 (rc m 2) (rc m 3) \<noteq> cur m" "3 \<le> unat (mS m)" "unat (mS m) \<le> 66"
    "proc_switch_to ret flags m = Some (ax, pc, m')"
  shows "blk m' (cur m) = saved_block ret flags m"
proof -
  let ?mo = "m\<lparr>stk := frame ret flags m, mS := mS m - 3,
            blk := (blk m)(cur m := saved_block ret flags m),
            rc := with_regs 12 0 68 (saved_block ret flags m) (rc m)\<rparr>"
  have "swap_in_new ?mo = Some (ax, pc, m')"
    using assms swap_out_old_eq [of m ret flags] by (simp add: proc_switch_to_def)
  then have "blk m' (cur m) = blk ?mo (cur m)"
    by (rule swap_in_new_other_blocks) (use assms(2) in \<open>simp add: with_regs_def\<close>)
  then show ?thesis by simp
qed

text \<open>A switch to \<open>p\<close> leaves the block of \<open>p\<close> to the second half as it was.\<close>

lemma proc_switch_to_enters:
  assumes "pair16 (rc m 2) (rc m 3) = p" "cur m \<noteq> p"
    "cur m = 0 \<or> 3 \<le> unat (mS m) \<and> unat (mS m) \<le> 66"
  obtains mo where "proc_switch_to ret flags m = swap_in_new mo" "blk mo p = blk m p"
    "rc mo 2 = rc m 2" "rc mo 3 = rc m 3" "in_kernel mo = in_kernel m"
proof (cases "cur m = 0")
  case True
  then show thesis using that [of m] assms by (simp add: proc_switch_to_def)
next
  case False
  then show thesis
    using that [of "the (swap_out_old ret flags m)"] assms swap_out_old_eq [of m ret flags]
    by (simp add: proc_switch_to_def with_regs_def)
qed

text \<open>
  C1. A process that the scheduler switches away from goes on as if it had not been interrupted.
  Let process \<open>p\<close>, with its stack pointer within the return stack, switch to another process, and
  let \<open>m2\<close> be any later state in which the block of \<open>p\<close> is as the switch left it, but for the
  A:X value that the kernel may have set. When then another process switches to \<open>p\<close>, execution goes
  on at \<^verbatim>\<open>.Lswap_in_return\<close>, which returns to the caller of the first \<^verbatim>\<open>proc_switch_to\<close> with A:X
  from the block, the stack above the stack pointer and the kernel data stack pointer RC0:RC1 as
  they were, and the kernel counter as at the time of the second switch.
\<close>

theorem proc_switch_round_trip:
  assumes "cur m = p" "p \<noteq> 0" "pair16 (rc m 2) (rc m 3) \<noteq> p" "rc m 0 \<noteq> 0 \<or> rc m 1 \<noteq> 0"
    "3 \<le> unat (mS m)" "unat (mS m) \<le> 61"
    "proc_switch_to ret flags m = Some (ax, pc, m1)"
    "pair16 (rc m2 2) (rc m2 3) = p" "cur m2 \<noteq> p"
    "cur m2 = 0 \<or> 3 \<le> unat (mS m2) \<and> unat (mS m2) \<le> 66"
    "\<forall>i. i \<noteq> 1 \<and> i \<noteq> 2 \<longrightarrow> blk m2 p i = blk m1 p i"
  shows "\<exists>m3 m4. proc_switch_to ret flags2 m2 = Some ((blk m2 p 1, blk m2 p 2), ret, m3) \<and>
    swap_in_return m3 = (fst (rts m), m4) \<and> mS m4 = mS (snd (rts m)) \<and> cur m4 = p \<and>
    (\<forall>k. unat (mS m) < unat k \<and> unat k < 64 \<longrightarrow> stk m4 k = stk m k) \<and>
    rc m4 0 = rc m 0 \<and> rc m4 1 = rc m 1 \<and> in_kernel m4 = in_kernel m2"
proof -
  have saved: "blk m1 p = saved_block ret flags m"
    using proc_switch_to_saves [OF _ _ assms(5) _ assms(7)] assms(1-3,6) by simp
  have S: "unat (mS m - 3) = unat (mS m) - 3" by (rule u8_minus_3 [OF assms(5)])
  obtain mo where mo: "proc_switch_to ret flags2 m2 = swap_in_new mo" "blk mo p = blk m2 p"
      "rc mo 2 = rc m2 2" "rc mo 3 = rc m2 3" "in_kernel mo = in_kernel m2"
    using proc_switch_to_enters [OF assms(8-10)] .
  have b: "blk mo p i = saved_block ret flags m i" if "i \<noteq> 1" "i \<noteq> 2" for i
    using assms(11) saved mo(2) that by simp
  note b0 = b [of 0] b [of 67] b [of 68] saved_block_simps [OF assms(5)]
  have st: "restored_stack p mo k = frame ret flags m k" if "unat (mS m) < unat k + 3" "unat k < 64" for k
    using b [of "unat k + 3"] b0 that assms(5) S by (simp add: restored_stack_def from_block_def)
  define M where "M = mo\<lparr>cur := p, stk := restored_stack p mo,
    rc := with_regs 12 0 68 (blk mo p) ((rc mo)(0 := blk mo p 67, 1 := blk mo p 68)),
    mS := blk mo p 0, in_kernel := in_kernel mo - 1\<rparr>"
  have run: "proc_switch_to ret flags2 m2 = Some ((blk m2 p 1, blk m2 p 2), rti M)"
    using swap_in_new_eq [of mo p] mo assms(4,6,8) b0 S by (simp add: M_def)
  have M: "mS M = mS m - 3" "stk M = restored_stack p mo" "cur M = p" "rc M 0 = rc m 0" "rc M 1 = rc m 1"
      "in_kernel M = in_kernel m2 - 1"
    using b0 mo(5) by (simp_all add: M_def with_regs_def)
  have "unat (mS m - 1) = unat (mS m) - 1" "unat (mS m + 1) = unat (mS m) + 1"
      "unat (mS m + 2) = unat (mS m) + 2"
    using assms(5,6) by (simp_all add: unat_sub word_le_nat_alt unat_word_ariths(1))
  note top = this st [of "mS m - 1"] st [of "mS m"] st [of "mS m + 1"] st [of "mS m + 2"]
  have "rti M = (ret, M\<lparr>mS := mS m\<rparr>)"
    using top assms(5,6) by (simp add: rti_def M frame_def pair16_split)
  moreover have "fst (swap_in_return (M\<lparr>mS := mS m\<rparr>)) = fst (rts m)"
    using top assms(5,6) by (simp add: swap_in_return_def rts_def M frame_above)
  ultimately show ?thesis
    using run M st frame_above [of m] assms(5)
    by (intro exI [of _ "M\<lparr>mS := mS m\<rparr>"] exI [of _ "snd (swap_in_return (M\<lparr>mS := mS m\<rparr>))"])
       (auto simp: swap_in_return_def rts_def)
qed

lemma proc_switch_to_eq:
  assumes "cur m \<noteq> 0" "pair16 (rc m 2) (rc m 3) = q" "q \<noteq> cur m" "3 \<le> unat (mS m)" "unat (mS m) \<le> 66"
    "unat (blk m q 0) \<le> 63" "blk m q 67 \<noteq> 0 \<or> blk m q 68 \<noteq> 0"
  obtains m1 where "proc_switch_to ret flags m = Some ((blk m q 1, blk m q 2), rti m1)" "cur m1 = q"
    "blk m1 = (blk m)(cur m := saved_block ret flags m)"
    "rc m1 = with_regs 12 0 68 (blk m q)
       ((with_regs 12 0 68 (saved_block ret flags m) (rc m))(0 := blk m q 67, 1 := blk m q 68))"
proof -
  define mo where "mo = m\<lparr>stk := frame ret flags m, mS := mS m - 3,
    blk := (blk m)(cur m := saved_block ret flags m), rc := with_regs 12 0 68 (saved_block ret flags m) (rc m)\<rparr>"
  have q: "pair16 (rc mo 2) (rc mo 3) = q" "blk mo q = blk m q"
    using assms(2,3) by (simp_all add: mo_def with_regs_def)
  have "proc_switch_to ret flags m = swap_in_new mo"
    using assms swap_out_old_eq [of m ret flags] by (simp add: proc_switch_to_def mo_def)
  also have "\<dots> = Some ((blk m q 1, blk m q 2), rti (mo\<lparr>cur := q, stk := restored_stack q mo,
      rc := with_regs 12 0 68 (blk m q) ((rc mo)(0 := blk m q 67, 1 := blk m q 68)),
      mS := blk m q 0, in_kernel := in_kernel mo - 1\<rparr>))"
    using swap_in_new_eq [OF q(1)] assms(6,7) unfolding q(2) .
  finally show thesis by (rule that) (simp_all add: mo_def)
qed

text \<open>
  C36. The switch does not save the callee-saved registers. Where \<^verbatim>\<open>struct proc_context\<close> has twelve
  bytes for RC20 to RC31, swapping a process out leaves them as they are, because the loop that is
  to fill them loads from the block; and swapping a process in loads RC12 to RC23 from them, so
  that RC24 to RC31 go over from one process to the other.
\<close>

theorem proc_switch_drops_registers:
  assumes "cur m \<noteq> 0" "pair16 (rc m 2) (rc m 3) = q" "q \<noteq> cur m" "3 \<le> unat (mS m)" "unat (mS m) \<le> 66"
    "unat (blk m q 0) \<le> 63" "blk m q 67 \<noteq> 0 \<or> blk m q 68 \<noteq> 0"
  shows "\<exists>ax pc m1. proc_switch_to ret flags m = Some (ax, pc, m1) \<and> cur m1 = q \<and>
    (\<forall>i. 69 \<le> i \<longrightarrow> blk m1 (cur m) i = blk m (cur m) i) \<and>
    (\<forall>i. 12 \<le> i \<and> i < 24 \<longrightarrow> rc m1 i = blk m q (57 + i)) \<and>
    (\<forall>i. 24 \<le> i \<longrightarrow> rc m1 i = rc m i)"
proof -
  obtain m1 where "proc_switch_to ret flags m = Some ((blk m q 1, blk m q 2), rti m1)" "cur m1 = q"
      "blk m1 = (blk m)(cur m := saved_block ret flags m)"
      "rc m1 = with_regs 12 0 68 (blk m q)
         ((with_regs 12 0 68 (saved_block ret flags m) (rc m))(0 := blk m q 67, 1 := blk m q 68))"
    using proc_switch_to_eq [OF assms] .
  then show ?thesis using saved_block_simps(5) [OF assms(4)]
    by (auto simp: rti_def with_regs_def intro!: arg_cong [where f = "blk m q"])
qed

text \<open>Two processes, with their blocks at 512 and 768; the first calls the scheduler.\<close>

definition two_procs :: machine where
  "two_procs = \<lparr>blk = (\<lambda>p i. if i = 0 then 57 else 2), stk = (\<lambda>k. k), mS = 50,
     rc = (\<lambda>i. if i = 0 then 9 else if i = 3 then 3 else 0), cur = 512, in_kernel = 1\<rparr>"

lemma two_procs_simps:
  "cur two_procs = 512" "mS two_procs = 50" "rc two_procs 0 = 9" "rc two_procs 20 = 0"
  "stk two_procs = (\<lambda>k. k)" "pair16 (rc two_procs 2) (rc two_procs 3) = 768"
  "blk two_procs q 0 = 57" "0 < i \<Longrightarrow> blk two_procs q i = 2"
  by (simp_all add: two_procs_def pair16_def)

lemma two_procs_ready:
  "cur two_procs \<noteq> 0" "pair16 (rc two_procs 2) (rc two_procs 3) = 768" "768 \<noteq> cur two_procs"
  "3 \<le> unat (mS two_procs)" "unat (mS two_procs) \<le> 66" "unat (blk two_procs 768 0) \<le> 63"
  "blk two_procs 768 67 \<noteq> 0 \<or> blk two_procs 768 68 \<noteq> 0"
  by (simp_all add: two_procs_simps)

theorem proc_switch_drops_registers_witness:
  "\<exists>ax pc m1. proc_switch_to 0x1234 0 two_procs = Some (ax, pc, m1) \<and> cur m1 = 768 \<and> rc m1 20 = 2 \<and>
     blk m1 512 77 = 2 \<and> rc two_procs 20 = 0"
proof -
  obtain ax pc m1 where r: "proc_switch_to 0x1234 0 two_procs = Some (ax, pc, m1)" "cur m1 = 768"
      "\<forall>i. 69 \<le> i \<longrightarrow> blk m1 (cur two_procs) i = blk two_procs (cur two_procs) i"
      "\<forall>i. 12 \<le> i \<and> i < 24 \<longrightarrow> rc m1 i = blk two_procs 768 (57 + i)"
    using proc_switch_drops_registers [OF two_procs_ready, of "0x1234" 0] by blast
  have "rc m1 20 = 2" "blk m1 512 77 = 2"
    using spec [OF r(3), of 77] spec [OF r(4), of 20] by (simp_all add: two_procs_simps)
  then show ?thesis using r(1,2) two_procs_simps(4) by blast
qed

lemma two_procs_switch:
  obtains ax pc m1 where "proc_switch_to 0x1234 0 two_procs = Some (ax, pc, m1)" "cur m1 = 768"
proof -
  obtain m1 where "proc_switch_to 0x1234 0 two_procs =
      Some ((blk two_procs 768 1, blk two_procs 768 2), rti m1)" "cur m1 = 768"
    using proc_switch_to_eq [OF two_procs_ready] .
  then show thesis
    using that [of _ "fst (rti m1)" "snd (rti m1)"] by (simp add: rti_def)
qed

theorem proc_switch_round_trip_witness:
  "\<exists>m2 m3. cur m2 = 768 \<and> proc_switch_to 0x1234 0 m2 = Some ((7, 2), 0x1234, m3) \<and>
     mS (snd (swap_in_return m3)) = 52 \<and> rc (snd (swap_in_return m3)) 0 = 9 \<and>
     stk (snd (swap_in_return m3)) 60 = 60"
proof -
  obtain ax pc m1 where m1: "proc_switch_to 0x1234 0 two_procs = Some (ax, pc, m1)" "cur m1 = 768"
    by (rule two_procs_switch)
  define m2 where "m2 = m1\<lparr>mS := 40, rc := (\<lambda>i. if i = 3 then 2 else 0),
    blk := (blk m1)(512 := (blk m1 512)(1 := 7, 2 := 2))\<rparr>"
  have m2: "cur m2 = 768" "pair16 (rc m2 2) (rc m2 3) = 512" "mS m2 = 40" "blk m2 512 1 = 7" "blk m2 512 2 = 2"
      "\<forall>i. i \<noteq> 1 \<and> i \<noteq> 2 \<longrightarrow> blk m2 512 i = blk m1 512 i"
    using m1(2) by (simp_all add: m2_def pair16_def)
  note t = two_procs_simps
  have d: "(512 :: u16) \<noteq> 0" "pair16 (rc two_procs 2) (rc two_procs 3) \<noteq> 512"
      "rc two_procs 0 \<noteq> 0 \<or> rc two_procs 1 \<noteq> 0" "3 \<le> unat (mS two_procs)" "unat (mS two_procs) \<le> 61"
      "cur m2 \<noteq> 512" "cur m2 = 0 \<or> 3 \<le> unat (mS m2) \<and> unat (mS m2) \<le> 66"
    using t m2 by simp_all
  obtain m3 m4 where r: "proc_switch_to 0x1234 0 m2 = Some ((blk m2 512 1, blk m2 512 2), 0x1234, m3)"
      "swap_in_return m3 = (fst (rts two_procs), m4)" "mS m4 = mS (snd (rts two_procs))"
      "\<forall>k. unat (mS two_procs) < unat k \<and> unat k < 64 \<longrightarrow> stk m4 k = stk two_procs k"
      "rc m4 0 = rc two_procs 0"
    using proc_switch_round_trip [OF t(1) d(1-5) m1(1) m2(2) d(6,7) m2(6), of 0] by blast
  have "mS m4 = 52" "stk m4 60 = 60" using r(3) spec [OF r(4), of 60] t by (simp_all add: rts_def)
  then show ?thesis
    using r m2 t by (intro exI [of _ m2] exI [of _ m3]) simp
qed

end
