(* ===== verification/Serial.thy ===== *)
theory Serial
  imports Asm6502
begin

unbundle bit_operations_syntax

text \<open>
  The serial port of the eater target, \<^verbatim>\<open>target/eater/serial.S\<close>: the receive interrupt, the ring
  buffer of 256 bytes with its two 8-bit indices, and the functions that take characters
  from it. The interrupt can come between any two instructions of \<^verbatim>\<open>__chrin\<close>, so the function is
  also given instruction by instruction, and what it delivers is proved for every interleaving.
\<close>

section \<open>The driver\<close>

abbreviation (input) RX_HIGH :: u8 where "RX_HIGH \<equiv> 240"
abbreviation (input) RX_LOW :: u8 where "RX_LOW \<equiv> 224"

text \<open>The driver's variables and the command register of the ACIA.\<close>

record serial =
  rx_in :: u8
  rx_out :: u8
  rx_buffer :: "u8 \<Rightarrow> u8"
  acia_cmd :: u8

definition do_init_serial :: "serial \<Rightarrow> serial" where
  "do_init_serial s = s\<lparr>acia_cmd := 0x09\<rparr>"

text \<open>\<open>status\<close> and \<open>data\<close> are what the reads of the two registers return.\<close>

definition serial_isr :: "u8 \<Rightarrow> u8 \<Rightarrow> serial \<Rightarrow> serial" where
  "serial_isr status data s =
     (if status < 0x80 then s
      else if status AND 0x08 = 0 then s
      else
        (let s1 = s\<lparr>rx_buffer := (rx_buffer s)(rx_in s := data), rx_in := rx_in s + 1\<rparr>;
             a = fst (sbc (rx_in s1) (rx_out s1) True) in
         if a < RX_HIGH then s1 else s1\<lparr>acia_cmd := 0x01\<rparr>))"

text \<open>
  The body that \<^verbatim>\<open>__chrin\<close> and \<^verbatim>\<open>__chrin_no_wait\<close> share, once there is a character, with no
  interrupt in between.
\<close>

definition chrin_take :: "serial \<Rightarrow> u8 \<times> serial" where
  "chrin_take s =
     (let x = rx_out s;
          s1 = s\<lparr>rx_out := rx_out s + 1\<rparr>;
          a = fst (sbc (rx_in s1) (rx_out s1) True);
          s2 = (if a < RX_LOW then s1\<lparr>acia_cmd := 0x09\<rparr> else s1) in
      (rx_buffer s2 x, s2))"

text \<open>The result is A and X, that is -1 when there is no character.\<close>

definition serial_chrin_no_wait :: "serial \<Rightarrow> (u8 \<times> u8) \<times> serial" where
  "serial_chrin_no_wait s =
     (if rx_out s = rx_in s then ((0xFF, 0xFF), s)
      else (let (c, s1) = chrin_take s in ((c, 0), s1)))"

text \<open>\<^verbatim>\<open>__chrin\<close> returns when there is a character; \<^const>\<open>None\<close> is the wait for an interrupt.\<close>

definition serial_chrin :: "serial \<Rightarrow> ((u8 \<times> u8) \<times> serial) option" where
  "serial_chrin s =
     (if rx_out s = rx_in s then None else (let (c, s1) = chrin_take s in Some ((c, 0), s1)))"

text \<open>
  \<^verbatim>\<open>__chrout\<close> hands the byte to the ACIA and then only waits; \<open>out\<close> is what has been transmitted.
  The console functions of \<^verbatim>\<open>target/eater/target.c\<close> are built on it and on \<^verbatim>\<open>__chrin\<close>.
\<close>

definition serial_chrout :: "u8 \<Rightarrow> u8 list \<Rightarrow> u8 list" where
  "serial_chrout a out = out @ [a]"

definition eater_putchar :: "u8 \<Rightarrow> u8 list \<Rightarrow> u8 list" where
  "eater_putchar c out =
     (if c = 10 then serial_chrout 10 (serial_chrout 13 out) else serial_chrout c out)"

definition eater_getchar :: "serial \<Rightarrow> (int \<times> serial) option" where
  "eater_getchar s =
     do { ((a, x), s1) \<leftarrow> serial_chrin s;
          let c = int (unat a + 256 * unat x);
          Some (if c = 13 then 10 else c, s1) }"

section \<open>Instruction by instruction\<close>

text \<open>
  Where the processor is in \<^verbatim>\<open>__chrin\<close>, with the registers that are live there. \<open>Return_char\<close> holds
  the character in A.
\<close>

datatype chrin_pc =
    Ldx_out | Cpx_in u8 | Inc_out u8 | Lda_in u8 | Sbc_out u8 u8 | Cmp_low u8 u8 | Sta_cmd u8
  | Lda_buffer u8 | Return_char u8

fun chrin_instr :: "chrin_pc \<Rightarrow> serial \<Rightarrow> chrin_pc \<times> serial" where
  "chrin_instr Ldx_out s = (Cpx_in (rx_out s), s)"
| "chrin_instr (Cpx_in x) s = (if x = rx_in s then Ldx_out else Inc_out x, s)"
| "chrin_instr (Inc_out x) s = (Lda_in x, s\<lparr>rx_out := rx_out s + 1\<rparr>)"
| "chrin_instr (Lda_in x) s = (Sbc_out x (rx_in s), s)"
| "chrin_instr (Sbc_out x a) s = (Cmp_low x (fst (sbc a (rx_out s) True)), s)"
| "chrin_instr (Cmp_low x a) s = (if a < RX_LOW then Sta_cmd x else Lda_buffer x, s)"
| "chrin_instr (Sta_cmd x) s = (Lda_buffer x, s\<lparr>acia_cmd := 0x09\<rparr>)"
| "chrin_instr (Lda_buffer x) s = (Return_char (rx_buffer s x), s)"
| "chrin_instr (Return_char c) s = (Ldx_out, s)"

text \<open>
  The system: the driver, the position in \<^verbatim>\<open>__chrin\<close>, which is called again and again, and as
  history the bytes received and the characters returned. The ACIA interrupts for a received byte
  only while receive interrupts are enabled, that is while the command register holds 9.
\<close>

record serial_sys =
  drv :: serial
  pc :: chrin_pc
  received :: "u8 list"
  returned :: "u8 list"

inductive serial_step :: "serial_sys \<Rightarrow> serial_sys \<Rightarrow> bool" where
  receive: "acia_cmd (drv s) = 0x09 \<Longrightarrow> 0x80 \<le> status \<Longrightarrow> status AND 0x08 \<noteq> 0 \<Longrightarrow>
    serial_step s (s\<lparr>drv := serial_isr status b (drv s), received := received s @ [b]\<rparr>)"
| other_irq: "status < 0x80 \<or> status AND 0x08 = 0 \<Longrightarrow>
    serial_step s (s\<lparr>drv := serial_isr status b (drv s)\<rparr>)"
| instr: "chrin_instr (pc s) (drv s) = (pc', d') \<Longrightarrow>
    serial_step s (s\<lparr>drv := d', pc := pc',
      returned := (case pc s of Return_char c \<Rightarrow> returned s @ [c] | _ \<Rightarrow> returned s)\<rparr>)"

inductive serial_reach :: "serial_sys \<Rightarrow> bool" where
  start: "rx_in d = rx_out d \<Longrightarrow>
    serial_reach \<lparr>drv = do_init_serial d, pc = Ldx_out, received = [], returned = []\<rparr>"
| step: "serial_reach s \<Longrightarrow> serial_step s s' \<Longrightarrow> serial_reach s'"

section \<open>The invariant\<close>

text \<open>
  \<open>k\<close> bytes of the received bytes \<open>R\<close> were taken out and \<open>n\<close> are in the ring buffer. The
  interrupt can overshoot the high water mark by one: \<^verbatim>\<open>__chrin\<close> may enable the interrupts on an
  occupancy that it read before more bytes came in.
\<close>

definition ring :: "nat \<Rightarrow> nat \<Rightarrow> serial \<Rightarrow> u8 list \<Rightarrow> bool" where
  "ring k n d R \<longleftrightarrow>
     length R = k + n \<and> rx_in d = rx_out d + of_nat n \<and> n \<le> 241 \<and>
     (\<forall>i < n. rx_buffer d (rx_out d + of_nat i) = R ! (k + i)) \<and>
     (acia_cmd d = 0x09 \<longrightarrow> n \<le> 240)"

text \<open>The slot \<open>x\<close> was given up but its byte is still to be read.\<close>

definition in_hand :: "nat \<Rightarrow> u8 \<Rightarrow> serial \<Rightarrow> u8 list \<Rightarrow> bool" where
  "in_hand k x d R \<longleftrightarrow> 0 < k \<and> x = rx_out d - 1 \<and> rx_buffer d x = R ! (k - 1)"

text \<open>Since the occupancy was below the low water mark, at most 240 bytes have arrived.\<close>

definition was_low :: "nat \<Rightarrow> serial \<Rightarrow> bool" where
  "was_low n d \<longleftrightarrow> n \<le> 240 \<and> (acia_cmd d = 0x09 \<longrightarrow> n < 240)"

fun pc_inv :: "chrin_pc \<Rightarrow> nat \<Rightarrow> nat \<Rightarrow> serial \<Rightarrow> u8 list \<Rightarrow> bool" where
  "pc_inv Ldx_out k n d R \<longleftrightarrow> True"
| "pc_inv (Cpx_in x) k n d R \<longleftrightarrow> x = rx_out d"
| "pc_inv (Inc_out x) k n d R \<longleftrightarrow> x = rx_out d \<and> 0 < n"
| "pc_inv (Lda_in x) k n d R \<longleftrightarrow> in_hand k x d R"
| "pc_inv (Sbc_out x a) k n d R \<longleftrightarrow> in_hand k x d R \<and> (a - rx_out d < RX_LOW \<longrightarrow> was_low n d)"
| "pc_inv (Cmp_low x a) k n d R \<longleftrightarrow> in_hand k x d R \<and> (a < RX_LOW \<longrightarrow> was_low n d)"
| "pc_inv (Sta_cmd x) k n d R \<longleftrightarrow> in_hand k x d R \<and> was_low n d"
| "pc_inv (Lda_buffer x) k n d R \<longleftrightarrow> in_hand k x d R"
| "pc_inv (Return_char c) k n d R \<longleftrightarrow> 0 < k \<and> c = R ! (k - 1)"

fun holding :: "chrin_pc \<Rightarrow> nat" where
  "holding Ldx_out = 0" | "holding (Cpx_in _) = 0" | "holding (Inc_out _) = 0"
| "holding _ = 1"

definition serial_inv :: "serial_sys \<Rightarrow> bool" where
  "serial_inv s \<longleftrightarrow>
     (\<exists>n. ring (length (returned s) + holding (pc s)) n (drv s) (received s) \<and>
        pc_inv (pc s) (length (returned s) + holding (pc s)) n (drv s) (received s)) \<and>
     returned s = take (length (returned s)) (received s)"

lemma unat_of_nat_u8: "n < 256 \<Longrightarrow> unat (of_nat n :: u8) = n"
  by (simp add: unat_of_nat)

lemma of_nat_u8_inj: "i < 256 \<Longrightarrow> j < 256 \<Longrightarrow> (of_nat i :: u8) = of_nat j \<longleftrightarrow> i = j"
  by (metis unat_of_nat_u8)

lemma ring_receive:
  fixes b :: u8
  assumes "ring k n d R" and "acia_cmd d = 0x09" and "0x80 \<le> status" and "status AND 0x08 \<noteq> 0"
  defines "d' \<equiv> serial_isr status b d"
  shows "ring k (Suc n) d' (R @ [b])" and "rx_out d' = rx_out d"
    and "was_low n d \<Longrightarrow> was_low (Suc n) d'"
    and "in_hand k x d R \<Longrightarrow> in_hand k x d' (R @ [b])"
proof -
  have n: "n \<le> 240" "rx_in d = rx_out d + of_nat n" "length R = k + n" using assms by (simp_all add: ring_def)
  have occ: "unat (rx_in d + 1 - rx_out d) = Suc n"
    using n unat_of_nat_u8 [of "Suc n"] by (simp add: algebra_simps)
  have d': "d' = (if Suc n < 240
      then d\<lparr>rx_buffer := (rx_buffer d)(rx_in d := b), rx_in := rx_in d + 1\<rparr>
      else d\<lparr>rx_buffer := (rx_buffer d)(rx_in d := b), rx_in := rx_in d + 1, acia_cmd := 0x01\<rparr>)"
    using assms(3,4) occ by (simp add: d'_def serial_isr_def sbc_def Let_def word_less_nat_alt not_less
        word_le_nat_alt)
  have other: "rx_out d + of_nat i \<noteq> rx_in d" if "i < n" for i
    using that n of_nat_u8_inj [of i n] by simp
  have out: "rx_out d' = rx_out d" and inn: "rx_in d' = rx_out d' + of_nat (Suc n)"
    using n by (simp_all add: d' algebra_simps)
  have "(1 :: u8) \<noteq> 9" by simp
  then have cmd: "acia_cmd d' = 0x09 \<longrightarrow> Suc n < 240" by (simp add: d')
  have buf: "rx_buffer d' (rx_out d' + of_nat i) = (R @ [b]) ! (k + i)" if "i < Suc n" for i
    using that assms(1) other [of i] n by (cases "i = n") (auto simp: d' ring_def nth_append less_Suc_eq)
  show "ring k (Suc n) d' (R @ [b])"
    unfolding ring_def using n buf inn cmd by (intro conjI allI impI) simp_all
  show "rx_out d' = rx_out d" by (rule out)
  show "was_low n d \<Longrightarrow> was_low (Suc n) d'" using assms(2) cmd by (simp add: was_low_def)
  have "rx_out d - 1 \<noteq> rx_in d"
  proof
    assume "rx_out d - 1 = rx_in d"
    then have "of_nat n + 1 = (0 :: u8)" using n(2) by (simp add: algebra_simps)
    then have "of_nat n = (- 1 :: u8)" by (simp only: eq_neg_iff_add_eq_0)
    moreover have "(- 1 :: u8) = of_nat 255" by simp
    ultimately show False using of_nat_u8_inj [of n 255] n(1) by simp
  qed
  then show "in_hand k x d R \<Longrightarrow> in_hand k x d' (R @ [b])"
    using n(3) by (auto simp: in_hand_def d' nth_append)
qed

lemma isr_other: "status < 0x80 \<or> status AND 0x08 = 0 \<Longrightarrow> serial_isr status b d = d"
  by (auto simp: serial_isr_def)

lemma pc_inv_receive:
  assumes "ring k n d R" and "acia_cmd d = 0x09" and "0x80 \<le> status" and "status AND 0x08 \<noteq> 0"
    and "pc_inv p k n d R" and "holding p \<le> k"
  shows "pc_inv p k (Suc n) (serial_isr status b d) (R @ [b])"
  using assms ring_receive(2-4) [OF assms(1-4), where b = b]
  by (cases p) (auto simp: nth_append ring_def)

lemma serial_inv_receive:
  assumes inv: "serial_inv s" and h: "acia_cmd (drv s) = 0x09" "0x80 \<le> status" "status AND 0x08 \<noteq> 0"
  shows "serial_inv (s\<lparr>drv := serial_isr status b (drv s), received := received s @ [b]\<rparr>)"
proof -
  let ?k = "length (returned s) + holding (pc s)"
  from inv obtain n where r: "ring ?k n (drv s) (received s)" and p: "pc_inv (pc s) ?k n (drv s) (received s)"
    and t: "returned s = take (length (returned s)) (received s)" unfolding serial_inv_def by blast
  have "length (returned s) \<le> length (received s)" using r by (simp add: ring_def)
  then show ?thesis
    unfolding serial_inv_def using ring_receive(1) [OF r h, where b = b] pc_inv_receive [OF r h p, of b] t by auto
qed

lemma ring_take:
  assumes "ring k (Suc n) d R"
  shows "ring (Suc k) n (d\<lparr>rx_out := rx_out d + 1\<rparr>) R" and "in_hand (Suc k) (rx_out d) (d\<lparr>rx_out := rx_out d + 1\<rparr>) R"
proof -
  have b: "\<forall>i < Suc n. rx_buffer d (rx_out d + of_nat i) = R ! (k + i)" using assms by (simp add: ring_def)
  then have "rx_buffer d (rx_out d + 1 + of_nat i) = R ! (Suc k + i)" if "i < n" for i
    using that b [rule_format, of "Suc i"] by (simp add: algebra_simps)
  then show "ring (Suc k) n (d\<lparr>rx_out := rx_out d + 1\<rparr>) R" using assms by (auto simp: ring_def algebra_simps)
  show "in_hand (Suc k) (rx_out d) (d\<lparr>rx_out := rx_out d + 1\<rparr>) R"
    using b [rule_format, of 0] by (simp add: in_hand_def)
qed

lemma serial_inv_instr:
  assumes inv: "serial_inv s" and e: "chrin_instr (pc s) (drv s) = (pc', d')"
  shows "serial_inv (s\<lparr>drv := d', pc := pc',
    returned := (case pc s of Return_char c \<Rightarrow> returned s @ [c] | _ \<Rightarrow> returned s)\<rparr>)"
proof -
  let ?k = "length (returned s)"
  from inv obtain n where r: "ring (?k + holding (pc s)) n (drv s) (received s)"
    and p: "pc_inv (pc s) (?k + holding (pc s)) n (drv s) (received s)"
    and t: "returned s = take ?k (received s)" unfolding serial_inv_def by blast
  have fin: "serial_inv (s\<lparr>drv := d', pc := pc'\<rparr>)"
    if "ring (?k + holding pc') m d' (received s)" "pc_inv pc' (?k + holding pc') m d' (received s)" for m
    using that t unfolding serial_inv_def by auto
  show ?thesis
  proof (cases "pc s")
    case Ldx_out
    then show ?thesis using r p e fin [of n] by auto
  next
    case (Cpx_in x)
    have "n \<noteq> 0" if "rx_out (drv s) \<noteq> rx_in (drv s)" using that r by (cases n) (auto simp: ring_def)
    then show ?thesis using Cpx_in r p e fin [of n] by (auto split: if_splits)
  next
    case (Inc_out x)
    then obtain m where m: "n = Suc m" using p by (cases n) auto
    show ?thesis using Inc_out p e ring_take [of ?k m "drv s" "received s"] r m fin [of m] by auto
  next
    case (Lda_in x)
    have "unat (rx_in (drv s) - rx_out (drv s)) = n"
      using r unat_of_nat_u8 [of n] by (simp add: ring_def)
    then have "rx_in (drv s) - rx_out (drv s) < RX_LOW \<Longrightarrow> was_low n (drv s)"
      by (simp add: was_low_def word_less_nat_alt)
    then show ?thesis using Lda_in r p e fin [of n] by auto
  next
    case (Sbc_out x a)
    then show ?thesis using r p e fin [of n] by (auto simp: sbc_def)
  next
    case (Cmp_low x a)
    then show ?thesis using r p e fin [of n] by (auto split: if_splits)
  next
    case (Sta_cmd x)
    then have "ring (?k + 1) n ((drv s)\<lparr>acia_cmd := 9\<rparr>) (received s)"
      using r p by (auto simp: ring_def was_low_def)
    then show ?thesis using Sta_cmd p e fin [of n] by (auto simp: in_hand_def)
  next
    case (Lda_buffer x)
    then show ?thesis using r p e fin [of n] by (auto simp: in_hand_def)
  next
    case (Return_char c)
    let ?T = "returned s @ [c]"
    have len: "?k < length (received s)" using r Return_char by (simp add: ring_def)
    then have "take (length ?T) (received s) = ?T"
      using p t Return_char by (simp add: take_Suc_conv_app_nth)
    moreover have "ring (length ?T + holding Ldx_out) n d' (received s)" "pc' = Ldx_out"
      using r e Return_char by simp_all
    ultimately show ?thesis
      unfolding serial_inv_def using Return_char by auto
  qed
qed

lemma serial_reach_inv: "serial_reach s \<Longrightarrow> serial_inv s"
proof (induction rule: serial_reach.induct)
  case (start d)
  then show ?case by (auto simp: serial_inv_def ring_def do_init_serial_def intro: exI [of _ 0])
next
  case (step s s')
  from step.hyps(2) step.IH show ?case
    by (cases rule: serial_step.cases) (auto intro: serial_inv_receive serial_inv_instr simp: isr_other)
qed

text \<open>
  C5. The serial input loses, duplicates and reorders nothing. In every state that is reached by
  any interleaving of receive interrupts, other interrupts and the instructions of
  \<^verbatim>\<open>__chrin\<close>, the characters returned so far are the first bytes received, and
  every other byte is in the ring buffer, apart from one that \<^verbatim>\<open>__chrin\<close> may be about to return;
  the buffer of 256 bytes never holds more than 241.
\<close>

theorem serial_fifo:
  assumes "serial_reach s"
  shows "returned s = take (length (returned s)) (received s) \<and>
    length (received s) =
      length (returned s) + holding (pc s) + unat (rx_in (drv s) - rx_out (drv s)) \<and>
    unat (rx_in (drv s) - rx_out (drv s)) \<le> 241"
proof -
  from serial_reach_inv [OF assms] obtain n where
    r: "ring (length (returned s) + holding (pc s)) n (drv s) (received s)"
    and t: "returned s = take (length (returned s)) (received s)" unfolding serial_inv_def by blast
  have "unat (rx_in (drv s) - rx_out (drv s)) = n" using r unat_of_nat_u8 [of n] by (simp add: ring_def)
  then show ?thesis using r t by (simp add: ring_def)
qed

text \<open>The steps of the processor alone, as a function.\<close>

definition next_instr :: "serial_sys \<Rightarrow> serial_sys" where
  "next_instr s =
     (case chrin_instr (pc s) (drv s) of (pc', d') \<Rightarrow>
      s\<lparr>drv := d', pc := pc',
        returned := (case pc s of Return_char c \<Rightarrow> returned s @ [c] | _ \<Rightarrow> returned s)\<rparr>)"

lemma serial_reach_next: "serial_reach s \<Longrightarrow> serial_reach (next_instr s)"
  by (cases "chrin_instr (pc s) (drv s)")
    (auto simp: next_instr_def intro: serial_reach.step serial_step.instr)

lemma serial_reach_instrs: "serial_reach s \<Longrightarrow> serial_reach ((next_instr ^^ m) s)"
  by (induction m) (simp_all add: serial_reach_next)

lemma next_instr_simps [simp]:
  "next_instr \<lparr>drv = d, pc = Ldx_out, received = R, returned = T\<rparr> =
     \<lparr>drv = d, pc = Cpx_in (rx_out d), received = R, returned = T\<rparr>"
  "next_instr \<lparr>drv = d, pc = Cpx_in x, received = R, returned = T\<rparr> =
     \<lparr>drv = d, pc = (if x = rx_in d then Ldx_out else Inc_out x), received = R, returned = T\<rparr>"
  "next_instr \<lparr>drv = d, pc = Inc_out x, received = R, returned = T\<rparr> =
     \<lparr>drv = d\<lparr>rx_out := rx_out d + 1\<rparr>, pc = Lda_in x, received = R, returned = T\<rparr>"
  "next_instr \<lparr>drv = d, pc = Lda_in x, received = R, returned = T\<rparr> =
     \<lparr>drv = d, pc = Sbc_out x (rx_in d), received = R, returned = T\<rparr>"
  "next_instr \<lparr>drv = d, pc = Sbc_out x a, received = R, returned = T\<rparr> =
     \<lparr>drv = d, pc = Cmp_low x (a - rx_out d), received = R, returned = T\<rparr>"
  "next_instr \<lparr>drv = d, pc = Cmp_low x a, received = R, returned = T\<rparr> =
     \<lparr>drv = d, pc = (if a < RX_LOW then Sta_cmd x else Lda_buffer x), received = R, returned = T\<rparr>"
  "next_instr \<lparr>drv = d, pc = Sta_cmd x, received = R, returned = T\<rparr> =
     \<lparr>drv = d\<lparr>acia_cmd := 0x09\<rparr>, pc = Lda_buffer x, received = R, returned = T\<rparr>"
  "next_instr \<lparr>drv = d, pc = Lda_buffer x, received = R, returned = T\<rparr> =
     \<lparr>drv = d, pc = Return_char (rx_buffer d x), received = R, returned = T\<rparr>"
  "next_instr \<lparr>drv = d, pc = Return_char c, received = R, returned = T\<rparr> =
     \<lparr>drv = d, pc = Ldx_out, received = R, returned = T @ [c]\<rparr>"
  by (simp_all add: next_instr_def sbc_def)

text \<open>Without interrupts the instructions do what \<^const>\<open>serial_chrin\<close> does.\<close>

lemma serial_chrin_instrs:
  assumes "serial_chrin d = Some ((c, x), d')"
  shows "\<exists>m. (next_instr ^^ m) \<lparr>drv = d, pc = Ldx_out, received = R, returned = T\<rparr> =
    \<lparr>drv = d', pc = Ldx_out, received = R, returned = T @ [c]\<rparr>"
proof -
  let ?low = "rx_in d - (rx_out d + 1) < RX_LOW"
  have ne: "rx_out d \<noteq> rx_in d" and c: "c = rx_buffer d (rx_out d)"
    and d': "d' = (if ?low then d\<lparr>rx_out := rx_out d + 1, acia_cmd := 0x09\<rparr> else d\<lparr>rx_out := rx_out d + 1\<rparr>)"
    using assms by (auto simp: serial_chrin_def chrin_take_def sbc_def Let_def split: if_splits)
  show ?thesis
  proof (cases ?low)
    case True
    then show ?thesis unfolding c d' using ne by (intro exI [of _ "Suc (Suc (Suc (Suc (Suc (Suc (Suc (Suc (Suc 0))))))))"]) simp
  next
    case False
    then show ?thesis unfolding c d' using ne by (intro exI [of _ "Suc (Suc (Suc (Suc (Suc (Suc (Suc (Suc 0)))))))"]) simp
  qed
qed

theorem serial_fifo_witness:
  "\<exists>s. serial_reach s \<and> received s = [65, 66] \<and> returned s = [65] \<and>
     unat (rx_in (drv s) - rx_out (drv s)) = 1"
proof -
  let ?d = "\<lparr>rx_in = 0, rx_out = 0, rx_buffer = (\<lambda>_. 0), acia_cmd = 0\<rparr>"
  let ?s0 = "\<lparr>drv = do_init_serial ?d, pc = Ldx_out, received = [], returned = []\<rparr>"
  let ?r = "\<lambda>b s. s\<lparr>drv := serial_isr 0x88 b (drv s), received := received s @ [b]\<rparr>"
  have "serial_reach ?s0" by (rule serial_reach.start) simp
  then have "serial_reach (?r 65 ?s0)"
    by (rule serial_reach.step) (rule serial_step.receive, simp_all add: do_init_serial_def)
  then have "serial_reach (?r 66 (?r 65 ?s0))"
    by (rule serial_reach.step) (rule serial_step.receive, simp_all add: do_init_serial_def serial_isr_def sbc_def)
  then have reach: "serial_reach ((next_instr ^^ Suc (Suc (Suc (Suc (Suc (Suc (Suc (Suc (Suc 0))))))))) (?r 66 (?r 65 ?s0)))" (is "serial_reach ?s")
    by (rule serial_reach_instrs)
  have "received ?s = [65, 66]" "returned ?s = [65]" "pc ?s = Ldx_out"
    by (simp_all add: do_init_serial_def serial_isr_def sbc_def Let_def)
  with reach obtain s where s: "serial_reach s" "received s = [65, 66]" "returned s = [65]" "pc s = Ldx_out"
    by blast
  then show ?thesis using serial_fifo [OF s(1)] by (intro exI [of _ s]) simp
qed

end
