(* ===== verification/Systick.thy ===== *)
theory Systick
  imports Asm6502
begin

unbundle bit_operations_syntax

text \<open>
  The tick counter of the eater target, \<^verbatim>\<open>target/eater/systick.S\<close>: a 40-bit counter in five
  bytes that the timer interrupt increments, and the one-shot timer of the VIA that the interrupt
  starts again. The reads of the running timer are an arbitrary stream of bytes.
\<close>

abbreviation (input) T2COUNT :: nat where "T2COUNT \<equiv> 3906"

text \<open>\<open>tick_mem i\<close> is the byte at \<^verbatim>\<open>__systick_value + i\<close>; the variable has five bytes.\<close>

record systick =
  tick_mem :: "nat \<Rightarrow> u8"
  via_ier :: u8
  via_acr :: u8
  via_t2cl :: u8
  via_t2ch :: u8
  t2_read :: "nat \<Rightarrow> u8"
  t2_pos :: nat

definition do_init_systick :: "systick \<Rightarrow> systick" where
  "do_init_systick s =
     s\<lparr>tick_mem := (tick_mem s)(0 := 0, 1 := 0, 2 := 0, 3 := 0, 4 := 0, 5 := 0),
       via_ier := 0xA0, via_acr := 0x00,
       via_t2cl := of_nat (T2COUNT mod 256), via_t2ch := of_nat (T2COUNT div 256)\<rparr>"

text \<open>The increments of the counter, from byte \<open>i\<close> on, each after the one before wrapped to 0.\<close>

fun tick_inc :: "nat \<Rightarrow> nat \<Rightarrow> (nat \<Rightarrow> u8) \<Rightarrow> nat \<Rightarrow> u8" where
  "tick_inc 0 i m = m"
| "tick_inc (Suc n) i m =
     (let m1 = m(i := m i + 1) in if m1 i \<noteq> 0 then m1 else tick_inc n (Suc i) m1)"

text \<open>Reading the timer until its high byte is the same before and after the low byte.\<close>

partial_function (option) t2_stable :: "systick \<Rightarrow> ((u8 \<times> u8) \<times> systick) option" where [code]:
  "t2_stable s =
     (let x = t2_read s (t2_pos s); a = t2_read s (t2_pos s + 1); x2 = t2_read s (t2_pos s + 2);
          s1 = s\<lparr>t2_pos := t2_pos s + 3\<rparr> in
      if x = x2 then Some ((a, x), s1) else t2_stable s1)"

definition systick_isr :: "u8 \<Rightarrow> systick \<Rightarrow> systick option" where
  "systick_isr ifr s =
     (if ifr AND 0x20 = 0 then Some s
      else
        do { ((a, x), s1) \<leftarrow> t2_stable (s\<lparr>tick_mem := tick_inc 5 0 (tick_mem s)\<rparr>);
             let (lo, c) = adc a (of_nat ((T2COUNT - 24) mod 256)) False;
             let (hi, c1) = adc x (of_nat ((T2COUNT - 24) div 256)) c;
             Some (s1\<lparr>via_t2cl := lo, via_t2ch := hi\<rparr>) })"

text \<open>The 64-bit result, as its eight bytes from the lowest on.\<close>

definition systick_monoclock :: "systick \<Rightarrow> u8 list" where
  "systick_monoclock s =
     [tick_mem s 0, tick_mem s 1, tick_mem s 2, tick_mem s 3, tick_mem s 4, 0, 0, 0]"

definition systick_clock :: "systick \<Rightarrow> u8 \<times> u8" where
  "systick_clock s = (tick_mem s 0, tick_mem s 1)"

section \<open>The counter\<close>

definition tick_val :: "nat \<Rightarrow> nat \<Rightarrow> (nat \<Rightarrow> u8) \<Rightarrow> nat" where
  "tick_val n i m = (\<Sum>j<n. unat (m (i + j)) * 256 ^ j)"

definition little_endian :: "u8 list \<Rightarrow> nat" where
  "little_endian bs = foldr (\<lambda>b acc. unat b + 256 * acc) bs 0"

lemma tick_val_Suc: "tick_val (Suc n) i m = unat (m i) + 256 * tick_val n (Suc i) m"
  unfolding tick_val_def
  by (simp add: sum.lessThan_Suc_shift sum_distrib_left mult.assoc mult.left_commute del: sum.lessThan_Suc)

lemma tick_val_less: "tick_val n i m < 256 ^ n"
proof (induction n arbitrary: i)
  case (Suc n)
  have "unat (m i) + 256 * tick_val n (Suc i) m < 256 * Suc (tick_val n (Suc i) m)"
    using u8_bound [of "m i"] by simp
  also have "\<dots> \<le> 256 * 256 ^ n" using Suc [of "Suc i"] by (intro mult_le_mono2) simp
  finally show ?case by (simp add: tick_val_Suc)
qed (simp add: tick_val_def)

lemma tick_val_upd: "k < i \<Longrightarrow> tick_val n i (m(k := b)) = tick_val n i m"
  by (simp add: tick_val_def)

lemma tick_val_if:
  "k < i \<Longrightarrow> tick_val n i (\<lambda>a. if a = k then b else m a) = tick_val n i m"
  by (simp add: tick_val_def)

lemma tick_inc_other: "k < i \<Longrightarrow> tick_inc n i m k = m k"
  by (induction n i m rule: tick_inc.induct) (auto simp: Let_def)

lemma tick_inc_val: "tick_val n i (tick_inc n i m) = (tick_val n i m + 1) mod 256 ^ n"
proof (induction n i m rule: tick_inc.induct)
  case (2 n i m)
  let ?r = "tick_val n (Suc i) m"
  show ?case
  proof (cases "m i + 1 = 0")
    case False
    then have "unat (m i + 1) = unat (m i) + 1" by (rule u8_inc_unat)
    moreover have "tick_val (Suc n) i (m(i := m i + 1)) < 256 ^ Suc n" by (rule tick_val_less)
    ultimately show ?thesis using False by (simp add: tick_val_Suc tick_val_upd tick_val_if)
  next
    case True
    then have "unat (m i) = 255" by (simp add: u8_inc_zero)
    moreover have "(256 * (?r + 1)) mod (256 * 256 ^ n) = 256 * ((?r + 1) mod 256 ^ n)"
      by (rule mult_mod_right [symmetric])
    ultimately show ?thesis
      using True 2 by (simp add: tick_val_Suc tick_val_if tick_inc_other fun_upd_def)
  qed
qed (simp add: tick_val_def)

lemma tick_inc_beyond: "i + n \<le> k \<Longrightarrow> tick_inc n i m k = m k"
  by (induction n i m rule: tick_inc.induct) (auto simp: Let_def)

lemma monoclock_tick_val: "little_endian (systick_monoclock s) = tick_val 5 0 (tick_mem s)"
proof -
  have five: "5 = Suc (Suc (Suc (Suc (Suc 0))))" by simp
  have "tick_val 5 0 (tick_mem s) = little_endian (systick_monoclock s)"
    unfolding five tick_val_Suc
    by (simp add: little_endian_def systick_monoclock_def tick_val_def numeral_2_eq_2 [symmetric]
          numeral_3_eq_3 [symmetric])
  then show ?thesis ..
qed

lemma systick_clock_tick_val:
  "little_endian [fst (systick_clock s), snd (systick_clock s)] = tick_val 5 0 (tick_mem s) mod 65536"
proof -
  have five: "5 = Suc (Suc (Suc (Suc (Suc 0))))" by simp
  have lt: "unat (tick_mem s 0) + 256 * unat (tick_mem s 1) < 65536"
    using u8_bound [of "tick_mem s 0"] u8_bound [of "tick_mem s 1"] by linarith
  have "tick_val 5 0 (tick_mem s) =
      unat (tick_mem s 0) + 256 * unat (tick_mem s 1) + 65536 * tick_val (Suc (Suc (Suc 0))) (Suc (Suc 0)) (tick_mem s)"
    unfolding five tick_val_Suc [of "Suc (Suc (Suc (Suc 0)))"] tick_val_Suc [of "Suc (Suc (Suc 0))" "Suc 0"]
    by simp
  then show ?thesis using lt by (simp add: little_endian_def systick_clock_def)
qed

section \<open>The timer\<close>

lemma t2_stable_returns:
  "t2_read s (t2_pos s + 3 * k) = t2_read s (t2_pos s + 3 * k + 2) \<Longrightarrow>
   \<exists>p. t2_stable s = Some ((t2_read s (p + 1), t2_read s p), s\<lparr>t2_pos := p + 3\<rparr>) \<and>
       t2_read s p = t2_read s (p + 2) \<and> t2_pos s \<le> p \<and> p \<le> t2_pos s + 3 * k"
proof (induction k arbitrary: s)
  case 0
  then show ?case by (intro exI [of _ "t2_pos s"]) (simp add: t2_stable.simps Let_def)
next
  case (Suc k)
  let ?s1 = "s\<lparr>t2_pos := t2_pos s + 3\<rparr>"
  show ?case
  proof (cases "t2_read s (t2_pos s) = t2_read s (t2_pos s + 2)")
    case True
    then show ?thesis by (intro exI [of _ "t2_pos s"]) (simp add: t2_stable.simps Let_def)
  next
    case False
    have "t2_read ?s1 (t2_pos ?s1 + 3 * k) = t2_read ?s1 (t2_pos ?s1 + 3 * k + 2)"
      using Suc.prems by (simp add: algebra_simps)
    from Suc.IH [OF this] obtain p where
      "t2_stable ?s1 = Some ((t2_read s (p + 1), t2_read s p), s\<lparr>t2_pos := p + 3\<rparr>)"
      "t2_read s p = t2_read s (p + 2)" "t2_pos s + 3 \<le> p" "p \<le> t2_pos s + 3 + 3 * k"
      by auto
    then show ?thesis using False
      by (intro exI [of _ p]) (simp add: t2_stable.simps [of s] Let_def)
  qed
qed

lemma adc_16:
  assumes "adc a (of_nat (n mod 256)) False = (lo, c)" "adc x (of_nat (n div 256)) c = (hi, c1)"
    "n < 65536"
  shows "unat lo + 256 * unat hi = (unat a + 256 * unat x + n) mod 65536"
proof -
  have m: "unat (of_nat (n mod 256) :: u8) = n mod 256" "unat (of_nat (n div 256) :: u8) = n div 256"
    using assms(3) by (simp_all add: unat_of_nat)
  have "unat lo + 256 * unat hi + 65536 * of_bool c1 = unat a + 256 * unat x + (n mod 256 + 256 * (n div 256))"
    using adc_carry [OF assms(1)] adc_carry [OF assms(2)] unfolding m of_bool_eq by linarith
  then have eq: "unat a + 256 * unat x + n = unat lo + 256 * unat hi + 65536 * of_bool c1" by simp
  have lt: "unat lo + 256 * unat hi < 65536" using u8_bound [of lo] u8_bound [of hi] by linarith
  show ?thesis unfolding eq using lt by simp
qed

lemma systick_isr_tick:
  assumes "ifr AND 0x20 \<noteq> 0" "t2_read s (t2_pos s + 3 * k) = t2_read s (t2_pos s + 3 * k + 2)"
  shows "\<exists>s' p. systick_isr ifr s = Some s' \<and> tick_mem s' = tick_inc 5 0 (tick_mem s) \<and>
    t2_read s' = t2_read s \<and> t2_pos s' = p + 3 \<and> t2_pos s \<le> p \<and> p \<le> t2_pos s + 3 * k \<and>
    t2_read s p = t2_read s (p + 2) \<and>
    unat (via_t2cl s') + 256 * unat (via_t2ch s') =
      (unat (t2_read s (p + 1)) + 256 * unat (t2_read s p) + (T2COUNT - 24)) mod 65536"
proof -
  let ?s0 = "s\<lparr>tick_mem := tick_inc 5 0 (tick_mem s)\<rparr>"
  obtain p where p: "t2_stable ?s0 = Some ((t2_read s (p + 1), t2_read s p), ?s0\<lparr>t2_pos := p + 3\<rparr>)"
    "t2_read s p = t2_read s (p + 2)" "t2_pos s \<le> p" "p \<le> t2_pos s + 3 * k"
    using t2_stable_returns [of ?s0 k] assms(2) by auto
  obtain lo c where lo: "adc (t2_read s (p + 1)) (of_nat ((T2COUNT - 24) mod 256)) False = (lo, c)"
    by (cases "adc (t2_read s (p + 1)) (of_nat ((T2COUNT - 24) mod 256)) False")
  obtain hi c1 where hi: "adc (t2_read s p) (of_nat ((T2COUNT - 24) div 256)) c = (hi, c1)"
    by (cases "adc (t2_read s p) (of_nat ((T2COUNT - 24) div 256)) c")
  have "systick_isr ifr s = Some (?s0\<lparr>t2_pos := p + 3, via_t2cl := lo, via_t2ch := hi\<rparr>)"
    unfolding systick_isr_def using assms(1) p(1) lo hi by simp
  then show ?thesis using p adc_16 [OF lo hi] by auto
qed

section \<open>Runs of interrupts\<close>

text \<open>The interrupt handler called once per value read from the interrupt flags register.\<close>

fun systick_run :: "u8 list \<Rightarrow> systick \<Rightarrow> systick option" where
  "systick_run [] s = Some s"
| "systick_run (ifr # ifrs) s = Option.bind (systick_isr ifr s) (systick_run ifrs)"

definition t2_settles :: "(nat \<Rightarrow> u8) \<Rightarrow> bool" where
  "t2_settles rd \<longleftrightarrow> (\<forall>p. \<exists>k. rd (p + 3 * k) = rd (p + 3 * k + 2))"

lemma systick_run_counts:
  "t2_settles (t2_read s) \<Longrightarrow>
   \<exists>s'. systick_run ifrs s = Some s' \<and>
     tick_val 5 0 (tick_mem s') =
       (tick_val 5 0 (tick_mem s) + length (filter (\<lambda>i. i AND 0x20 \<noteq> 0) ifrs)) mod 256 ^ 5"
proof (induction ifrs arbitrary: s)
  case Nil
  show ?case using tick_val_less [of 5 0 "tick_mem s"] by simp
next
  case (Cons ifr ifrs)
  show ?case
  proof (cases "ifr AND 0x20 = 0")
    case True
    then show ?thesis using Cons.IH [OF Cons.prems] by (simp add: systick_isr_def)
  next
    case False
    obtain k where "t2_read s (t2_pos s + 3 * k) = t2_read s (t2_pos s + 3 * k + 2)"
      using Cons.prems unfolding t2_settles_def by blast
    from systick_isr_tick [OF False this] obtain s1 where
      s1: "systick_isr ifr s = Some s1" "tick_mem s1 = tick_inc 5 0 (tick_mem s)"
        "t2_read s1 = t2_read s" by blast
    obtain s' where s': "systick_run ifrs s1 = Some s'" "tick_val 5 0 (tick_mem s') =
        (tick_val 5 0 (tick_mem s1) + length (filter (\<lambda>i. i AND 0x20 \<noteq> 0) ifrs)) mod 256 ^ 5"
      using Cons.IH [of s1] Cons.prems s1(3) by auto
    show ?thesis using s1 s' False by (simp add: tick_inc_val mod_add_left_eq)
  qed
qed

lemma do_init_systick_zero: "tick_val 5 0 (tick_mem (do_init_systick s)) = 0"
  by (auto simp: tick_val_def do_init_systick_def)

text \<open>
  C15. From the start-up code on, after any sequence of interrupts the 64-bit value that
  \<^verbatim>\<open>sys_monoclock\<close> returns is the number of timer interrupts modulo \<open>2 ^ 40\<close>, and the 16-bit value
  of \<^verbatim>\<open>sys_clock\<close> is the same number modulo \<open>2 ^ 16\<close>: interrupts of other sources are not counted and
  the carry reaches every byte. The handler returns every time, when the timer's high byte is now
  and then the same before and after a read of the low byte.
\<close>

theorem systick_counts_interrupts:
  assumes "t2_settles (t2_read s)"
  shows "\<exists>s'. systick_run ifrs (do_init_systick s) = Some s' \<and>
    little_endian (systick_monoclock s') =
      length (filter (\<lambda>i. i AND 0x20 \<noteq> 0) ifrs) mod 2 ^ 40 \<and>
    little_endian [fst (systick_clock s'), snd (systick_clock s')] =
      length (filter (\<lambda>i. i AND 0x20 \<noteq> 0) ifrs) mod 2 ^ 16"
proof -
  let ?n = "length (filter (\<lambda>i. i AND 0x20 \<noteq> 0) ifrs)"
  have "t2_settles (t2_read (do_init_systick s))" using assms by (simp add: do_init_systick_def)
  from systick_run_counts [OF this] obtain s' where
    s': "systick_run ifrs (do_init_systick s) = Some s'" "tick_val 5 0 (tick_mem s') = ?n mod 256 ^ 5"
    by (auto simp: do_init_systick_zero)
  have "?n mod 1099511627776 mod 65536 = ?n mod 65536" by (rule mod_mod_cancel) simp
  then show ?thesis using s' by (simp add: monoclock_tick_val systick_clock_tick_val)
qed

theorem systick_counts_interrupts_witness:
  "t2_settles (\<lambda>i. 7) \<and>
   (\<exists>s'. systick_run [0x20, 0x02, 0xA0]
       (do_init_systick \<lparr>tick_mem = \<lambda>i. 255, via_ier = 0, via_acr = 0, via_t2cl = 0, via_t2ch = 0,
          t2_read = \<lambda>i. 7, t2_pos = 0\<rparr>) = Some s' \<and>
     little_endian (systick_monoclock s') = 2)"
  using systick_counts_interrupts [of
      "\<lparr>tick_mem = \<lambda>i. 255, via_ier = 0, via_acr = 0, via_t2cl = 0, via_t2ch = 0,
        t2_read = \<lambda>i. 7, t2_pos = 0\<rparr>" "[0x20, 0x02, 0xA0]"]
  by (auto simp: t2_settles_def)

text \<open>
  C26. The loop of the timer interrupt that reads the running timer ends as soon as the high byte is
  the same before and after the low byte is read: within \<open>k + 1\<close> rounds when that is so in round
  \<open>k\<close>. The pair of bytes it then has were read in such a round, and the timer restarts at that
  count plus \<^verbatim>\<open>T2COUNT - 24\<close>, as 16-bit numbers.
\<close>

theorem systick_isr_restart_terminates:
  assumes "ifr AND 0x20 \<noteq> 0" "t2_read s (t2_pos s + 3 * k) = t2_read s (t2_pos s + 3 * k + 2)"
  shows "\<exists>s' p. systick_isr ifr s = Some s' \<and> t2_pos s' = p + 3 \<and> p + 3 \<le> t2_pos s + 3 * (k + 1) \<and>
    t2_read s p = t2_read s (p + 2) \<and>
    unat (via_t2cl s') + 256 * unat (via_t2ch s') =
      (unat (t2_read s (p + 1)) + 256 * unat (t2_read s p) + 3882) mod 65536"
  using systick_isr_tick [OF assms] by auto

theorem systick_isr_restart_terminates_witness:
  "\<exists>s' p. systick_isr 0x20 \<lparr>tick_mem = \<lambda>i. 255, via_ier = 0, via_acr = 0, via_t2cl = 0, via_t2ch = 0,
       t2_read = (\<lambda>i. if i = 0 then 1 else 0), t2_pos = 0\<rparr> = Some s' \<and> t2_pos s' = p + 3 \<and> p \<le> 3"
  using systick_isr_restart_terminates [of "0x20"
      "\<lparr>tick_mem = \<lambda>i. 255, via_ier = 0, via_acr = 0, via_t2cl = 0, via_t2ch = 0,
        t2_read = (\<lambda>i. if i = 0 then 1 else 0), t2_pos = 0\<rparr>" 1]
  by auto

lemma do_init_systick_overrun: "tick_mem (do_init_systick s) 5 = 0"
  by (simp add: do_init_systick_def)

end
