(* ===== verification/Irq.thy ===== *)
theory Irq
  imports Switcher Serial Systick
begin

unbundle bit_operations_syntax

text \<open>
  The entry to the kernel: the interrupt handler \<^verbatim>\<open>_irqbrk\<close> of \<^verbatim>\<open>target/eater/reset.S\<close>, which tells a
  BRK from an interrupt, and the system call dispatcher \<^verbatim>\<open>brk_syscall\<close> of \<^verbatim>\<open>os/switcher.S\<close>, in the
  65C02 version that the eater target is built for. The state is the registers, the machine of
  \<^verbatim>\<open>Switcher\<close> and the two drivers. The bytes of the table of handlers, the handlers and the addresses
  of the instructions after the subroutine calls are arguments.
\<close>

section \<open>Registers and subroutine calls\<close>

record regs =
  ra :: u8
  rx :: u8
  ry :: u8
  rp :: u8

record irq_sys =
  cpu :: machine
  tick :: systick
  ser :: serial

text \<open>The return addresses of the three subroutine calls.\<close>

record code_labels =
  after_systick :: u16
  after_serial :: u16
  after_dispatch :: u16

definition jsr :: "u16 \<Rightarrow> machine \<Rightarrow> machine" where
  "jsr ret m = push (ucast (ret - 1)) (push (ucast (drop_bit 8 (ret - 1))) m)"

definition pull :: "machine \<Rightarrow> u8 \<times> machine" where
  "pull m = (stk m (mS m + 1), m\<lparr>mS := mS m + 1\<rparr>)"

text \<open>
  The byte at \<open>0x100 + k + X\<close> where X is the stack pointer; beyond page one it is not on the stack
  and there is no result.
\<close>

definition stk_at :: "nat \<Rightarrow> machine \<Rightarrow> u8 option" where
  "stk_at k m = (if unat (mS m) + k \<le> 255 then Some (stk m (mS m + of_nat k)) else None)"

text \<open>The flags after a load. Bits 4 and 5 of the status exist on the stack only.\<close>

definition nz :: "u8 \<Rightarrow> u8 \<Rightarrow> u8" where
  "nz b p = (p AND NOT 0x82) OR (b AND 0x80) OR (if b = 0 then 2 else 0)"

definition rti_regs :: "regs \<Rightarrow> machine \<Rightarrow> regs \<times> u16 \<times> machine" where
  "rti_regs r m = (r\<lparr>rp := stk m (mS m + 1) AND NOT 0x30\<rparr>, rti m)"

section \<open>System calls\<close>

text \<open>
  A handler maps the registers and the state at its entry to those at its \<^verbatim>\<open>rts\<close>, with whatever
  interrupts come meanwhile; one that does not return, such as \<^verbatim>\<open>sys_exit\<close>, gives \<^const>\<open>None\<close>.
\<close>

type_synonym handler = "u16 \<Rightarrow> regs \<Rightarrow> irq_sys \<Rightarrow> (regs \<times> irq_sys) option"

text \<open>What follows the call of the handler, at the handler's \<^verbatim>\<open>rts\<close>.\<close>

definition brk_return :: "code_labels \<Rightarrow> regs \<Rightarrow> irq_sys \<Rightarrow> regs \<times> u16 \<times> irq_sys" where
  "brk_return lab r w =
     (let (ret, m3) = rts (cpu w) in
      if ret \<noteq> after_dispatch lab then (r, ret, w\<lparr>cpu := m3\<rparr>)
      else
        (let (y1, m4) = pull m3;
             (y2, m5) = pull m4;
             (r2, adr, m6) = rti_regs (r\<lparr>ry := y2\<rparr>) (m5\<lparr>in_kernel := in_kernel m5 - 1\<rparr>) in
         (r2, adr, w\<lparr>cpu := m6\<rparr>)))"

definition brk_syscall ::
    "code_labels \<Rightarrow> (nat \<Rightarrow> u8) \<Rightarrow> handler \<Rightarrow> regs \<Rightarrow> irq_sys \<Rightarrow> (regs \<times> u16 \<times> irq_sys) option" where
  "brk_syscall lab table call r w =
     (let m1 = (cpu w)\<lparr>in_kernel := in_kernel (cpu w) + 1\<rparr> in
      do { a \<leftarrow> stk_at 2 m1;
           x \<leftarrow> stk_at 1 m1;
           let m2 = m1\<lparr>rc := (rc m1)(4 := table (unat (ry r)), 5 := table (unat (ry r) + 1), 2 := a, 3 := x)\<rparr>;
           (r1, w1) \<leftarrow> call (pair16 (rc m2 4) (rc m2 5)) (r\<lparr>ra := x, rx := mS m1, rp := nz x (rp r)\<rparr>)
             (w\<lparr>cpu := jsr (after_dispatch lab) m2\<rparr>);
           Some (brk_return lab r1 w1) })"

section \<open>The interrupt handler\<close>

text \<open>At reset the stack is set up; the flags that are set there are left out.\<close>

definition do_reset :: "machine \<Rightarrow> machine" where
  "do_reset m = m\<lparr>mS := 0xFF\<rparr>"

text \<open>
  \<open>ifr\<close>, \<open>status\<close> and \<open>data\<close> are what the reads of the device registers return. Both interrupt
  routines leave Y alone. \<^verbatim>\<open>irq\<close> is the default handler \<^verbatim>\<open>_irq_default\<close>, which returns.
\<close>

definition irqbrk ::
    "code_labels \<Rightarrow> (nat \<Rightarrow> u8) \<Rightarrow> handler \<Rightarrow> u8 \<Rightarrow> u8 \<Rightarrow> u8 \<Rightarrow> regs \<Rightarrow> irq_sys \<Rightarrow>
     (regs \<times> u16 \<times> irq_sys) option" where
  "irqbrk lab table call ifr status data r w =
     (let m = push (rx r) (push (ra r) (cpu w)) in
      do { p \<leftarrow> stk_at 3 m;
           if p AND 0x10 \<noteq> 0 then
             brk_syscall lab table call (r\<lparr>rp := rp r AND NOT 0x0C\<rparr>) (w\<lparr>cpu := m\<rparr>)
           else do {
             t \<leftarrow> systick_isr ifr (tick w);
             let m1 = snd (rts (jsr (after_systick lab) m));
             let m2 = snd (rts (jsr (after_serial lab) m1));
             let (x1, m3) = pull m2;
             let (a1, m4) = pull m3;
             let (r1, adr, m5) = rti_regs (r\<lparr>ra := a1, rx := x1\<rparr>) m4;
             Some (r1, adr, w\<lparr>cpu := m5, tick := t, ser := serial_isr status data (ser w)\<rparr>) } })"

text \<open>
  At BRK and at an interrupt the processor pushes the address where execution is to go on and the
  status, with the break flag set for BRK only, and masks interrupts.
\<close>

definition pushed_flags :: "bool \<Rightarrow> u8 \<Rightarrow> u8" where
  "pushed_flags brk p = (if brk then p OR 0x30 else (p AND NOT 0x10) OR 0x20)"

definition take_irq :: "bool \<Rightarrow> u16 \<Rightarrow> u8 \<Rightarrow> irq_sys \<Rightarrow> irq_sys" where
  "take_irq brk adr p w =
     w\<lparr>cpu := push (pushed_flags brk p) (push (ucast adr) (push (ucast (drop_bit 8 adr)) (cpu w)))\<rparr>"

definition mask_irq :: "regs \<Rightarrow> regs" where
  "mask_irq r = r\<lparr>rp := rp r OR 4\<rparr>"

section \<open>The stack at entry\<close>

lemma bit_break: "bit (0x10 :: u8) n \<longleftrightarrow> n = 4" "bit (0x20 :: u8) n \<longleftrightarrow> n = 5" "bit (0x30 :: u8) n \<longleftrightarrow> n = 4 \<or> n = 5"
proof -
  have 1: "(0x10 :: u8) = 2 ^ 4" "(0x20 :: u8) = 2 ^ 5" "(0x30 :: u8) = 0x10 OR 0x20" by simp_all
  show e: "bit (0x10 :: u8) n \<longleftrightarrow> n = 4" "bit (0x20 :: u8) n \<longleftrightarrow> n = 5"
    unfolding 1 bit_exp_iff by auto
  show "bit (0x30 :: u8) n \<longleftrightarrow> n = 4 \<or> n = 5" unfolding 1(3) bit_or_iff e ..
qed

lemma pushed_flags_break: "pushed_flags brk p AND 0x10 = (if brk then 0x10 else 0)"
  by (rule bit_eqI)
    (cases brk; simp only: pushed_flags_def if_True if_False bit_and_iff bit_or_iff bit_not_iff bit_break bit_0_eq bot_apply; auto)

lemma pushed_flags_pull: "p AND 0x30 = 0 \<Longrightarrow> pushed_flags brk p AND NOT 0x30 = p"
proof -
  assume "p AND 0x30 = 0"
  then have "\<not> bit (p AND 0x30) 4" "\<not> bit (p AND 0x30) 5" by simp_all
  then have "\<not> bit p 4" "\<not> bit p 5" by (simp_all add: bit_and_iff bit_break)
  then show ?thesis by (intro bit_eqI)
      (cases brk; simp only: pushed_flags_def if_True if_False bit_and_iff bit_or_iff bit_not_iff bit_break bit_0_eq bot_apply; auto)
qed

lemma u8_offsets:
  "(S :: u8) \<noteq> S - 1" "S \<noteq> S - 2" "S \<noteq> S - 3" "S \<noteq> S - 4" "S \<noteq> S - 5" "S \<noteq> S - 6"
  "S - 1 \<noteq> S - 2" "S - 1 \<noteq> S - 3" "S - 1 \<noteq> S - 4" "S - 1 \<noteq> S - 5" "S - 1 \<noteq> S - 6"
  "S - 2 \<noteq> S - 3" "S - 2 \<noteq> S - 4" "S - 2 \<noteq> S - 5" "S - 2 \<noteq> S - 6"
  "S - 3 \<noteq> S - 4" "S - 3 \<noteq> S - 5" "S - 3 \<noteq> S - 6" "S - 4 \<noteq> S - 5" "S - 4 \<noteq> S - 6" "S - 5 \<noteq> S - 6"
  by simp_all

text \<open>The stack once the processor has pushed address and status and the handler A and X.\<close>

definition irq_frame :: "bool \<Rightarrow> u16 \<Rightarrow> regs \<Rightarrow> machine \<Rightarrow> u8 \<Rightarrow> u8" where
  "irq_frame brk adr r m = (stk m)(mS m := ucast (drop_bit 8 adr), mS m - 1 := ucast adr,
     mS m - 2 := pushed_flags brk (rp r), mS m - 3 := ra r, mS m - 4 := rx r)"

lemma irq_entry:
  "push (rx (mask_irq r)) (push (ra (mask_irq r)) (cpu (take_irq brk adr (rp r) w))) =
     (cpu w)\<lparr>stk := irq_frame brk adr r (cpu w), mS := mS (cpu w) - 5\<rparr>"
  by (simp add: push_def take_irq_def mask_irq_def irq_frame_def)

lemma irq_frame_at:
  "irq_frame brk adr r m (mS m) = ucast (drop_bit 8 adr)" "irq_frame brk adr r m (mS m - 1) = ucast adr"
  "irq_frame brk adr r m (mS m - 2) = pushed_flags brk (rp r)" "irq_frame brk adr r m (mS m - 3) = ra r"
  "irq_frame brk adr r m (mS m - 4) = rx r"
  by (simp_all add: irq_frame_def u8_offsets)

lemma rts_jsr:
  "rts (jsr ret m) = (ret, m\<lparr>stk := (stk m)(mS m := ucast (drop_bit 8 (ret - 1)), mS m - 1 := ucast (ret - 1))\<rparr>)"
  by (simp add: rts_def jsr_def push_def pair16_split)

lemma u8_outside:
  "6 \<le> unat (S :: u8) \<Longrightarrow> S < k \<or> unat k + 6 < unat S \<Longrightarrow>
    k \<noteq> S \<and> k \<noteq> S - 1 \<and> k \<noteq> S - 2 \<and> k \<noteq> S - 3 \<and> k \<noteq> S - 4 \<and> k \<noteq> S - 5 \<and> k \<noteq> S - 6"
proof -
  assume S: "6 \<le> unat S" and k: "S < k \<or> unat k + 6 < unat S"
  then have "unat (S - 1) = unat S - 1" "unat (S - 2) = unat S - 2" "unat (S - 3) = unat S - 3"
      "unat (S - 4) = unat S - 4" "unat (S - 5) = unat S - 5" "unat (S - 6) = unat S - 6"
    by (subst unat_sub; simp add: word_le_nat_alt)+
  then show ?thesis using S k by (auto simp: word_less_nat_alt)
qed

text \<open>The free bytes are in page one, and so are the bytes that the handler reads.\<close>

lemma irq_read_in_page:
  assumes "6 \<le> unat (S :: u8)" and "k \<le> 5"
  shows "unat (S - 5) + k \<le> 255"
proof -
  have "unat (S - 5) = unat S - 5" using assms(1) by (subst unat_sub) (simp_all add: word_le_nat_alt)
  then show ?thesis using assms unsigned_less [of S, where 'a = nat] by simp
qed

lemma handler_below: "7 \<le> unat (S :: u8) \<Longrightarrow> S < k \<Longrightarrow> S - 7 < k"
  by (simp add: word_less_nat_alt unat_sub word_le_nat_alt)

text \<open>The state at the entry of the handler of a system call.\<close>

definition handler_state :: "code_labels \<Rightarrow> (nat \<Rightarrow> u8) \<Rightarrow> u16 \<Rightarrow> regs \<Rightarrow> irq_sys \<Rightarrow> irq_sys" where
  "handler_state lab table adr r w = w\<lparr>cpu := jsr (after_dispatch lab)
     ((cpu w)\<lparr>stk := irq_frame True adr r (cpu w), mS := mS (cpu w) - 5,
       in_kernel := in_kernel (cpu w) + 1,
       rc := (rc (cpu w))(2 := ra r, 3 := rx r, 4 := table (unat (ry r)), 5 := table (unat (ry r) + 1))\<rparr>)\<rparr>"

lemma handler_state_simps:
  "rc (cpu (handler_state lab table adr r w)) =
     (rc (cpu w))(2 := ra r, 3 := rx r, 4 := table (unat (ry r)), 5 := table (unat (ry r) + 1))"
  "in_kernel (cpu (handler_state lab table adr r w)) = in_kernel (cpu w) + 1"
  "cur (cpu (handler_state lab table adr r w)) = cur (cpu w)"
  "blk (cpu (handler_state lab table adr r w)) = blk (cpu w)"
  "tick (handler_state lab table adr r w) = tick w" "ser (handler_state lab table adr r w) = ser w"
  "mS (cpu (handler_state lab table adr r w)) = mS (cpu w) - 7"
  "stk (cpu (handler_state lab table adr r w)) = (irq_frame True adr r (cpu w))
     (mS (cpu w) - 5 := ucast (drop_bit 8 (after_dispatch lab - 1)), mS (cpu w) - 6 := ucast (after_dispatch lab - 1))"
  by (simp_all add: handler_state_def jsr_def push_def)

lemma handler_stack_above:
  assumes "7 \<le> unat (mS (cpu w))" and "mS (cpu w) < k"
  shows "stk (cpu (handler_state lab table adr r w)) k = stk (cpu w) k"
  using u8_outside [of "mS (cpu w)" k] assms by (simp add: handler_state_simps irq_frame_def)

lemma nz_keeps_cli: "nz b (p AND NOT 0x0C) AND 4 = 0"
proof -
  have b: "bit (4 :: u8) n \<longleftrightarrow> n = 2" for n
  proof -
    have "(4 :: u8) = 2 ^ 2" by simp
    then show ?thesis by (simp only: bit_exp_iff) auto
  qed
  have "\<not> bit (nz b (p AND NOT 0x0C)) 2" by (simp add: nz_def bit_and_iff bit_or_iff bit_not_iff)
  then show ?thesis by (intro bit_eqI) (simp only: bit_and_iff b bit_0_eq bot_apply, auto)
qed

text \<open>A BRK leads to the handler, and what the handler returns goes to \<^const>\<open>brk_return\<close>.\<close>

lemma brk_dispatch_eq:
  assumes "7 \<le> unat (mS (cpu w))"
  shows "irqbrk lab table call ifr status data (mask_irq r) (take_irq True adr (rp r) w) =
    map_option (\<lambda>(r2, w2). brk_return lab r2 w2)
      (call (pair16 (table (unat (ry r))) (table (unat (ry r) + 1)))
        ((mask_irq r)\<lparr>ra := rx r, rx := mS (cpu w) - 5, rp := nz (rx r) (rp (mask_irq r) AND NOT 0x0C)\<rparr>)
        (handler_state lab table adr r w))"
proof -
  define M where "M = (cpu w)\<lparr>stk := irq_frame True adr r (cpu w), mS := mS (cpu w) - 5\<rparr>"
  have page: "unat (mS (cpu w) - 5) + k \<le> 255" if "k \<le> 5" for k using irq_read_in_page [OF _ that] assms by simp
  have at3: "stk_at 3 M = Some (pushed_flags True (rp r))"
    using page [of 3] by (simp add: stk_at_def M_def irq_frame_at)
  have at: "stk_at 2 (M\<lparr>in_kernel := n\<rparr>) = Some (ra r)" "stk_at 1 (M\<lparr>in_kernel := n\<rparr>) = Some (rx r)" for n
    using page [of 2] page [of 1] by (simp_all add: stk_at_def M_def irq_frame_at)
  have upd: "(rc m)(4 := a, 5 := b, 2 := c, 3 := d) = (rc m)(2 := c, 3 := d, 4 := a, 5 := b)" for m a b c d
    by (simp add: fun_eq_iff)
  have "irqbrk lab table call ifr status data (mask_irq r) (take_irq True adr (rp r) w) =
      brk_syscall lab table call ((mask_irq r)\<lparr>rp := rp (mask_irq r) AND NOT 0x0C\<rparr>)
        ((take_irq True adr (rp r) w)\<lparr>cpu := M\<rparr>)"
    unfolding irqbrk_def irq_entry M_def [symmetric] Let_def at3
    using pushed_flags_break [of True "rp r"] by simp
  also have "\<dots> = map_option (\<lambda>(r2, w2). brk_return lab r2 w2)
      (call (pair16 (table (unat (ry r))) (table (unat (ry r) + 1)))
        ((mask_irq r)\<lparr>ra := rx r, rx := mS (cpu w) - 5, rp := nz (rx r) (rp (mask_irq r) AND NOT 0x0C)\<rparr>)
        (handler_state lab table adr r w))"
    by (simp add: brk_syscall_def at Let_def upd map_conv_bind_option case_prod_unfold comp_def del: One_nat_def)
       (simp add: M_def handler_state_def mask_irq_def take_irq_def)
  finally show ?thesis .
qed

text \<open>A handler that keeps the stack is followed by the return to the caller.\<close>

lemma brk_return_eq:
  assumes S: "7 \<le> unat (mS (cpu w))" and "rp r AND 0x30 = 0"
    and m: "mS (cpu w2) = mS (cpu (handler_state lab table adr r w))"
    and keep: "\<forall>k. mS (cpu (handler_state lab table adr r w)) < k \<longrightarrow>
      stk (cpu w2) k = stk (cpu (handler_state lab table adr r w)) k"
  shows "brk_return lab r2 w2 = (r2\<lparr>ry := ra r, rp := rp r\<rparr>, adr,
    w2\<lparr>cpu := (cpu w2)\<lparr>mS := mS (cpu w), in_kernel := in_kernel (cpu w2) - 1\<rparr>\<rparr>)"
proof -
  let ?S = "mS (cpu w)"
  have lt: "?S - 7 < ?S" "?S - 7 < ?S - 1" "?S - 7 < ?S - 2" "?S - 7 < ?S - 3" "?S - 7 < ?S - 4"
      "?S - 7 < ?S - 5" "?S - 7 < ?S - 6"
    using S by (simp_all add: word_less_nat_alt unat_sub word_le_nat_alt)
  have st: "stk (cpu w2) ?S = ucast (drop_bit 8 adr)" "stk (cpu w2) (?S - 1) = ucast adr"
      "stk (cpu w2) (?S - 2) = pushed_flags True (rp r)" "stk (cpu w2) (?S - 3) = ra r"
      "stk (cpu w2) (?S - 5) = ucast (drop_bit 8 (after_dispatch lab - 1))"
      "stk (cpu w2) (?S - 6) = ucast (after_dispatch lab - 1)"
    using lt keep by (simp_all add: handler_state_simps irq_frame_at u8_offsets)
  show ?thesis
    by (simp add: brk_return_def rts_def pull_def rti_regs_def rti_def m handler_state_simps(7) st pair16_split
        pushed_flags_pull [OF assms(2), simplified])
qed

section \<open>Interrupts\<close>

text \<open>
  C8. An interrupt is invisible to the code it interrupts, wherever there are seven free bytes of
  stack: execution goes on at the interrupted address with A, X, Y and the flags, the stack pointer,
  the imaginary registers, the process blocks, the current process and the kernel counter as they
  were. On the stack only the seven free bytes change. The tick counter and the serial driver have
  handled their interrupt.
\<close>

theorem irq_transparent:
  assumes "6 \<le> unat (mS (cpu w))" and "rp r AND 0x30 = 0" and "systick_isr ifr (tick w) = Some t"
  shows "\<exists>st. irqbrk lab table call ifr status data (mask_irq r) (take_irq False adr (rp r) w) =
      Some (r, adr, w\<lparr>cpu := (cpu w)\<lparr>stk := st\<rparr>, tick := t, ser := serial_isr status data (ser w)\<rparr>) \<and>
    (\<forall>k. mS (cpu w) < k \<or> unat k + 6 < unat (mS (cpu w)) \<longrightarrow> st k = stk (cpu w) k)"
proof -
  let ?S = "mS (cpu w)" and ?F = "irq_frame False adr r (cpu w)"
  define M where "M = (cpu w)\<lparr>stk := ?F, mS := ?S - 5\<rparr>"
  define st where "st = ?F(?S - 5 := ucast (drop_bit 8 (after_serial lab - 1)), ?S - 6 := ucast (after_serial lab - 1))"
  have at3: "stk_at 3 M = Some (pushed_flags False (rp r))"
    using irq_read_in_page [OF assms(1), of 3] by (simp add: stk_at_def M_def irq_frame_at)
  have calls: "snd (rts (jsr (after_serial lab) (snd (rts (jsr (after_systick lab) M))))) = M\<lparr>stk := st\<rparr>"
    by (simp add: rts_jsr M_def st_def)
  have st_at: "st ?S = ucast (drop_bit 8 adr)" "st (?S - 1) = ucast adr" "st (?S - 2) = pushed_flags False (rp r)"
      "st (?S - 3) = ra r" "st (?S - 4) = rx r"
    by (simp_all add: st_def irq_frame_at u8_offsets)
  have t: "tick (take_irq False adr (rp r) w) = tick w" "ser (take_irq False adr (rp r) w) = ser w"
    by (simp_all add: take_irq_def)
  have "irqbrk lab table call ifr status data (mask_irq r) (take_irq False adr (rp r) w) =
      Some (r, adr, w\<lparr>cpu := (cpu w)\<lparr>stk := st\<rparr>, tick := t, ser := serial_isr status data (ser w)\<rparr>)"
    unfolding irqbrk_def irq_entry M_def [symmetric] Let_def at3 calls
    using assms(3) pushed_flags_break [of False "rp r"]
    by (simp add: t pull_def rti_regs_def rti_def M_def st_at pair16_split pushed_flags_pull [OF assms(2), simplified]
        mask_irq_def take_irq_def)
  moreover have "st k = stk (cpu w) k" if "?S < k \<or> unat k + 6 < unat ?S" for k
    using u8_outside [OF assms(1) that] by (simp add: st_def irq_frame_def)
  ultimately show ?thesis by blast
qed

text \<open>A machine with its drivers, for concrete runs.\<close>

definition some_sys :: irq_sys where
  "some_sys = \<lparr>cpu = two_procs,
     tick = \<lparr>tick_mem = (\<lambda>i. 0), via_ier = 0xA0, via_acr = 0, via_t2cl = 0, via_t2ch = 0,
       t2_read = (\<lambda>i. 0), t2_pos = 0\<rparr>,
     ser = \<lparr>rx_in = 0, rx_out = 0, rx_buffer = (\<lambda>i. 0), acia_cmd = 9\<rparr>\<rparr>"

definition some_labels :: code_labels where
  "some_labels = \<lparr>after_systick = 0x8010, after_serial = 0x8013, after_dispatch = 0x8050\<rparr>"

definition some_regs :: regs where
  "some_regs = \<lparr>ra = 7, rx = 8, ry = 4, rp = 0x81\<rparr>"

theorem irq_transparent_witness:
  "\<exists>w'. irqbrk some_labels (\<lambda>i. 0) (\<lambda>f r w. None) 0x02 0x88 65 (mask_irq some_regs)
      (take_irq False 0x4321 (rp some_regs) some_sys) = Some (some_regs, 0x4321, w') \<and>
    mS (cpu w') = 50 \<and> stk (cpu w') 51 = 51 \<and> rx_buffer (ser w') 0 = 65"
proof -
  have S: "mS (cpu some_sys) = 50" "stk (cpu some_sys) 51 = 51" "6 \<le> unat (mS (cpu some_sys))"
      "rp some_regs AND 0x30 = 0" "systick_isr 0x02 (tick some_sys) = Some (tick some_sys)"
    by (simp_all add: some_sys_def some_regs_def two_procs_simps systick_isr_def)
  have "rx_buffer (serial_isr 0x88 65 (ser some_sys)) 0 = 65"
    by (simp add: some_sys_def serial_isr_def Let_def)
  moreover obtain st where "irqbrk some_labels (\<lambda>i. 0) (\<lambda>f r w. None) 0x02 0x88 65 (mask_irq some_regs)
      (take_irq False 0x4321 (rp some_regs) some_sys) = Some (some_regs, 0x4321, some_sys\<lparr>
        cpu := (cpu some_sys)\<lparr>stk := st\<rparr>, tick := tick some_sys, ser := serial_isr 0x88 65 (ser some_sys)\<rparr>)"
      "st 51 = 51"
    using irq_transparent [OF S(3-5), of some_labels "\<lambda>i. 0" "\<lambda>f r w. None" "0x88" 65 "0x4321"] S(1,2) by auto
  ultimately show ?thesis using S(1) by simp
qed

section \<open>System calls\<close>

text \<open>
  C7. BRK with the number of a system call, doubled, in Y leads, where eight bytes of stack are free, to
  the handler whose address is in the table at that place, inside the kernel and with interrupts
  enabled. The handler finds the pointer that the caller has in A:X as its argument in RC2:RC3; apart
  from these and its address in RC4:RC5 the imaginary registers, the process blocks, the current
  process, the drivers and the caller's stack are as at the BRK. If the handler does not return, the
  system call does not either. If it returns with the stack pointer and the stack above it as at its
  entry, the caller goes on after the BRK with the handler's A:X, with its own flags, stack pointer and
  stack, and with the kernel counter one below what the handler left; Y holds the caller's A.
\<close>

theorem brk_calls_handler:
  fixes lab table call ifr status data adr r w
  assumes "7 \<le> unat (mS (cpu w))" and "rp r AND 0x30 = 0"
  defines "run \<equiv> irqbrk lab table call ifr status data (mask_irq r) (take_irq True adr (rp r) w)"
    and "f \<equiv> pair16 (table (unat (ry r))) (table (unat (ry r) + 1))"
  shows "\<exists>r1 w1. rc (cpu w1) = (rc (cpu w))(2 := ra r, 3 := rx r, 4 := table (unat (ry r)), 5 := table (unat (ry r) + 1)) \<and>
    in_kernel (cpu w1) = in_kernel (cpu w) + 1 \<and> cur (cpu w1) = cur (cpu w) \<and> blk (cpu w1) = blk (cpu w) \<and>
    tick w1 = tick w \<and> ser w1 = ser w \<and> rp r1 AND 4 = 0 \<and> mS (cpu w1) = mS (cpu w) - 7 \<and>
    (\<forall>k. mS (cpu w) < k \<longrightarrow> stk (cpu w1) k = stk (cpu w) k) \<and>
    (call f r1 w1 = None \<longrightarrow> run = None) \<and>
    (\<forall>r2 w2. call f r1 w1 = Some (r2, w2) \<and> mS (cpu w2) = mS (cpu w1) \<and>
        (\<forall>k. mS (cpu w1) < k \<longrightarrow> stk (cpu w2) k = stk (cpu w1) k) \<longrightarrow>
      run = Some (r2\<lparr>ry := ra r, rp := rp r\<rparr>, adr,
        w2\<lparr>cpu := (cpu w2)\<lparr>mS := mS (cpu w), in_kernel := in_kernel (cpu w2) - 1\<rparr>\<rparr>) \<and>
      (\<forall>k. mS (cpu w) < k \<longrightarrow> stk (cpu w2) k = stk (cpu w) k))"
proof -
  define W where "W = handler_state lab table adr r w"
  define R where "R = (mask_irq r)\<lparr>ra := rx r, rx := mS (cpu w) - 5,
    rp := nz (rx r) (rp (mask_irq r) AND NOT 0x0C)\<rparr>"
  note run = brk_dispatch_eq [OF assms(1), of lab table call ifr status data r adr,
      folded W_def R_def run_def f_def]
  note W = handler_state_simps [of lab table adr r w, folded W_def f_def]
  have keep: "stk (cpu W) k = stk (cpu w) k" if "mS (cpu w) < k" for k
    using handler_stack_above [OF assms(1) that] by (simp add: W_def)
  have "rp R AND 4 = 0" using nz_keeps_cli [of "rx r" "rp (mask_irq r)"] by (simp add: R_def)
  moreover have "run = None" if "call f R W = None" using that by (simp add: run)
  moreover have "run = Some (r2\<lparr>ry := ra r, rp := rp r\<rparr>, adr,
        w2\<lparr>cpu := (cpu w2)\<lparr>mS := mS (cpu w), in_kernel := in_kernel (cpu w2) - 1\<rparr>\<rparr>) \<and>
      (\<forall>k. mS (cpu w) < k \<longrightarrow> stk (cpu w2) k = stk (cpu w) k)"
    if c: "call f R W = Some (r2, w2)" and S: "mS (cpu w2) = mS (cpu W)"
      and st: "\<forall>k. mS (cpu W) < k \<longrightarrow> stk (cpu w2) k = stk (cpu W) k" for r2 w2
  proof -
    have "brk_return lab r2 w2 = (r2\<lparr>ry := ra r, rp := rp r\<rparr>, adr,
        w2\<lparr>cpu := (cpu w2)\<lparr>mS := mS (cpu w), in_kernel := in_kernel (cpu w2) - 1\<rparr>\<rparr>)"
      using brk_return_eq [OF assms(1,2) S [unfolded W_def] st [unfolded W_def]] .
    moreover have "mS (cpu W) < k" if "mS (cpu w) < k" for k
      using that handler_below [OF assms(1)] by (simp add: W)
    ultimately show ?thesis using c st keep by (simp add: run)
  qed
  ultimately show ?thesis using W keep by (intro exI [of _ R] exI [of _ W]) simp
qed

theorem brk_calls_handler_witness:
  "\<exists>w'. irqbrk some_labels (\<lambda>i. of_nat i) (\<lambda>f r w. Some (r\<lparr>ra := ucast f, rx := 2\<rparr>, w)) 0 0 0
      (mask_irq some_regs) (take_irq True 0x4321 (rp some_regs) some_sys) =
        Some (\<lparr>ra = 4, rx = 2, ry = 7, rp = 0x81\<rparr>, 0x4321, w') \<and>
    mS (cpu w') = 50 \<and> stk (cpu w') 51 = 51 \<and> in_kernel (cpu w') = in_kernel (cpu some_sys)"
proof -
  let ?call = "(\<lambda>f r w. Some (r\<lparr>ra := ucast f, rx := 2\<rparr>, w)) :: handler"
  have S: "7 \<le> unat (mS (cpu some_sys))" "rp some_regs AND 0x30 = 0" "mS (cpu some_sys) = 50"
      "stk (cpu some_sys) 51 = 51"
    by (simp_all add: some_sys_def some_regs_def two_procs_simps)
  have f: "pair16 (of_nat (unat (ry some_regs))) (of_nat (unat (ry some_regs) + 1)) = 0x504"
    by (simp add: some_regs_def pair16_def)
  obtain r1 w1 where e: "in_kernel (cpu w1) = in_kernel (cpu some_sys) + 1"
      "\<forall>k. mS (cpu some_sys) < k \<longrightarrow> stk (cpu w1) k = stk (cpu some_sys) k"
      "\<forall>r2 w2. ?call 0x504 r1 w1 = Some (r2, w2) \<and> mS (cpu w2) = mS (cpu w1) \<and>
        (\<forall>k. mS (cpu w1) < k \<longrightarrow> stk (cpu w2) k = stk (cpu w1) k) \<longrightarrow>
      irqbrk some_labels (\<lambda>i. of_nat i) ?call 0 0 0 (mask_irq some_regs)
          (take_irq True 0x4321 (rp some_regs) some_sys) =
        Some (r2\<lparr>ry := ra some_regs, rp := rp some_regs\<rparr>, 0x4321, w2\<lparr>cpu := (cpu w2)\<lparr>mS := mS (cpu some_sys),
          in_kernel := in_kernel (cpu w2) - 1\<rparr>\<rparr>) \<and>
      (\<forall>k. mS (cpu some_sys) < k \<longrightarrow> stk (cpu w2) k = stk (cpu some_sys) k)"
    using brk_calls_handler [OF S(1,2), where lab = some_labels and table = "\<lambda>i. of_nat i" and call = ?call and ifr = 0 and
      status = 0 and data = 0 and adr = "0x4321", unfolded f]
    by (elim exE conjE) (rule that; assumption)
  let ?r = "r1\<lparr>ra := ucast (0x504 :: u16), rx := 2\<rparr>\<lparr>ry := ra some_regs, rp := rp some_regs\<rparr>"
  let ?w = "w1\<lparr>cpu := (cpu w1)\<lparr>mS := mS (cpu some_sys), in_kernel := in_kernel (cpu w1) - 1\<rparr>\<rparr>"
  have res: "?r = \<lparr>ra = 4, rx = 2, ry = 7, rp = 0x81\<rparr>" by (cases r1) (simp add: some_regs_def)
  have "irqbrk some_labels (\<lambda>i. of_nat i) ?call 0 0 0 (mask_irq some_regs)
      (take_irq True 0x4321 (rp some_regs) some_sys) = Some (?r, 0x4321, ?w)"
    by (rule conjunct1 [OF mp [OF spec [OF spec [OF e(3)]]]]) (intro conjI refl allI impI)
  moreover have "mS (cpu ?w) = 50" "stk (cpu ?w) 51 = 51" "in_kernel (cpu ?w) = in_kernel (cpu some_sys)"
    using e(1,2) S(3,4) by simp_all
  ultimately show ?thesis unfolding res by (intro exI [of _ ?w] conjI)
qed

end
