(* ===== verification/Spec2Isabelle.thy ===== *)
theory Spec2Isabelle
  imports Shell_Parse Kfd Spi Irq
begin

text \<open>
  A verification of Mosnix, a small operating system in the style of Unix for the 6502 processor:
  its kernel (\<^verbatim>\<open>src/os\<close>), C library (\<^verbatim>\<open>src/libc-mosnix\<close>), shell (\<^verbatim>\<open>src/shell\<close>) and the assembly
  of the eater target (\<^verbatim>\<open>src/target/eater\<close>). Every C or assembly function that is modelled is one
  Isabelle function of the same name, or of that name with a prefix where two parts of the program
  use it.

  \<^bold>\<open>The program.\<close> A user program calls the C library, whose stub \<^verbatim>\<open>syscall.S\<close> executes BRK with the
  number of a system call. \<^verbatim>\<open>switcher.S\<close> looks the handler up in the table of \<^verbatim>\<open>dispatch.c\<close>. The
  handlers work on processes (\<^verbatim>\<open>proc.c\<close>, \<^verbatim>\<open>sched.c\<close>, \<^verbatim>\<open>sem.c\<close>), open files (\<^verbatim>\<open>file.c\<close>), inodes
  (\<^verbatim>\<open>inode.c\<close>, \<^verbatim>\<open>dir.c\<close>, \<^verbatim>\<open>mount.c\<close>) and, through tables of operations, on the RAM file system
  (\<^verbatim>\<open>ramfs.c\<close>), the FAT file system (\<^verbatim>\<open>fatfs.c\<close>, \<^verbatim>\<open>fatutils.c\<close>) and devices (\<^verbatim>\<open>devices.c\<close>,
  \<^verbatim>\<open>null.c\<close>, \<^verbatim>\<open>basictty.c\<close>). The FAT file system reads blocks through the SD card driver
  (\<^verbatim>\<open>sdcard.c\<close>, \<^verbatim>\<open>sdasm.S\<close>), which uses the SPI bus and the tick counter. All memory comes from
  \<^verbatim>\<open>kmalloc.c\<close>. The kernel starts the shell as its first process.

  \<^bold>\<open>Conventions.\<close> A function of the kernel maps the record \<open>kstate\<close> of all kernel variables
  (theory \<^verbatim>\<open>Kstate\<close>) to its result and the new state. A failure is the negative error number that
  the C code returns. \<^const>\<open>None\<close> is undefined behaviour of the C code: an access outside an array,
  through NULL, to a buffer that was freed or that holds another structure. Loops with a bound are
  recursive functions; a loop that follows pointers is a \<^theory_text>\<open>partial_function\<close> in the option monad, so
  that not ending is \<^const>\<open>None\<close> as well, and a statement about such a loop says that it returns.
  Machine integers have the width of the target: \<open>int\<close> and \<open>size_t\<close> have 16 bits, and reference
  counters wrap explicitly. What the hardware supplies (console input, bytes from the card, clock
  readings, timer and pin values) and what \<^verbatim>\<open>malloc\<close> returns are arbitrary streams read at a position
  in the state, so every theorem holds for all of them.

  \<^bold>\<open>Shared theories.\<close> \<^verbatim>\<open>Mosnix_Prelude\<close>: widths, configuration, error numbers, C strings, checked
  arrays. \<^verbatim>\<open>Asm6502\<close>: the arithmetic of the instructions with their carry equations, on which all
  proofs about assembly rest.

  \<^bold>\<open>Memory and queues.\<close> \<^verbatim>\<open>Kutil\<close> (\<^verbatim>\<open>util.c\<close>): the bounded copy fits and ends with NUL. \<^verbatim>\<open>Kqueue\<close>
  (\<^verbatim>\<open>sys/queue.h\<close>): the tail queue macros on pointers implement a family of lists; the contract is
  the locale \<open>queue_family\<close>. \<^verbatim>\<open>Kheap\<close> (second half of \<^verbatim>\<open>kmalloc.c\<close>): the user allocator is first fit
  over an ordered list, releasing merges neighbours, and the pointer arithmetic of a split places
  the remainder past the end of the memory. \<^verbatim>\<open>Kstate\<close>, \<^verbatim>\<open>Kbuf\<close> (first half): the buffer cache meets the contract of a pool of buffers,
  the locale \<open>buffer_pool\<close>, for every sequence of requests.

  \<^bold>\<open>Processes.\<close> \<^verbatim>\<open>Ksched\<close> (\<^verbatim>\<open>sched.c\<close>, \<^verbatim>\<open>sem.c\<close>): the queues and the states of the processes agree in
  all reachable states, a run of the semaphore operations refines a counter with a queue of
  waiters, repeated signals wake every waiter, and 256 signals bring the 8-bit counter back to zero.
  A semaphore that starts at one admits one process at a time, also when waiting processes are
  interrupted; the result of a wait is taken from the process block, where the kernel stores it, as
  \<^verbatim>\<open>schedule\<close> itself drops it. \<^verbatim>\<open>Kproc\<close>
  (\<^verbatim>\<open>proc.c\<close>, \<^verbatim>\<open>main.c\<close>): creation of processes and start of the kernel. \<^verbatim>\<open>Switcher\<close>
  (\<^verbatim>\<open>switcher.S\<close>): a process that is switched away from and back to continues with its stack, and the
  callee-saved registers are not saved. \<^verbatim>\<open>Irq\<close> (\<^verbatim>\<open>reset.S\<close> of the eater target, \<^verbatim>\<open>brk_syscall\<close>): an
  interrupt is invisible to what it interrupts where seven bytes of stack are free, and a BRK enters the
  handler in the table; a handler that comes back with the stack as at its entry, as the calling
  convention of the compiler has it, is followed by the return to the caller with its result.

  \<^bold>\<open>Files.\<close> \<^verbatim>\<open>Kpath\<close> (path part of \<^verbatim>\<open>inode.c\<close>): resolution computes the canonical absolute path and is
  idempotent. \<^verbatim>\<open>Kinode\<close>, \<^verbatim>\<open>Klookup\<close> (rest of \<^verbatim>\<open>inode.c\<close>, \<^verbatim>\<open>time.c\<close>), \<^verbatim>\<open>Ramfs\<close>, \<^verbatim>\<open>Fatfs\<close>, \<^verbatim>\<open>Kfile\<close>
  (\<^verbatim>\<open>file.c\<close>), \<^verbatim>\<open>Kdir\<close> (\<^verbatim>\<open>dir.c\<close>, \<^verbatim>\<open>mount.c\<close>) model the file layer. \<^verbatim>\<open>Kfd\<close>: the
  reference count of every open file is the number of descriptors that refer to it, and stays so under
  the system calls on descriptors; opening is not among them. \<^verbatim>\<open>Fatutils\<close>: a name
  without an extension that is formatted as 8.3 and converted back is the same name in lower case, and
  an extension is stored with its dot. \<^verbatim>\<open>Kdev\<close>: what the console writes, reads and echoes; the
  contract of a character device is the locale \<open>char_device\<close>. \<^verbatim>\<open>Kmisc\<close>: the small system calls, debug
  output and the table of system calls.

  \<^bold>\<open>Drivers.\<close> \<^verbatim>\<open>Sdcard\<close>: detection ends for every card and leaves a consistent geometry, the assembly
  computes what the C reference does, and a cached read is correct; two faults of the error paths are
  shown. \<^verbatim>\<open>Spi\<close> (\<^verbatim>\<open>spi.S\<close>): the bits on the pins implement the byte-wide interface that \<^verbatim>\<open>Sdcard\<close>
  uses. \<^verbatim>\<open>Serial\<close> (\<^verbatim>\<open>serial.S\<close>, \<^verbatim>\<open>target.c\<close>): for every interleaving of the interrupt with the reader's
  instructions the ring buffer is a queue. \<^verbatim>\<open>Systick\<close> (\<^verbatim>\<open>systick.S\<close>): the clock counts timer
  interrupts.

  \<^bold>\<open>User space.\<close> \<^verbatim>\<open>Libc\<close>: the stub turns a negative result into -1 and \<^verbatim>\<open>errno\<close>, and a time that is set
  is read back. \<^verbatim>\<open>Getopt\<close>: option parsing. \<^verbatim>\<open>Print\<close>, \<^verbatim>\<open>Stdio\<close> (\<^verbatim>\<open>print.c\<close>, \<^verbatim>\<open>div10.S\<close>): a number below
  $2^{24}$ is printed as its decimal digits, through the library, the kernel and the console; the
  division is wrong for some larger numbers. \<^verbatim>\<open>Shell\<close>, \<^verbatim>\<open>Shell_Parse\<close>: splitting a line in place computes the words of the line,
  and the search for a command finds exactly the command of that name, but reads past the table for a
  name after the last one.

  \<^bold>\<open>Bounds.\<close> No theorem relies on fuel. Recursions that carry a counter take it from the code: the size
  of a request, the 255 tries of the card's protocol, the entries of a table. The
  interrupt of \<^verbatim>\<open>Serial\<close> may come any number of times between any two instructions of the reader,
  as long as the command register of the ACIA has receive interrupts enabled.

  \<^bold>\<open>Not modelled.\<close> The scripts under \<^verbatim>\<open>tools\<close> and the headers they generate, apart from the
  numbers; the linker scripts and \<^verbatim>\<open>startup.S\<close>, which fix addresses that are arguments here; the
  simulator's \<^verbatim>\<open>reset.S\<close>, which is the entry of the eater target without device interrupts; the registers of the simulator (\<^verbatim>\<open>target/sim/target.c\<close>), as the simulator is not part of the
  sources; the endless loop of \<^verbatim>\<open>sched_start\<close>; the message before \<^verbatim>\<open>schedule\<close> halts; the flags set at reset; the queue macros of \<^verbatim>\<open>sys/queue.h\<close> that nothing uses; configurations other than the
  default one (access control, symbolic links, \<^verbatim>\<open>lseek\<close>), except for path resolution with symbolic
  links. In \<^verbatim>\<open>Switcher\<close> and \<^verbatim>\<open>Irq\<close> process blocks do not overlap the stack or the registers,
  and in \<^verbatim>\<open>Kheap\<close> block headers do not overlap the bytes of blocks. In \<^verbatim>\<open>Spi\<close> masking
  interrupts has no effect.
\<close>

end
